(* ===== verification/Prelude.thy ===== *)
theory Prelude
  imports Main "HOL-Library.Word" "HOL-Library.Sublist" "HOL-Library.List_Lexorder" "HOL-Library.Char_ord"
    "HOL-Library.Code_Target_Nat"
begin

text \<open>
  Shared vocabulary of the development.

  A Go string is a sequence of bytes, an Isabelle \<^typ>\<open>string\<close> is a list of 8-bit characters:
  the two coincide, and every string operation of the source is modelled on bytes.  Case mapping
  and white space are those of the ASCII fast path of the Go library; bytes above 127 are left
  alone.  Machine integers keep their width.  The theory holds

  \<^item> the operations of Go's \<open>strings\<close> and \<open>strconv\<close> packages that the components call;
  \<^item> \<open>bufio.Scanner\<close> with its default line splitter;
  \<^item> generic facts on them (cutting, splitting, trimming, decimal numbers), gathered in the
    collections \<open>go_string\<close> and \<open>go_num\<close>;
  \<^item> the collection \<open>go_eval\<close> of equations that let the simplifier run them on concrete strings.
\<close>

named_theorems go_string
named_theorems go_num
named_theorems go_eval

type_synonym uint32 = "32 word"
type_synonym uint64 = "64 word"

subsection \<open>The strings package\<close>

definition HasPrefix :: "string \<Rightarrow> string \<Rightarrow> bool" where
  "HasPrefix s p = (take (length p) s = p)"

definition HasSuffix :: "string \<Rightarrow> string \<Rightarrow> bool" where
  "HasSuffix s p = (length p \<le> length s \<and> drop (length s - length p) s = p)"

definition TrimPrefix :: "string \<Rightarrow> string \<Rightarrow> string" where
  "TrimPrefix s p = (if HasPrefix s p then drop (length p) s else s)"

definition TrimSuffix :: "string \<Rightarrow> string \<Rightarrow> string" where
  "TrimSuffix s p = (if HasSuffix s p then take (length s - length p) s else s)"

definition CutPrefix :: "string \<Rightarrow> string \<Rightarrow> string option" where
  "CutPrefix s p = (if HasPrefix s p then Some (drop (length p) s) else None)"

definition CutSuffix :: "string \<Rightarrow> string \<Rightarrow> string option" where
  "CutSuffix s p = (if HasSuffix s p then Some (take (length s - length p) s) else None)"

text \<open>\<open>strings.Cut\<close> at the first, and \<open>strings.LastIndex\<close> at the last, occurrence of a one-byte
  separator.\<close>

fun CutByte :: "char \<Rightarrow> string \<Rightarrow> (string \<times> string) option" where
  "CutByte c [] = None"
| "CutByte c (x # xs) =
     (if x = c then Some ([], xs) else map_option (\<lambda>(a, b). (x # a, b)) (CutByte c xs))"

definition CutLastByte :: "char \<Rightarrow> string \<Rightarrow> (string \<times> string) option" where
  "CutLastByte c s = map_option (\<lambda>(a, b). (rev b, rev a)) (CutByte c (rev s))"

fun SplitByte :: "char \<Rightarrow> string \<Rightarrow> string list" where
  "SplitByte c [] = [[]]"
| "SplitByte c (x # xs) =
     (if x = c then [] # SplitByte c xs
      else case SplitByte c xs of [] \<Rightarrow> [[x]] | (y # ys) \<Rightarrow> (x # y) # ys)"

fun JoinBytes :: "string \<Rightarrow> string list \<Rightarrow> string" where
  "JoinBytes sep [] = []"
| "JoinBytes sep [x] = x"
| "JoinBytes sep (x # y # ys) = x @ sep @ JoinBytes sep (y # ys)"

definition Contains :: "string \<Rightarrow> string \<Rightarrow> bool" where
  "Contains s sub = list_ex (\<lambda>t. HasPrefix t sub) (suffixes s)"

definition ContainsAny :: "string \<Rightarrow> string \<Rightarrow> bool" where
  "ContainsAny s chars = list_ex (\<lambda>c. c \<in> set chars) s"

definition is_space :: "char \<Rightarrow> bool" where
  "is_space c = (let n = (of_char c :: nat) in n = 32 \<or> (9 \<le> n \<and> n \<le> 13))"

definition TrimSpace :: "string \<Rightarrow> string" where
  "TrimSpace s = rev (dropWhile is_space (rev (dropWhile is_space s)))"

definition byte_lower :: "char \<Rightarrow> char" where
  "byte_lower c = (let n = (of_char c :: nat) in if 65 \<le> n \<and> n \<le> 90 then char_of (n + 32) else c)"

definition byte_upper :: "char \<Rightarrow> char" where
  "byte_upper c = (let n = (of_char c :: nat) in if 97 \<le> n \<and> n \<le> 122 then char_of (n - 32) else c)"

definition ToLower :: "string \<Rightarrow> string" where
  "ToLower s = map byte_lower s"

definition ToUpper :: "string \<Rightarrow> string" where
  "ToUpper s = map byte_upper s"

text \<open>\<open>strings.Fields\<close>: the maximal runs of non-space bytes.\<close>

function Fields :: "string \<Rightarrow> string list" where
  "Fields s = (let t = dropWhile is_space s in
     if t = [] then []
     else takeWhile (\<lambda>c. \<not> is_space c) t # Fields (dropWhile (\<lambda>c. \<not> is_space c) t))"
  by pat_completeness auto
termination
proof (relation "measure length", goal_cases)
  case (2 s t)
  then have "t \<noteq> []" "\<not> is_space (hd t)"
    using hd_dropWhile[of is_space s] by auto
  then have "length (dropWhile (\<lambda>c. \<not> is_space c) t) < length t"
    by (cases t) (auto simp: le_imp_less_Suc length_dropWhile_le)
  also have "length t \<le> length s"
    using 2(1) by (simp add: length_dropWhile_le)
  finally show ?case by simp
qed simp

declare Fields.simps [simp del]

subsection \<open>The strconv package\<close>

definition digit_char :: "nat \<Rightarrow> char" where
  "digit_char d = char_of (48 + d)"

definition is_digit :: "char \<Rightarrow> bool" where
  "is_digit c = (let n = (of_char c :: nat) in 48 \<le> n \<and> n \<le> 57)"

definition digit_val :: "char \<Rightarrow> nat" where
  "digit_val c = (of_char c :: nat) - 48"

text \<open>\<open>fmt.Sprintf("%d", n)\<close> for a non-negative \<open>n\<close>.\<close>

fun itoa :: "nat \<Rightarrow> string" where
  "itoa n = (if n < 10 then [digit_char n] else itoa (n div 10) @ [digit_char (n mod 10)])"

declare itoa.simps [simp del]

definition dec_value :: "string \<Rightarrow> nat" where
  "dec_value s = foldl (\<lambda>acc c. acc * 10 + digit_val c) 0 s"

text \<open>\<open>strconv.ParseUint(s, 10, 32)\<close>: no sign, no underscores, a range error above the width.\<close>

definition ParseUint32 :: "string \<Rightarrow> uint32 option" where
  "ParseUint32 s =
     (if s = [] \<or> \<not> list_all is_digit s then None
      else let v = dec_value s in if v < 2 ^ 32 then Some (word_of_nat v) else None)"

text \<open>\<open>strconv.Atoi\<close> on a 64-bit platform.\<close>

definition Atoi :: "string \<Rightarrow> int option" where
  "Atoi s = (let neg = HasPrefix s ''-'';
                 d = (if neg \<or> HasPrefix s ''+'' then tl s else s)
     in if d = [] \<or> \<not> list_all is_digit d then None
        else let v = int (dec_value d) in
          if neg then (if v \<le> 2 ^ 63 then Some (- v) else None)
          else (if v < 2 ^ 63 then Some v else None))"

definition fmt_int :: "int \<Rightarrow> string" where
  "fmt_int i = (if i < 0 then CHR ''-'' # itoa (nat (- i)) else itoa (nat i))"

subsection \<open>The line scanner\<close>

text \<open>\<open>bufio.Scanner\<close> with \<open>ScanLines\<close>: lines end at a newline, one trailing carriage return is
  dropped, an empty rest is no line, and a line of 65536 bytes or more (the buffer limit of the
  scanner) stops the scan with an error.\<close>

definition raw_lines :: "string \<Rightarrow> string list" where
  "raw_lines s = (let ps = SplitByte (CHR 10) s in if last ps = [] then butlast ps else ps)"

definition drop_cr :: "string \<Rightarrow> string" where
  "drop_cr l = (if l \<noteq> [] \<and> last l = CHR 13 then butlast l else l)"

definition line_fits :: "string \<Rightarrow> bool" where
  "line_fits l = (length l < 65536)"

definition scan_lines :: "string \<Rightarrow> string list" where
  "scan_lines s = map drop_cr (takeWhile line_fits (raw_lines s))"

definition scan_err :: "string \<Rightarrow> bool" where
  "scan_err s = (\<not> list_all line_fits (raw_lines s))"

subsection \<open>Facts on cutting and splitting\<close>

lemma HasPrefix_iff_prefix: "HasPrefix s p \<longleftrightarrow> prefix p s"
  by (metis HasPrefix_def append_eq_conv_conj append_take_drop_id prefix_def)

lemma HasPrefix_append [simp, go_string]: "HasPrefix (p @ s) p"
  by (simp add: HasPrefix_def)

lemma HasSuffix_append [simp, go_string]: "HasSuffix (s @ p) p"
  by (simp add: HasSuffix_def)

lemma HasSuffix_iff_suffix: "HasSuffix s p \<longleftrightarrow> suffix p s"
  unfolding HasSuffix_def suffix_def
  by (metis append_take_drop_id diff_diff_cancel length_append length_drop
      add_diff_cancel_right' append_eq_conv_conj le_add2)

lemma TrimPrefix_append [simp, go_string]: "TrimPrefix (p @ s) p = s"
  by (simp add: TrimPrefix_def)

lemma TrimSuffix_append [simp, go_string]: "TrimSuffix (s @ p) p = s"
  by (simp add: TrimSuffix_def)

lemma CutByte_None_iff [simp, go_string]: "CutByte c s = None \<longleftrightarrow> c \<notin> set s"
  by (induction s) auto

lemma CutByte_Some_iff:
  "CutByte c s = Some (a, b) \<longleftrightarrow> s = a @ c # b \<and> c \<notin> set a"
proof (induction s arbitrary: a)
  case (Cons x xs)
  then show ?case by (cases a) auto
qed simp

lemma CutByte_append [simp, go_string]:
  "c \<notin> set a \<Longrightarrow> CutByte c (a @ c # b) = Some (a, b)"
  by (simp add: CutByte_Some_iff)

lemma CutLastByte_None_iff [simp, go_string]: "CutLastByte c s = None \<longleftrightarrow> c \<notin> set s"
  by (simp add: CutLastByte_def)

lemma CutLastByte_Some_iff:
  "CutLastByte c s = Some (a, b) \<longleftrightarrow> s = a @ c # b \<and> c \<notin> set b"
proof -
  have "CutLastByte c s = Some (a, b) \<longleftrightarrow> CutByte c (rev s) = Some (rev b, rev a)"
    by (auto simp: CutLastByte_def)
  also have "\<dots> \<longleftrightarrow> rev s = rev b @ c # rev a \<and> c \<notin> set b"
    by (simp add: CutByte_Some_iff)
  also have "\<dots> \<longleftrightarrow> s = a @ c # b \<and> c \<notin> set b"
    by (metis append.assoc append_Cons append_Nil rev_append rev_rev_ident rev.simps(2))
  finally show ?thesis .
qed

lemma CutLastByte_append [simp, go_string]:
  "c \<notin> set b \<Longrightarrow> CutLastByte c (a @ c # b) = Some (a, b)"
  by (simp add: CutLastByte_Some_iff)

lemma SplitByte_not_Nil [simp, go_string]: "SplitByte c s \<noteq> []"
  by (cases s) (auto split: list.splits)

lemma SplitByte_fresh [simp, go_string]: "c \<notin> set s \<Longrightarrow> SplitByte c s = [s]"
  by (induction s) auto

lemma SplitByte_append [simp, go_string]:
  "c \<notin> set a \<Longrightarrow> SplitByte c (a @ c # s) = a # SplitByte c s"
  by (induction a) auto

lemma SplitByte_pieces: "x \<in> set (SplitByte c s) \<Longrightarrow> c \<notin> set x"
  by (induction s arbitrary: x) (auto split: list.splits if_splits)

lemma SplitByte_subset: "x \<in> set (SplitByte c s) \<Longrightarrow> set x \<subseteq> set s"
proof (induction s arbitrary: x)
  case (Cons y ys)
  obtain z zs where z: "SplitByte c ys = z # zs" by (cases "SplitByte c ys") auto
  then have "set z \<subseteq> set ys" "\<And>x. x \<in> set zs \<Longrightarrow> set x \<subseteq> set ys" using Cons.IH by auto
  then show ?case using Cons.prems z by (auto split: if_splits)
qed simp

lemma JoinBytes_SplitByte: "JoinBytes [c] (SplitByte c s) = s"
proof (induction s)
  case (Cons x xs)
  then show ?case
    by (cases "SplitByte c xs"; cases "tl (SplitByte c xs)") (auto split: list.splits)
qed simp

lemma SplitByte_JoinBytes:
  "xs \<noteq> [] \<Longrightarrow> \<forall>x \<in> set xs. c \<notin> set x \<Longrightarrow> SplitByte c (JoinBytes [c] xs) = xs"
  by (induction "[c]" xs rule: JoinBytes.induct) auto

subsection \<open>Facts on trimming\<close>

lemma TrimSpace_id [simp]:
  "s \<noteq> [] \<Longrightarrow> \<not> is_space (hd s) \<Longrightarrow> \<not> is_space (last s) \<Longrightarrow> TrimSpace s = s"
proof -
  assume "s \<noteq> []" "\<not> is_space (hd s)" "\<not> is_space (last s)"
  moreover from this have "\<not> is_space (hd (rev s))" "rev s \<noteq> []"
    by (simp_all add: hd_rev)
  ultimately have "dropWhile is_space s = s" "dropWhile is_space (rev s) = rev s"
    by (metis dropWhile_eq_self_iff)+
  then show ?thesis by (simp add: TrimSpace_def)
qed

lemma dropWhile_snoc_False: "\<not> P x \<Longrightarrow> dropWhile P (xs @ [x]) = dropWhile P xs @ [x]"
  by (induction xs) auto

lemma TrimSpace_append_space [simp]:
  "is_space c \<Longrightarrow> TrimSpace (s @ [c]) = TrimSpace s"
proof -
  assume c: "is_space c"
  show ?thesis
  proof (cases "\<forall>x \<in> set s. is_space x")
    case True
    then have "dropWhile is_space (s @ [c]) = []" "dropWhile is_space s = []"
      using c by auto
    then show ?thesis by (simp only: TrimSpace_def)
  next
    case False
    then have "dropWhile is_space (s @ [c]) = dropWhile is_space s @ [c]"
      by (metis dropWhile_append1)
    then show ?thesis using c by (simp add: TrimSpace_def)
  qed
qed

subsection \<open>Facts on fields and lines\<close>

lemma dropWhile_all_append: "\<forall>x \<in> set a. P x \<Longrightarrow> dropWhile P (a @ b) = dropWhile P b"
  by (induction a) auto

lemma takeWhile_all_append: "\<forall>x \<in> set a. P x \<Longrightarrow> takeWhile P (a @ b) = a @ takeWhile P b"
  by (induction a) auto

lemma Fields_skip [simp]: "is_space c \<Longrightarrow> Fields (c # s) = Fields s"
  by (subst (1 2) Fields.simps) simp

lemma Fields_word [simp, go_string]:
  assumes "a \<noteq> []" "\<forall>x \<in> set a. \<not> is_space x" "is_space c"
  shows "Fields (a @ c # s) = a # Fields s"
proof -
  have "dropWhile is_space (a @ c # s) = a @ c # s"
    using assms by (cases a) auto
  then show ?thesis
    using assms by (subst Fields.simps) (simp add: takeWhile_all_append dropWhile_all_append)
qed

lemma Fields_last_word [simp, go_string]:
  assumes "a \<noteq> []" "\<forall>x \<in> set a. \<not> is_space x"
  shows "Fields a = [a]"
proof -
  have d: "dropWhile is_space a = a" using assms by (cases a) auto
  have e: "takeWhile (\<lambda>x. \<not> is_space x) a = a" "dropWhile (\<lambda>x. \<not> is_space x) a = []"
    using assms(2) by auto
  show ?thesis
    by (subst Fields.simps) (simp add: d e assms(1) Fields.simps[of "[]"])
qed

lemma raw_lines_append [simp, go_string]:
  "CHR 10 \<notin> set l \<Longrightarrow> raw_lines (l @ CHR 10 # s) = l # raw_lines s"
  by (simp add: raw_lines_def Let_def)

lemma raw_lines_Nil [simp, go_string]: "raw_lines [] = []"
  by (simp add: raw_lines_def)

lemma raw_lines_concat:
  "\<forall>l \<in> set ls. CHR 10 \<notin> set l \<Longrightarrow> raw_lines (concat (map (\<lambda>l. l @ [CHR 10]) ls)) = ls"
  by (induction ls) auto

lemma drop_cr_id [simp]: "CHR 13 \<notin> set l \<Longrightarrow> drop_cr l = l"
  by (metis drop_cr_def last_in_set)

lemma scan_lines_concat:
  assumes "\<forall>l \<in> set ls. CHR 10 \<notin> set l \<and> drop_cr l = l \<and> line_fits l"
  shows "scan_lines (concat (map (\<lambda>l. l @ [CHR 10]) ls)) = ls"
    and "\<not> scan_err (concat (map (\<lambda>l. l @ [CHR 10]) ls))"
proof -
  have t: "takeWhile line_fits ls = ls" and m: "map drop_cr ls = ls"
    using assms by (auto intro: map_idI)
  have r: "raw_lines (concat (map (\<lambda>l. l @ [CHR 10]) ls)) = ls"
    using assms by (simp add: raw_lines_concat)
  show "scan_lines (concat (map (\<lambda>l. l @ [CHR 10]) ls)) = ls"
    by (simp only: scan_lines_def r t m)
  show "\<not> scan_err (concat (map (\<lambda>l. l @ [CHR 10]) ls))"
    using assms by (simp add: scan_err_def raw_lines_concat list_all_iff)
qed

subsection \<open>Facts on decimal numbers\<close>

lemma of_char_digit_char [simp, go_num]: "d < 10 \<Longrightarrow> (of_char (digit_char d) :: nat) = 48 + d"
  by (simp add: digit_char_def)

lemma is_digit_digit_char [simp, go_num]: "d < 10 \<Longrightarrow> is_digit (digit_char d)"
  by (simp add: is_digit_def)

lemma digit_val_digit_char [simp, go_num]: "d < 10 \<Longrightarrow> digit_val (digit_char d) = d"
  by (simp add: digit_val_def)

lemma is_digit_not_space: "is_digit c \<Longrightarrow> \<not> is_space c"
  by (auto simp: is_digit_def is_space_def Let_def)

lemma itoa_not_Nil [simp, go_num]: "itoa n \<noteq> []"
  by (subst itoa.simps) simp

lemma itoa_digits [simp, go_num]: "list_all is_digit (itoa n)"
proof (induction n rule: itoa.induct)
  case (1 n)
  then show ?case by (subst itoa.simps) simp
qed

lemma dec_value_append [simp, go_num]: "dec_value (s @ [c]) = dec_value s * 10 + digit_val c"
  by (simp add: dec_value_def)

lemma dec_value_itoa [simp, go_num]: "dec_value (itoa n) = n"
proof (induction n rule: itoa.induct)
  case (1 n)
  show ?case
  proof (cases "n < 10")
    case True
    then show ?thesis by (subst itoa.simps) (simp add: dec_value_def)
  next
    case False
    then show ?thesis using 1 by (subst itoa.simps) simp
  qed
qed

lemma itoa_inject [simp, go_num]: "itoa m = itoa n \<longleftrightarrow> m = n"
  by (metis dec_value_itoa)

lemma itoa_set_digit: "c \<in> set (itoa n) \<Longrightarrow> is_digit c"
  using itoa_digits[of n] by (simp add: list_all_iff)

lemma itoa_no_space: "c \<in> set (itoa n) \<Longrightarrow> \<not> is_space c"
  by (blast dest: itoa_set_digit is_digit_not_space)

lemma TrimSpace_itoa [simp, go_num]: "TrimSpace (itoa n) = itoa n"
  by (meson TrimSpace_id hd_in_set last_in_set itoa_not_Nil itoa_no_space)

lemma ParseUint32_itoa [simp, go_num]:
  "n < 2 ^ 32 \<Longrightarrow> ParseUint32 (itoa n) = Some (word_of_nat n)"
  by (simp add: ParseUint32_def)

lemma unat_uint32_less [simp]: "unat (w :: uint32) < 4294967296"
  using unsigned_less[of w, where 'a = nat] by simp

lemma ParseUint32_itoa_unat [simp, go_num]: "ParseUint32 (itoa (unat (w :: uint32))) = Some w"
  by simp

lemma Atoi_itoa [simp, go_num]: "n < 2 ^ 63 \<Longrightarrow> Atoi (itoa n) = Some (int n)"
proof -
  assume n: "n < 2 ^ 63"
  obtain c s where cs: "itoa n = c # s" by (cases "itoa n") auto
  then have "is_digit c" using itoa_set_digit[of c n] by simp
  then have "c \<noteq> CHR ''-''" "c \<noteq> CHR ''+''" by (auto simp: is_digit_def)
  moreover have "dec_value (c # s) = n" "list_all is_digit (c # s)"
    using dec_value_itoa[of n] itoa_digits[of n] by (simp_all only: cs)
  ultimately show ?thesis using n by (simp add: Atoi_def HasPrefix_def cs)
qed

lemma fmt_int_nat [simp, go_num]: "fmt_int (int n) = itoa n"
  by (simp add: fmt_int_def)

lemma length_itoa: "n < 10 ^ k \<Longrightarrow> 0 < k \<Longrightarrow> length (itoa n) \<le> k"
proof (induction k arbitrary: n)
  case (Suc k)
  show ?case
  proof (cases "n < 10")
    case False
    then have "n div 10 < 10 ^ k" "0 < k"
      using Suc.prems by (auto simp: less_mult_imp_div_less intro: Nat.gr0I)
    then show ?thesis using Suc.IH False by (subst itoa.simps) simp
  qed (subst itoa.simps, simp)
qed simp

lemma length_itoa_unat: "length (itoa (unat (w :: uint32))) \<le> 10"
  by (rule length_itoa, rule order.strict_trans[OF unat_uint32_less]) simp_all

subsection \<open>Finite maps\<close>

lemma map_eq_Some_iff: "(m :: 'k \<rightharpoonup> 'v) = m' \<longleftrightarrow> (\<forall>x y. m x = Some y \<longleftrightarrow> m' x = Some y)"
proof
  assume eq: "\<forall>x y. m x = Some y \<longleftrightarrow> m' x = Some y"
  show "m = m'"
  proof
    fix x
    show "m x = m' x" using eq by (cases "m x"; cases "m' x") (simp_all, metis option.distinct(1))
  qed
qed simp

subsection \<open>Evaluation\<close>

lemma digit_char_eval [go_eval]:
  "digit_char 0 = CHR ''0''" "digit_char (Suc 0) = CHR ''1''" "digit_char 1 = CHR ''1''"
  "digit_char 2 = CHR ''2''" "digit_char 3 = CHR ''3''" "digit_char 4 = CHR ''4''"
  "digit_char 5 = CHR ''5''" "digit_char 6 = CHR ''6''" "digit_char 7 = CHR ''7''"
  "digit_char 8 = CHR ''8''" "digit_char 9 = CHR ''9''"
  by code_simp+

lemma byte_lower_eval [go_eval]:
  "byte_lower (CHR ''A'') = CHR ''a''" "byte_lower (CHR ''B'') = CHR ''b''" "byte_lower (CHR ''C'') = CHR ''c''"
  "byte_lower (CHR ''D'') = CHR ''d''" "byte_lower (CHR ''E'') = CHR ''e''" "byte_lower (CHR ''F'') = CHR ''f''"
  "byte_lower (CHR ''G'') = CHR ''g''" "byte_lower (CHR ''H'') = CHR ''h''" "byte_lower (CHR ''I'') = CHR ''i''"
  "byte_lower (CHR ''J'') = CHR ''j''" "byte_lower (CHR ''K'') = CHR ''k''" "byte_lower (CHR ''L'') = CHR ''l''"
  "byte_lower (CHR ''M'') = CHR ''m''" "byte_lower (CHR ''N'') = CHR ''n''" "byte_lower (CHR ''O'') = CHR ''o''"
  "byte_lower (CHR ''P'') = CHR ''p''" "byte_lower (CHR ''Q'') = CHR ''q''" "byte_lower (CHR ''R'') = CHR ''r''"
  "byte_lower (CHR ''S'') = CHR ''s''" "byte_lower (CHR ''T'') = CHR ''t''" "byte_lower (CHR ''U'') = CHR ''u''"
  "byte_lower (CHR ''V'') = CHR ''v''" "byte_lower (CHR ''W'') = CHR ''w''" "byte_lower (CHR ''X'') = CHR ''x''"
  "byte_lower (CHR ''Y'') = CHR ''y''" "byte_lower (CHR ''Z'') = CHR ''z''"
  by code_simp+

lemma byte_upper_eval [go_eval]:
  "byte_upper (CHR ''a'') = CHR ''A''" "byte_upper (CHR ''b'') = CHR ''B''" "byte_upper (CHR ''c'') = CHR ''C''"
  "byte_upper (CHR ''d'') = CHR ''D''" "byte_upper (CHR ''e'') = CHR ''E''" "byte_upper (CHR ''f'') = CHR ''F''"
  "byte_upper (CHR ''g'') = CHR ''G''" "byte_upper (CHR ''h'') = CHR ''H''" "byte_upper (CHR ''i'') = CHR ''I''"
  "byte_upper (CHR ''j'') = CHR ''J''" "byte_upper (CHR ''k'') = CHR ''K''" "byte_upper (CHR ''l'') = CHR ''L''"
  "byte_upper (CHR ''m'') = CHR ''M''" "byte_upper (CHR ''n'') = CHR ''N''" "byte_upper (CHR ''o'') = CHR ''O''"
  "byte_upper (CHR ''p'') = CHR ''P''" "byte_upper (CHR ''q'') = CHR ''Q''" "byte_upper (CHR ''r'') = CHR ''R''"
  "byte_upper (CHR ''s'') = CHR ''S''" "byte_upper (CHR ''t'') = CHR ''T''" "byte_upper (CHR ''u'') = CHR ''U''"
  "byte_upper (CHR ''v'') = CHR ''V''" "byte_upper (CHR ''w'') = CHR ''W''" "byte_upper (CHR ''x'') = CHR ''X''"
  "byte_upper (CHR ''y'') = CHR ''Y''" "byte_upper (CHR ''z'') = CHR ''Z''"
  by code_simp+

lemma byte_lower_same [go_eval]: "\<not> (65 \<le> (of_char c :: nat) \<and> (of_char c :: nat) \<le> 90) \<Longrightarrow> byte_lower c = c"
  by (auto simp: byte_lower_def Let_def)

lemma byte_upper_same [go_eval]: "\<not> (97 \<le> (of_char c :: nat) \<and> (of_char c :: nat) \<le> 122) \<Longrightarrow> byte_upper c = c"
  by (auto simp: byte_upper_def Let_def)

lemmas [go_eval] =
  itoa.simps ParseUint32_def dec_value_def digit_val_def is_digit_def TrimSpace_def is_space_def
  HasPrefix_def HasSuffix_def TrimPrefix_def TrimSuffix_def CutPrefix_def CutSuffix_def
  CutLastByte_def Contains_def ContainsAny_def Let_def raw_lines_def drop_cr_def line_fits_def
  scan_lines_def scan_err_def Atoi_def fmt_int_def Fields.simps ToLower_def ToUpper_def

end
