(* ===== verification/GoPath.thy ===== *)
theory GoPath
  imports Prelude
begin

text \<open>
  Go's \<open>path/filepath\<close> on Unix, as far as the program uses it: \<open>Clean\<close>, \<open>Join\<close>, \<open>IsAbs\<close>,
  \<open>Base\<close> and \<open>Dir\<close>.  A path is cleaned through its list of components; the lemmas say how cleaning and
  joining act on components, which is what the containment properties of the stores need.
\<close>

definition IsAbs :: "string \<Rightarrow> bool" where
  "IsAbs p = HasPrefix p ''/''"

text \<open>One component is processed against the reversed stack of components kept so far: empty and
  \<open>.\<close> vanish, \<open>..\<close> removes the last real component, is dropped at the root and kept otherwise.\<close>

definition clean_step :: "bool \<Rightarrow> string list \<Rightarrow> string \<Rightarrow> string list" where
  "clean_step rooted stk c =
     (if c = [] \<or> c = ''.'' then stk
      else if c = ''..'' then
        (case stk of
           [] \<Rightarrow> (if rooted then [] else [c])
         | t # ts \<Rightarrow> (if t = ''..'' then c # stk else ts))
      else c # stk)"

definition clean_comps :: "bool \<Rightarrow> string list \<Rightarrow> string list" where
  "clean_comps rooted cs = rev (foldl (clean_step rooted) [] cs)"

definition render_path :: "bool \<Rightarrow> string list \<Rightarrow> string" where
  "render_path rooted cs =
     (if rooted then ''/'' @ JoinBytes ''/'' cs
      else if cs = [] then ''.'' else JoinBytes ''/'' cs)"

definition Clean :: "string \<Rightarrow> string" where
  "Clean p = render_path (IsAbs p) (clean_comps (IsAbs p) (SplitByte (CHR ''/'') p))"

definition Join :: "string list \<Rightarrow> string" where
  "Join elems = (let es = dropWhile (\<lambda>e. e = []) elems in
     if es = [] then [] else Clean (JoinBytes ''/'' es))"

text \<open>\<open>filepath.Base\<close>: the last element after trailing slashes are removed.\<close>

definition Base :: "string \<Rightarrow> string" where
  "Base p =
     (if p = [] then ''.''
      else let q = rev (dropWhile (\<lambda>c. c = CHR ''/'') (rev p));
               b = rev (takeWhile (\<lambda>c. c \<noteq> CHR ''/'') (rev q))
           in if b = [] then ''/'' else b)"

text \<open>\<open>filepath.Dir\<close>: everything up to the last slash, cleaned.\<close>

definition Dir :: "string \<Rightarrow> string" where
  "Dir p = Clean (rev (dropWhile (\<lambda>c. c \<noteq> CHR ''/'') (rev p)))"

text \<open>A component that cleaning leaves alone.\<close>

definition plain_comp :: "string \<Rightarrow> bool" where
  "plain_comp c = (c \<noteq> [] \<and> c \<noteq> ''.'' \<and> c \<noteq> ''..'' \<and> CHR ''/'' \<notin> set c)"

lemma plain_compD:
  assumes "plain_comp c"
  shows "c \<noteq> []" "c \<noteq> ''.''" "c \<noteq> ''..''" "CHR ''/'' \<notin> set c"
  using assms by (auto simp: plain_comp_def)

lemma clean_step_plain [simp]: "plain_comp c \<Longrightarrow> clean_step r stk c = c # stk"
  by (simp add: clean_step_def plain_comp_def)

lemma clean_comps_snoc_plain [simp]:
  "plain_comp c \<Longrightarrow> clean_comps r (cs @ [c]) = clean_comps r cs @ [c]"
  by (simp add: clean_comps_def)

lemma foldl_clean_step_plain:
  "list_all plain_comp ds \<Longrightarrow> foldl (clean_step r) stk ds = rev ds @ stk"
  by (induction ds arbitrary: stk) auto

lemma clean_comps_append_plain [simp]:
  "list_all plain_comp ds \<Longrightarrow> clean_comps r (cs @ ds) = clean_comps r cs @ ds"
  by (simp add: clean_comps_def foldl_clean_step_plain)

lemma SplitByte_append_sep:
  "SplitByte c (s @ c # t) = SplitByte c s @ SplitByte c t"
  by (induction s) (auto split: list.splits)

lemma IsAbs_append: "p \<noteq> [] \<Longrightarrow> IsAbs (p @ q) = IsAbs p"
  by (cases p) (auto simp: IsAbs_def HasPrefix_def)

lemma JoinBytes_snoc:
  "cs \<noteq> [] \<Longrightarrow> JoinBytes sep (cs @ [c]) = JoinBytes sep cs @ sep @ c"
  by (induction sep cs rule: JoinBytes.induct) auto

text \<open>The components of a path after cleaning; a cleaned path is the rendering of them.\<close>

definition path_comps :: "string \<Rightarrow> string list" where
  "path_comps p = clean_comps (IsAbs p) (SplitByte (CHR ''/'') p)"

lemma Clean_path_comps: "Clean p = render_path (IsAbs p) (path_comps p)"
  by (simp add: Clean_def path_comps_def)

lemma path_comps_append_plain:
  assumes "p \<noteq> []" and "list_all plain_comp (SplitByte (CHR ''/'') q)"
  shows "path_comps (p @ CHR ''/'' # q) = path_comps p @ SplitByte (CHR ''/'') q"
  using assms by (simp add: path_comps_def IsAbs_append SplitByte_append_sep)

lemma Join_plain:
  assumes "p \<noteq> []" and "list_all plain_comp (SplitByte (CHR ''/'') q)"
  shows "Join [p, q] = render_path (IsAbs p) (path_comps p @ SplitByte (CHR ''/'') q)"
  using assms by (simp add: Join_def Clean_path_comps path_comps_append_plain IsAbs_append)

lemma plain_comp_split: "plain_comp c \<Longrightarrow> list_all plain_comp (SplitByte (CHR ''/'') c)"
  by (simp add: plain_compD)

text \<open>Rendering is injective on lists of components that a path can have.\<close>

definition path_comp :: "string \<Rightarrow> bool" where
  "path_comp c = (c \<noteq> [] \<and> c \<noteq> ''.'' \<and> CHR ''/'' \<notin> set c)"

lemma foldl_clean_step_path_comp:
  "list_all path_comp stk \<Longrightarrow> list_all (\<lambda>c. CHR ''/'' \<notin> set c) cs \<Longrightarrow>
   list_all path_comp (foldl (clean_step r) stk cs)"
proof (induction cs arbitrary: stk)
  case (Cons c cs)
  have "path_comp c" if "c \<noteq> []" "c \<noteq> ''.''"
    using Cons.prems that by (simp add: path_comp_def)
  then have "list_all path_comp (clean_step r stk c)"
    using Cons.prems(1) by (auto simp: clean_step_def split: list.splits)
  with Cons show ?case by simp
qed simp

lemma path_comps_path_comp: "list_all path_comp (path_comps p)"
proof -
  have "list_all (\<lambda>c. CHR ''/'' \<notin> set c) (SplitByte (CHR ''/'') p)"
    using SplitByte_pieces by (fastforce simp: list_all_iff)
  then show ?thesis
    using foldl_clean_step_path_comp[of "[]"] by (simp add: path_comps_def clean_comps_def)
qed

lemma JoinBytes_inject:
  assumes "list_all path_comp cs" "list_all path_comp ds"
    and "JoinBytes ''/'' cs = JoinBytes ''/'' ds"
  shows "cs = ds"
proof (cases "cs = [] \<or> ds = []")
  case True
  have empty: "xs = []" if "list_all path_comp xs" "JoinBytes ''/'' xs = []" for xs
    using that by (cases "(''/'', xs)" rule: JoinBytes.cases) (auto simp: path_comp_def)
  show ?thesis
  proof (cases "cs = []")
    case True
    then show ?thesis using empty[OF assms(2)] assms(3) by simp
  next
    case False
    then have "ds = []" using \<open>cs = [] \<or> ds = []\<close> by simp
    then show ?thesis using empty[OF assms(1)] assms(3) by simp
  qed
next
  case False
  then have "SplitByte (CHR ''/'') (JoinBytes ''/'' cs) = cs"
       "SplitByte (CHR ''/'') (JoinBytes ''/'' ds) = ds"
    using assms(1,2) by (auto intro!: SplitByte_JoinBytes simp: list_all_iff path_comp_def)
  then show ?thesis using assms(3) by metis
qed

end
