(* ===== verification/Identity.thy ===== *)
theory Identity
  imports GoPath
begin

text \<open>
  OS identities: \<open>internal/idrange\<close>, the allocator and the two maps of \<open>auth/identity\<close>, and the
  credential lookup of \<open>internal/session-manager/credentials\<close> that turns a map entry into the
  uid/gid a mail-session process runs under.

  The two directory trees are one record: the bytes of the shared counter file (empty when the
  file is absent), the gid map and the per-domain uid maps.  A map file is modelled by the map it
  holds: its TOML text is produced and read by a library outside the repository, and the write is
  a temporary file plus a rename, so a map is replaced as a whole or not at all.  Every system call
  that can fail is an entry of a fault record, so that each early return of the code is a branch.
  The theory proves that ids handed out by the allocator are never shared by two principals, and
  what breaks when the counter file is lost or wraps.
\<close>

section \<open>The id ranges\<close>

definition AllocatorFloor :: uint32 where
  "AllocatorFloor = 10000"

definition ExcludedBandLow :: uint32 where
  "ExcludedBandLow = 65532"

definition ExcludedBandHigh :: uint32 where
  "ExcludedBandHigh = 65535"

definition Allocatable :: "uint32 \<Rightarrow> bool" where
  "Allocatable i = (i \<ge> AllocatorFloor \<and> (i < ExcludedBandLow \<or> i > ExcludedBandHigh))"

definition Reserved :: "uint32 \<Rightarrow> bool" where
  "Reserved i = (i \<noteq> 0 \<and> \<not> Allocatable i)"

datatype handler_error = HandlerUID uint32 | HandlerGID uint32 | HandlerGroup uint32

definition CheckHandlerIDs :: "uint32 \<Rightarrow> uint32 \<Rightarrow> uint32 list \<Rightarrow> handler_error option" where
  "CheckHandlerIDs uid gid groups =
     (if uid \<noteq> 0 \<and> \<not> Reserved uid then Some (HandlerUID uid)
      else if gid \<noteq> 0 \<and> \<not> Reserved gid then Some (HandlerGID gid)
      else map_option HandlerGroup (find (\<lambda>g. \<not> Reserved g) groups))"

section \<open>The allocator and the maps\<close>

datatype counter_fault =
  CounterOK | CounterOpenErr | CounterReadErr | CounterTruncateErr | CounterSeekErr | CounterWriteErr

datatype id_error =
  LockErr | LoadErr | StoreErr | CounterErr counter_fault | CounterParseErr string
| ErrNoGID | ErrNoUID | ErrGIDExists | ErrUIDExists | ErrNotAllocatable

record id_faults =
  lock_err :: bool
  load_err :: bool
  counter_err :: counter_fault
  store_err :: bool

record id_trees =
  counter_file :: string
  gid_map :: "string \<rightharpoonup> uint32"
  uid_maps :: "string \<Rightarrow> string \<rightharpoonup> uint32"

text \<open>\<open>allocateID\<close>: the first 32 bytes of the counter are read (a read error leaves the buffer
  empty), the excluded band is skipped, the file is truncated and the successor written.\<close>

definition allocateID :: "counter_fault \<Rightarrow> string \<Rightarrow> string \<times> (id_error + uint32)" where
  "allocateID flt c =
     (if flt = CounterOpenErr then (c, Inl (CounterErr flt))
      else let raw = TrimSpace (if flt = CounterReadErr then [] else take 32 c) in
        case (if raw = [] then Inr AllocatorFloor
              else case ParseUint32 raw of None \<Rightarrow> Inl (CounterParseErr raw) | Some v \<Rightarrow> Inr v) of
          Inl e \<Rightarrow> (c, Inl e)
        | Inr v \<Rightarrow>
            let nxt = (if v \<ge> ExcludedBandLow \<and> v \<le> ExcludedBandHigh
                       then ExcludedBandHigh + 1 else v) in
            if flt = CounterTruncateErr then (c, Inl (CounterErr flt))
            else if flt = CounterSeekErr then ([], Inl (CounterErr flt))
            else if flt = CounterWriteErr then ([], Inl (CounterErr flt))
            else (itoa (unat (nxt + 1)) @ [CHR 10], Inr nxt))"

definition loadMap :: "bool \<Rightarrow> (string \<rightharpoonup> uint32) \<Rightarrow> id_error + (string \<rightharpoonup> uint32)" where
  "loadMap failed file = (if failed then Inl LoadErr else Inr file)"

definition storeMap ::
  "bool \<Rightarrow> (string \<rightharpoonup> uint32) \<Rightarrow> (string \<rightharpoonup> uint32) \<Rightarrow> (string \<rightharpoonup> uint32) \<times> id_error option" where
  "storeMap failed old new = (if failed then (old, Some StoreErr) else (new, None))"

definition DomainGID :: "bool \<Rightarrow> id_trees \<Rightarrow> string \<Rightarrow> id_error + uint32" where
  "DomainGID failed s d =
     (case loadMap failed (gid_map s) of
        Inl e \<Rightarrow> Inl e
      | Inr m \<Rightarrow> (case m d of None \<Rightarrow> Inl ErrNoGID | Some g \<Rightarrow> Inr g))"

definition UserUID :: "bool \<Rightarrow> id_trees \<Rightarrow> string \<Rightarrow> string \<Rightarrow> id_error + uint32" where
  "UserUID failed s d l =
     (case loadMap failed (uid_maps s d) of
        Inl e \<Rightarrow> Inl e
      | Inr m \<Rightarrow> (case m l of None \<Rightarrow> Inl ErrNoUID | Some u \<Rightarrow> Inr u))"

text \<open>The Go functions return a value together with an error; the value is meaningful with
  \<open>ErrGIDExists\<close> and \<open>ErrUIDExists\<close> too.\<close>

definition AllocateDomainGID ::
  "id_faults \<Rightarrow> string \<Rightarrow> id_trees \<Rightarrow> id_trees \<times> uint32 \<times> id_error option" where
  "AllocateDomainGID f d s =
     (if lock_err f then (s, 0, Some LockErr)
      else case loadMap (load_err f) (gid_map s) of
        Inl e \<Rightarrow> (s, 0, Some e)
      | Inr cur \<Rightarrow> (case cur d of
          Some g \<Rightarrow> (s, g, Some ErrGIDExists)
        | None \<Rightarrow> (case allocateID (counter_err f) (counter_file s) of
            (c, Inl e) \<Rightarrow> (s\<lparr>counter_file := c\<rparr>, 0, Some e)
          | (c, Inr g) \<Rightarrow> (case storeMap (store_err f) cur (cur(d \<mapsto> g)) of
              (m, Some e) \<Rightarrow> (s\<lparr>counter_file := c, gid_map := m\<rparr>, 0, Some e)
            | (m, None) \<Rightarrow> (s\<lparr>counter_file := c, gid_map := m\<rparr>, g, None)))))"

definition SetDomainGID ::
  "id_faults \<Rightarrow> string \<Rightarrow> uint32 \<Rightarrow> id_trees \<Rightarrow> id_trees \<times> id_error option" where
  "SetDomainGID f d g s =
     (if \<not> Allocatable g then (s, Some ErrNotAllocatable)
      else if lock_err f then (s, Some LockErr)
      else case loadMap (load_err f) (gid_map s) of
        Inl e \<Rightarrow> (s, Some e)
      | Inr cur \<Rightarrow> (case cur d of
          Some existing \<Rightarrow> (s, if existing = g then None else Some ErrGIDExists)
        | None \<Rightarrow> (case storeMap (store_err f) cur (cur(d \<mapsto> g)) of
            (m, err) \<Rightarrow> (s\<lparr>gid_map := m\<rparr>, err))))"

definition RemoveDomainGID :: "id_faults \<Rightarrow> string \<Rightarrow> id_trees \<Rightarrow> id_trees \<times> id_error option" where
  "RemoveDomainGID f d s =
     (if lock_err f then (s, Some LockErr)
      else case loadMap (load_err f) (gid_map s) of
        Inl e \<Rightarrow> (s, Some e)
      | Inr cur \<Rightarrow> (case cur d of
          None \<Rightarrow> (s, None)
        | Some _ \<Rightarrow> (case storeMap (store_err f) cur (cur(d := None)) of
            (m, err) \<Rightarrow> (s\<lparr>gid_map := m\<rparr>, err))))"

definition AllocateUserUID ::
  "id_faults \<Rightarrow> string \<Rightarrow> string \<Rightarrow> id_trees \<Rightarrow> id_trees \<times> uint32 \<times> id_error option" where
  "AllocateUserUID f d l s =
     (if lock_err f then (s, 0, Some LockErr)
      else case loadMap (load_err f) (uid_maps s d) of
        Inl e \<Rightarrow> (s, 0, Some e)
      | Inr cur \<Rightarrow> (case cur l of
          Some u \<Rightarrow> (s, u, Some ErrUIDExists)
        | None \<Rightarrow> (case allocateID (counter_err f) (counter_file s) of
            (c, Inl e) \<Rightarrow> (s\<lparr>counter_file := c\<rparr>, 0, Some e)
          | (c, Inr u) \<Rightarrow> (case storeMap (store_err f) cur (cur(l \<mapsto> u)) of
              (m, Some e) \<Rightarrow> (s\<lparr>counter_file := c, uid_maps := (uid_maps s)(d := m)\<rparr>, 0, Some e)
            | (m, None) \<Rightarrow> (s\<lparr>counter_file := c, uid_maps := (uid_maps s)(d := m)\<rparr>, u, None)))))"

definition SetUserUID ::
  "id_faults \<Rightarrow> string \<Rightarrow> string \<Rightarrow> uint32 \<Rightarrow> id_trees \<Rightarrow> id_trees \<times> id_error option" where
  "SetUserUID f d l u s =
     (if \<not> Allocatable u then (s, Some ErrNotAllocatable)
      else if lock_err f then (s, Some LockErr)
      else case loadMap (load_err f) (uid_maps s d) of
        Inl e \<Rightarrow> (s, Some e)
      | Inr cur \<Rightarrow> (case cur l of
          Some existing \<Rightarrow> (s, if existing = u then None else Some ErrUIDExists)
        | None \<Rightarrow> (case storeMap (store_err f) cur (cur(l \<mapsto> u)) of
            (m, err) \<Rightarrow> (s\<lparr>uid_maps := (uid_maps s)(d := m)\<rparr>, err))))"

definition RemoveUser :: "id_faults \<Rightarrow> string \<Rightarrow> string \<Rightarrow> id_trees \<Rightarrow> id_trees \<times> id_error option" where
  "RemoveUser f d l s =
     (if lock_err f then (s, Some LockErr)
      else case loadMap (load_err f) (uid_maps s d) of
        Inl e \<Rightarrow> (s, Some e)
      | Inr cur \<Rightarrow> (case cur l of
          None \<Rightarrow> (s, None)
        | Some _ \<Rightarrow> (case storeMap (store_err f) cur (cur(l := None)) of
            (m, err) \<Rightarrow> (s\<lparr>uid_maps := (uid_maps s)(d := m)\<rparr>, err))))"

section \<open>Spawn credentials\<close>

record cred_info =
  cred_uid :: uint32
  cred_gid :: uint32
  cred_base :: string
  cred_type :: string

datatype cred_error =
  CredGID id_error | CredUID id_error | RefusingUID uint32 | RefusingGID uint32

text \<open>\<open>credentials.Lookup\<close>.  The merged domain configuration is the pair of its store type and
  base path, \<^term>\<open>None\<close> when it does not load.\<close>

definition Lookup ::
  "bool \<Rightarrow> bool \<Rightarrow> id_trees \<Rightarrow> (string \<times> string) option \<Rightarrow> string \<Rightarrow> string \<Rightarrow> string \<Rightarrow> string \<Rightarrow>
   cred_error + cred_info" where
  "Lookup gid_fail uid_fail s cfg domainsPath domainsDataPath localpart domainName =
     (let domainDir = Join [domainsPath, domainName];
          (styp, sbase) = (case cfg of None \<Rightarrow> ([], []) | Some c \<Rightarrow> c) in
      case DomainGID gid_fail s domainName of
        Inl e \<Rightarrow> Inl (CredGID e)
      | Inr gid \<Rightarrow> (case UserUID uid_fail s domainName localpart of
          Inl e \<Rightarrow> Inl (CredUID e)
        | Inr uid \<Rightarrow>
            if \<not> Allocatable uid then Inl (RefusingUID uid)
            else if \<not> Allocatable gid then Inl (RefusingGID gid)
            else let storageBase = (if domainsDataPath \<noteq> [] then Join [domainsDataPath, domainName]
                                    else domainDir);
                     base0 = (if sbase = [] then ''users'' else sbase);
                     base1 = (if \<not> IsAbs base0 then Join [storageBase, base0] else base0)
              in Inr \<lparr>cred_uid = uid, cred_gid = gid, cred_base = base1,
                      cred_type = (if styp = [] then ''maildir'' else styp)\<rparr>))"

section \<open>Runs of the identity manager\<close>

datatype id_op =
  OpAllocGID id_faults string
| OpSetGID id_faults string uint32
| OpRemoveGID id_faults string
| OpAllocUID id_faults string string
| OpSetUID id_faults string string uint32
| OpRemoveUser id_faults string string

fun id_exec :: "id_op \<Rightarrow> id_trees \<Rightarrow> id_trees" where
  "id_exec (OpAllocGID f d) s = fst (AllocateDomainGID f d s)"
| "id_exec (OpSetGID f d g) s = fst (SetDomainGID f d g s)"
| "id_exec (OpRemoveGID f d) s = fst (RemoveDomainGID f d s)"
| "id_exec (OpAllocUID f d l) s = fst (AllocateUserUID f d l s)"
| "id_exec (OpSetUID f d l u) s = fst (SetUserUID f d l u s)"
| "id_exec (OpRemoveUser f d l) s = fst (RemoveUser f d l s)"

definition id_run :: "id_op list \<Rightarrow> id_trees \<Rightarrow> id_trees" where
  "id_run ops s = fold id_exec ops s"

definition fresh_trees :: id_trees where
  "fresh_trees = \<lparr>counter_file = [], gid_map = Map.empty, uid_maps = (\<lambda>_. Map.empty)\<rparr>"

definition no_faults :: id_faults where
  "no_faults = \<lparr>lock_err = False, load_err = False, counter_err = CounterOK, store_err = False\<rparr>"

text \<open>The principals that hold an id: a domain (its gid) and a user of a domain (the uid).\<close>

datatype principal = Dom string | Usr string string

fun holder_id :: "id_trees \<Rightarrow> principal \<rightharpoonup> uint32" where
  "holder_id s (Dom d) = gid_map s d"
| "holder_id s (Usr d l) = uid_maps s d l"

text \<open>Operations that only the allocator feeds: no adoption of a foreign id, and no fault of the
  counter file between its truncation and the write of the new value, nor while it is read.\<close>

definition counter_safe :: "counter_fault \<Rightarrow> bool" where
  "counter_safe flt = (flt \<in> {CounterOK, CounterOpenErr, CounterTruncateErr})"

fun allocator_op :: "id_op \<Rightarrow> bool" where
  "allocator_op (OpAllocGID f d) = counter_safe (counter_err f)"
| "allocator_op (OpAllocUID f d l) = counter_safe (counter_err f)"
| "allocator_op (OpRemoveGID f d) = True"
| "allocator_op (OpRemoveUser f d l) = True"
| "allocator_op _ = False"

fun removes :: "id_op \<Rightarrow> principal \<Rightarrow> bool" where
  "removes (OpRemoveGID f d) p = (p = Dom d)"
| "removes (OpRemoveUser f d l) p = (p = Usr d l)"
| "removes _ p = False"

section \<open>The counter file\<close>

text \<open>The number a counter file stands for.\<close>

definition counter_next :: "string \<Rightarrow> nat option" where
  "counter_next c = (let raw = TrimSpace (take 32 c) in
     if raw = [] then Some 10000 else map_option unat (ParseUint32 raw))"

definition skip_band :: "nat \<Rightarrow> nat" where
  "skip_band n = (if 65532 \<le> n \<and> n \<le> 65535 then 65536 else n)"

lemma is_space_newline [simp]: "is_space (CHR 10)"
  by (simp add: is_space_def)

lemma counter_next_written [simp]:
  "counter_next (itoa (unat (w :: uint32)) @ [CHR 10]) = Some (unat w)"
  using length_itoa_unat[of w] by (simp add: counter_next_def take_all)

lemma counter_next_empty [simp]: "counter_next [] = Some 10000"
  by (simp add: counter_next_def TrimSpace_def)

lemma skip_band_word:
  "skip_band (unat (v :: uint32)) =
     unat (if v \<ge> ExcludedBandLow \<and> v \<le> ExcludedBandHigh then ExcludedBandHigh + 1 else v)"
  by (auto simp: skip_band_def ExcludedBandLow_def ExcludedBandHigh_def word_le_nat_alt)

lemma allocateID_next:
  assumes "counter_next c = Some n"
  shows "allocateID CounterOK c =
           (itoa (unat (word_of_nat (skip_band n) + 1 :: uint32)) @ [CHR 10],
            Inr (word_of_nat (skip_band n)))"
proof (cases "TrimSpace (take 32 c) = []")
  case True
  then have "n = 10000" using assms by (simp add: counter_next_def)
  then show ?thesis using True
    by (simp add: allocateID_def skip_band_def AllocatorFloor_def ExcludedBandLow_def)
next
  case False
  then obtain v where v: "ParseUint32 (TrimSpace (take 32 c)) = Some v" "n = unat v"
    using assms by (auto simp: counter_next_def Let_def)
  have "word_of_nat (skip_band n) =
      (if v \<ge> ExcludedBandLow \<and> v \<le> ExcludedBandHigh then ExcludedBandHigh + 1 else v)"
    unfolding v(2) skip_band_word by simp
  then show ?thesis using False v(1) by (simp add: allocateID_def)
qed

lemma allocateID_safe_fault:
  assumes "counter_safe flt" "flt \<noteq> CounterOK"
  shows "\<exists>e. allocateID flt c = (c, Inl e)"
  using assms by (auto simp: counter_safe_def allocateID_def Let_def split: sum.splits option.splits)

lemma counter_next_alloc:
  assumes "counter_next c = Some n" "skip_band n + 1 < 2 ^ 32"
  shows "counter_next (fst (allocateID CounterOK c)) = Some (skip_band n + 1)"
proof -
  have "unat (word_of_nat (skip_band n + 1) :: uint32) = skip_band n + 1"
    using assms(2) by (simp add: unsigned_of_nat take_bit_nat_eq_self del: of_nat_Suc of_nat_add)
  then have "unat (word_of_nat (skip_band n) + 1 :: uint32) = skip_band n + 1"
    by (simp add: ac_simps)
  with assms(1) show ?thesis
    using counter_next_written[of "word_of_nat (skip_band n) + 1"] by (simp add: allocateID_next)
qed

section \<open>Runs of allocator operations\<close>

text \<open>What an allocator operation does to the counter and to the principals: at most one new
  holder, whose id is the next number of the counter.\<close>

definition kept :: "id_trees \<Rightarrow> id_trees \<Rightarrow> bool" where
  "kept s t = (counter_file t = counter_file s \<and> (\<forall>p. holder_id t p \<in> {holder_id s p, None}))"

definition granted :: "nat \<Rightarrow> id_trees \<Rightarrow> id_trees \<Rightarrow> bool" where
  "granted n s t = (counter_next (counter_file t) = Some (skip_band n + 1) \<and>
     (\<exists>p0. \<forall>p. holder_id t p = holder_id s p \<or>
               p = p0 \<and> holder_id t p = Some (word_of_nat (skip_band n))))"

lemmas id_op_defs =
  AllocateDomainGID_def AllocateUserUID_def RemoveDomainGID_def RemoveUser_def
  SetDomainGID_def SetUserUID_def loadMap_def storeMap_def

lemma AllocateDomainGID_state:
  "fst (AllocateDomainGID f d s) =
     (if lock_err f \<or> load_err f \<or> gid_map s d \<noteq> None then s
      else case allocateID (counter_err f) (counter_file s) of
        (c, Inl e) \<Rightarrow> s\<lparr>counter_file := c\<rparr>
      | (c, Inr g) \<Rightarrow> if store_err f then s\<lparr>counter_file := c\<rparr>
                     else s\<lparr>counter_file := c, gid_map := (gid_map s)(d \<mapsto> g)\<rparr>)"
  by (simp add: id_op_defs split: option.split prod.split sum.split)

lemma AllocateUserUID_state:
  "fst (AllocateUserUID f d l s) =
     (if lock_err f \<or> load_err f \<or> uid_maps s d l \<noteq> None then s
      else case allocateID (counter_err f) (counter_file s) of
        (c, Inl e) \<Rightarrow> s\<lparr>counter_file := c\<rparr>
      | (c, Inr u) \<Rightarrow> if store_err f then s\<lparr>counter_file := c\<rparr>
                     else s\<lparr>counter_file := c, uid_maps := (uid_maps s)(d := (uid_maps s d)(l \<mapsto> u))\<rparr>)"
  by (simp add: id_op_defs split: option.split prod.split sum.split)

lemma SetDomainGID_state:
  "fst (SetDomainGID f d g s) =
     (if \<not> Allocatable g \<or> lock_err f \<or> load_err f \<or> gid_map s d \<noteq> None \<or> store_err f then s
      else s\<lparr>gid_map := (gid_map s)(d \<mapsto> g)\<rparr>)"
  by (simp add: id_op_defs split: option.split)

lemma SetUserUID_state:
  "fst (SetUserUID f d l u s) =
     (if \<not> Allocatable u \<or> lock_err f \<or> load_err f \<or> uid_maps s d l \<noteq> None \<or> store_err f then s
      else s\<lparr>uid_maps := (uid_maps s)(d := (uid_maps s d)(l \<mapsto> u))\<rparr>)"
  by (simp add: id_op_defs split: option.split)

lemma RemoveDomainGID_state:
  "fst (RemoveDomainGID f d s) =
     (if lock_err f \<or> load_err f \<or> gid_map s d = None \<or> store_err f then s
      else s\<lparr>gid_map := (gid_map s)(d := None)\<rparr>)"
  by (simp add: id_op_defs split: option.split)

lemma RemoveUser_state:
  "fst (RemoveUser f d l s) =
     (if lock_err f \<or> load_err f \<or> uid_maps s d l = None \<or> store_err f then s
      else s\<lparr>uid_maps := (uid_maps s)(d := (uid_maps s d)(l := None))\<rparr>)"
  by (simp add: id_op_defs split: option.split)

lemmas id_op_states =
  AllocateDomainGID_state AllocateUserUID_state SetDomainGID_state SetUserUID_state
  RemoveDomainGID_state RemoveUser_state

lemma holder_id_frame [simp]:
  "holder_id (s\<lparr>counter_file := c\<rparr>) p = holder_id s p"
  "holder_id (s\<lparr>counter_file := c, gid_map := (gid_map s)(d := x)\<rparr>) p =
     (if p = Dom d then x else holder_id s p)"
  "holder_id (s\<lparr>counter_file := c, uid_maps := (uid_maps s)(d := (uid_maps s d)(l := x))\<rparr>) p =
     (if p = Usr d l then x else holder_id s p)"
  "holder_id (s\<lparr>gid_map := (gid_map s)(d := x)\<rparr>) p = (if p = Dom d then x else holder_id s p)"
  "holder_id (s\<lparr>uid_maps := (uid_maps s)(d := (uid_maps s d)(l := x))\<rparr>) p =
     (if p = Usr d l then x else holder_id s p)"
  "holder_id (s\<lparr>uid_maps := (uid_maps s)(d := uid_maps s d)\<rparr>) p = holder_id s p"
  by (cases p; auto)+

lemma granted_intros [simp]:
  assumes "counter_next c = Some (skip_band n + 1)"
  shows "granted n s (s\<lparr>counter_file := c\<rparr>)"
    "granted n s (s\<lparr>counter_file := c, gid_map := (gid_map s)(d \<mapsto> word_of_nat (skip_band n))\<rparr>)"
    "granted n s (s\<lparr>counter_file := c,
       uid_maps := (uid_maps s)(d := (uid_maps s d)(l \<mapsto> word_of_nat (skip_band n)))\<rparr>)"
  using assms by (auto simp: granted_def)

lemma allocated_step:
  assumes "counter_safe flt" "counter_next (counter_file s) = Some n" "skip_band n + 1 < 2 ^ 32"
    and "allocateID flt (counter_file s) = (c, r)"
  shows "(\<exists>e. r = Inl e) \<and> c = counter_file s \<or>
         r = Inr (word_of_nat (skip_band n)) \<and> counter_next c = Some (skip_band n + 1)"
proof (cases "flt = CounterOK")
  case True
  then have "r = Inr (word_of_nat (skip_band n))"
    using allocateID_next[OF assms(2)] assms(4) by simp
  moreover have "counter_next c = Some (skip_band n + 1)"
    using counter_next_alloc[OF assms(2,3)] assms(4) True by simp
  ultimately show ?thesis by simp
next
  case False
  then obtain e where "allocateID flt (counter_file s) = (counter_file s, Inl e)"
    using allocateID_safe_fault[OF assms(1)] by blast
  then show ?thesis using assms(4) by simp
qed

lemma allocator_op_step:
  assumes "allocator_op op" "counter_next (counter_file s) = Some n" "skip_band n + 1 < 2 ^ 32"
  shows "kept s (id_exec op s) \<or> granted n s (id_exec op s)"
proof (cases op)
  case (OpAllocGID f d)
  then have safe: "counter_safe (counter_err f)" using assms(1) by simp
  obtain c r where a: "allocateID (counter_err f) (counter_file s) = (c, r)" by fastforce
  show ?thesis
    using allocated_step[OF safe assms(2,3) a] a OpAllocGID
    by (cases "store_err f") (auto simp: AllocateDomainGID_state kept_def)
next
  case (OpAllocUID f d l)
  then have safe: "counter_safe (counter_err f)" using assms(1) by simp
  obtain c r where a: "allocateID (counter_err f) (counter_file s) = (c, r)" by fastforce
  show ?thesis
    using allocated_step[OF safe assms(2,3) a] a OpAllocUID
    by (cases "store_err f") (auto simp: AllocateUserUID_state kept_def)
qed (use assms(1) in \<open>auto simp: id_op_states kept_def\<close>)

text \<open>After \<open>k\<close> operations the counter has moved by at most \<open>k\<close> numbers, plus the four of the band
  once it is passed; it never rests inside the band.\<close>

definition counter_bound :: "nat \<Rightarrow> nat \<Rightarrow> bool" where
  "counter_bound k n = (10000 \<le> n \<and> (n \<le> 65532 \<and> n \<le> 10000 + k \<or> 65537 \<le> n \<and> n \<le> 10004 + k))"

definition id_inv :: "nat \<Rightarrow> id_trees \<Rightarrow> bool" where
  "id_inv k s = (\<exists>n. counter_next (counter_file s) = Some n \<and> counter_bound k n \<and>
     (\<forall>p i. holder_id s p = Some i \<longrightarrow> Allocatable i \<and> unat i < n) \<and>
     (\<forall>p q i. holder_id s p = Some i \<and> holder_id s q = Some i \<longrightarrow> p = q))"

lemma counter_bound_step:
  "counter_bound k n \<Longrightarrow> counter_bound (Suc k) (skip_band n + 1)"
  "counter_bound k n \<Longrightarrow> counter_bound (Suc k) n"
  by (auto simp: counter_bound_def skip_band_def)

lemma counter_bound_word:
  assumes "counter_bound k n" "k < 4294957291"
  shows "skip_band n + 1 < 2 ^ 32" "unat (word_of_nat (skip_band n) :: uint32) = skip_band n"
    "Allocatable (word_of_nat (skip_band n))" "n \<le> skip_band n"
proof -
  show lt: "skip_band n + 1 < 2 ^ 32" and "n \<le> skip_band n"
    using assms by (auto simp: counter_bound_def skip_band_def)
  then show u: "unat (word_of_nat (skip_band n) :: uint32) = skip_band n"
    by (simp add: unsigned_of_nat take_bit_nat_eq_self)
  show "Allocatable (word_of_nat (skip_band n))"
    using assms(1) unfolding Allocatable_def word_le_nat_alt word_less_nat_alt u
    by (auto simp: AllocatorFloor_def ExcludedBandLow_def ExcludedBandHigh_def
        counter_bound_def skip_band_def)
qed

lemma id_inv_step:
  assumes inv: "id_inv k s" and op: "allocator_op op" and k: "k < 4294957291"
  shows "id_inv (Suc k) (id_exec op s)"
proof -
  let ?t = "id_exec op s"
  obtain n where n: "counter_next (counter_file s) = Some n" "counter_bound k n"
    and range: "\<And>p i. holder_id s p = Some i \<Longrightarrow> Allocatable i \<and> unat i < n"
    and inj: "\<And>p q i. holder_id s p = Some i \<Longrightarrow> holder_id s q = Some i \<Longrightarrow> p = q"
    using inv unfolding id_inv_def by blast
  note w = counter_bound_word[OF n(2) k]
  from allocator_op_step[OF op n(1) w(1)] show ?thesis
  proof
    assume kept: "kept s ?t"
    have sub: "holder_id s p = Some i" if "holder_id ?t p = Some i" for p i
    proof -
      have "holder_id ?t p = holder_id s p \<or> holder_id ?t p = None"
        using kept unfolding kept_def by simp
      then show ?thesis using that by auto
    qed
    have "counter_next (counter_file ?t) = Some n"
      using n(1) kept by (simp add: kept_def)
    then show ?thesis
      unfolding id_inv_def using counter_bound_step(2)[OF n(2)] range[OF sub] inj[OF sub sub] by blast
  next
    assume g: "granted n s ?t"
    let ?g = "word_of_nat (skip_band n) :: uint32"
    obtain p0 where step: "\<And>p. holder_id ?t p = holder_id s p \<or> p = p0 \<and> holder_id ?t p = Some ?g"
      using g unfolding granted_def by blast
    have p0: "holder_id s p = Some i \<or> p = p0 \<and> i = ?g" if "holder_id ?t p = Some i" for p i
      using step[of p] that by auto
    have fresh: "holder_id s p \<noteq> Some ?g" for p
      using range[of p ?g] w(2,4) by auto
    have "Allocatable i \<and> unat i < skip_band n + 1" if "holder_id ?t p = Some i" for p i
      using p0[OF that] range[of p i] w(2,3,4) by auto
    moreover have "p = q" if "holder_id ?t p = Some i" "holder_id ?t q = Some i" for p q i
      using p0[OF that(1)] p0[OF that(2)] inj[of p i q] fresh by auto
    ultimately show ?thesis
      using g counter_bound_step(1)[OF n(2)] unfolding id_inv_def granted_def by blast
  qed
qed

lemma id_inv_run:
  "id_inv k s \<Longrightarrow> list_all allocator_op ops \<Longrightarrow> k + length ops \<le> 4294957291 \<Longrightarrow>
   id_inv (k + length ops) (id_run ops s)"
proof (induction ops arbitrary: k s)
  case (Cons op ops)
  then have "id_inv (Suc k) (id_exec op s)" by (simp add: id_inv_step)
  from Cons.IH[OF this] Cons.prems show ?case by (simp add: id_run_def)
qed (simp add: id_run_def)

lemma id_inv_fresh [simp]: "id_inv 0 fresh_trees"
proof -
  have "holder_id fresh_trees p = None" for p
    by (cases p) (simp_all add: fresh_trees_def)
  then show ?thesis
    by (simp add: id_inv_def counter_bound_def) (simp add: fresh_trees_def)
qed

text \<open>Every write of a map keeps the entries of all principals but the removed one.\<close>

lemma live_entry_step:
  assumes "holder_id s p = Some i" "\<not> removes op p"
  shows "holder_id (id_exec op s) p = Some i"
  using assms
  by (cases op) (auto simp: id_op_states split: prod.split sum.split)

lemma live_entry_run:
  "holder_id s p = Some i \<Longrightarrow> \<forall>op \<in> set ops. \<not> removes op p \<Longrightarrow>
   holder_id (id_run ops s) p = Some i"
  by (induction ops arbitrary: s) (auto simp: id_run_def live_entry_step)

lemma DomainGID_Inr_iff: "DomainGID b s d = Inr g \<longleftrightarrow> \<not> b \<and> gid_map s d = Some g"
  by (simp add: DomainGID_def loadMap_def split: option.split)

lemma UserUID_Inr_iff: "UserUID b s d l = Inr u \<longleftrightarrow> \<not> b \<and> uid_maps s d l = Some u"
  by (simp add: UserUID_def loadMap_def split: option.split)

lemma Allocatable_nonzero: "Allocatable i \<Longrightarrow> i \<noteq> 0"
  by (auto simp: Allocatable_def AllocatorFloor_def)

lemmas id_eval =
  id_run_def id_op_states no_faults_def fresh_trees_def allocateID_next counter_next_def skip_band_def
  counter_safe_def Allocatable_def AllocatorFloor_def ExcludedBandLow_def ExcludedBandHigh_def go_eval

section \<open>Properties\<close>



text \<open>A live entry is never reassigned.  Whatever operations run, in whatever order and with
  whatever failures (adoptions and lost counters included), the id of a principal stays what it is
  as long as no removal of that very principal is among them.\<close>

theorem live_identity_never_reassigned:
  assumes "holder_id s p = Some i" "\<forall>op \<in> set ops. \<not> removes op p"
  shows "holder_id (id_run ops s) p = Some i"
  using assms by (rule live_entry_run)

theorem live_identity_never_reassigned_witness:
  "holder_id (id_run [OpAllocGID no_faults ''a'', OpSetGID no_faults ''a'' 20000]
     (id_run [OpAllocGID no_faults ''a''] fresh_trees)) (Dom ''a'') = Some 10000"
  by (rule live_identity_never_reassigned) (simp_all add: id_eval)

text \<open>Spawn credentials are safe.  When \<open>Lookup\<close> returns credentials, the uid and the gid are
  exactly the entries of the two maps, both are allocatable (so neither root, nor a service account,
  nor a well-known nobody id), and the mail store is never left without a type.\<close>

theorem lookup_returns_allocatable_ids:
  assumes "Lookup gf uf s cfg dp ddp l d = Inr info"
  shows "gid_map s d = Some (cred_gid info) \<and> uid_maps s d l = Some (cred_uid info) \<and>
         Allocatable (cred_uid info) \<and> Allocatable (cred_gid info) \<and>
         cred_uid info \<noteq> 0 \<and> cred_gid info \<noteq> 0 \<and> cred_type info \<noteq> []"
proof (cases "DomainGID gf s d")
  case (Inr g)
  note gid = this
  show ?thesis
  proof (cases "UserUID uf s d l")
    case (Inr u)
    have "Allocatable u" "Allocatable g" "cred_uid info = u" "cred_gid info = g" "cred_type info \<noteq> []"
      using assms gid Inr
      by (simp_all add: Lookup_def Let_def split: if_split_asm prod.split_asm) fastforce+
    then show ?thesis
      using gid Inr by (simp add: DomainGID_Inr_iff UserUID_Inr_iff Allocatable_nonzero)
  qed (use assms gid in \<open>simp add: Lookup_def Let_def split: prod.split_asm\<close>)
qed (use assms in \<open>simp add: Lookup_def Let_def split: prod.split_asm\<close>)

theorem lookup_returns_allocatable_ids_witness:
  "Lookup False False (id_run [OpAllocGID no_faults ''a'', OpAllocUID no_faults ''a'' ''u''] fresh_trees)
     None ''/etc/d'' ''/var/d'' ''u'' ''a'' =
     Inr \<lparr>cred_uid = 10001, cred_gid = 10000, cred_base = ''/var/d/a/users'', cred_type = ''maildir''\<rparr> \<and>
   Allocatable 10001 \<and> Allocatable 10000"
proof -
  let ?s = "id_run [OpAllocGID no_faults ''a'', OpAllocUID no_faults ''a'' ''u''] fresh_trees"
  let ?i = "\<lparr>cred_uid = 10001, cred_gid = 10000, cred_base = ''/var/d/a/users'',
              cred_type = ''maildir''\<rparr>"
  have j: "Join [''/var/d'', ''a''] = ''/var/d/a''" "Join [''/var/d/a'', ''users''] = ''/var/d/a/users''"
    by code_simp+
  have g: "gid_map ?s ''a'' = Some 10000" and u: "uid_maps ?s ''a'' ''u'' = Some 10001"
    by (simp_all add: id_eval)
  have l: "Lookup False False ?s None ''/etc/d'' ''/var/d'' ''u'' ''a'' = Inr ?i"
    using g u j by (simp add: Lookup_def DomainGID_def UserUID_def loadMap_def Allocatable_def
        AllocatorFloor_def ExcludedBandLow_def IsAbs_def HasPrefix_def)
  then show ?thesis using lookup_returns_allocatable_ids[OF l] by simp
qed

text \<open>A lost counter reissues live ids.  The counter file is truncated before the new value is
  written, and an empty counter reads as a fresh one: after one allocation, one allocation whose
  counter write fails, and one more allocation, two different domains hold the same gid.\<close>

theorem counter_write_failure_reissues:
  assumes "distinct [d1, d2, d3]"
  shows "let s = id_run [OpAllocGID no_faults d1,
                         OpAllocGID (no_faults\<lparr>counter_err := CounterWriteErr\<rparr>) d2,
                         OpAllocGID no_faults d3] fresh_trees
         in gid_map s d1 = Some 10000 \<and> gid_map s d3 = Some 10000"
proof -
  have c: "allocateID CounterOK [] = (itoa 10001 @ [CHR 10], Inr 10000)"
    using allocateID_next[OF counter_next_empty] by (simp add: skip_band_def)
  have w: "allocateID CounterWriteErr (itoa 10001 @ [CHR 10]) =
             ([], Inl (CounterErr CounterWriteErr))"
    by (simp add: allocateID_def ExcludedBandLow_def go_eval)
  have "d1 \<noteq> d2" "d2 \<noteq> d1" "d1 \<noteq> d3" "d3 \<noteq> d1"
    using assms by auto
  then show ?thesis
    by (simp add: id_run_def AllocateDomainGID_state no_faults_def fresh_trees_def c w)
qed

theorem counter_write_failure_reissues_witness:
  "gid_map (id_run [OpAllocGID no_faults ''a'',
                    OpAllocGID (no_faults\<lparr>counter_err := CounterWriteErr\<rparr>) ''b'',
                    OpAllocGID no_faults ''c''] fresh_trees) ''c'' = Some 10000"
  using counter_write_failure_reissues[of "''a''" "''b''" "''c''"] by (simp add: Let_def)

text \<open>The 32-bit counter wraps into the reserved range.  The last id of the space is handed out
  without an error, the counter file then holds 0, and the next allocation returns id 0, which is
  not allocatable.\<close>

theorem counter_wraps_to_root:
  "allocateID CounterOK (itoa 4294967295 @ [CHR 10]) = (''0'' @ [CHR 10], Inr 4294967295) \<and>
   snd (allocateID CounterOK (''0'' @ [CHR 10])) = Inr 0 \<and> \<not> Allocatable 0"
  by (simp add: id_eval)

text \<open>Adoption does not advance the counter.  Recording an id with \<open>SetUserUID\<close> and then
  allocating a gid for any domain gives the two principals the same id.\<close>

theorem adoption_collides_with_allocation:
  "let s = id_run [OpSetUID no_faults d l 10000, OpAllocGID no_faults e] fresh_trees
   in holder_id s (Usr d l) = Some 10000 \<and> holder_id s (Dom e) = Some 10000"
proof -
  have "allocateID CounterOK [] = (itoa 10001 @ [CHR 10], Inr 10000)"
    using allocateID_next[OF counter_next_empty] by (simp add: skip_band_def)
  then show ?thesis
    by (simp add: id_run_def AllocateDomainGID_state no_faults_def fresh_trees_def SetUserUID_def
        loadMap_def storeMap_def Allocatable_def AllocatorFloor_def ExcludedBandLow_def)
qed

end
