(* ===== verification/MsgStore.thy ===== *)
theory MsgStore
  imports Prelude
begin

text \<open>
  The vocabulary of the message stores (\<open>msgstore/store.go\<close>, \<open>msgstore/delivery.go\<close>): message
  metadata, the operations a protocol daemon calls on a store, folder aliases, and the parsing of
  subaddressed recipients.  The operations are a record of functions over an abstract store state,
  so that a daemon's model takes any store; a route names the inbox or one folder of it.
\<close>

record messageInfo =
  mi_UID :: uint32
  mi_Key :: string
  mi_Size :: int
  mi_Flags :: "string list"
  mi_Date :: int

text \<open>A listing can fail, be a nil slice, or be a slice; a retrieved message can be refused, break
  off while it is read, or be read in full.\<close>

datatype list_result = ListErr | ListNil | ListMsgs "messageInfo list"

datatype retr_result = RetrErr | RetrTorn | RetrAll string

record 's store_ops =
  op_list :: "'s \<Rightarrow> string option \<Rightarrow> string \<Rightarrow> list_result"
  op_retrieve :: "'s \<Rightarrow> string option \<Rightarrow> string \<Rightarrow> uint32 \<Rightarrow> retr_result"
  op_delete :: "'s \<Rightarrow> string option \<Rightarrow> string \<Rightarrow> uint32 \<Rightarrow> 's \<times> bool"
  op_expunge :: "'s \<Rightarrow> string option \<Rightarrow> string \<Rightarrow> 's \<times> bool"
  op_folders :: "('s \<Rightarrow> string \<Rightarrow> string list option) option"

record folderSpec =
  fs_Name :: string
  fs_SpecialUse :: string

text \<open>IMAP names begin with a backslash.\<close>

definition imap_name :: "string \<Rightarrow> string" where
  "imap_name s = CHR 92 # s"

definition DefaultFolders :: "folderSpec list" where
  "DefaultFolders =
     [\<lparr>fs_Name = ''Junk'', fs_SpecialUse = imap_name ''Junk''\<rparr>,
      \<lparr>fs_Name = ''Trash'', fs_SpecialUse = imap_name ''Trash''\<rparr>,
      \<lparr>fs_Name = ''Sent'', fs_SpecialUse = imap_name ''Sent''\<rparr>,
      \<lparr>fs_Name = ''Drafts'', fs_SpecialUse = imap_name ''Drafts''\<rparr>,
      \<lparr>fs_Name = ''List'', fs_SpecialUse = []\<rparr>,
      \<lparr>fs_Name = ''Bulk'', fs_SpecialUse = []\<rparr>]"

definition FolderAliases :: "string \<rightharpoonup> string" where
  "FolderAliases = [''Spam'' \<mapsto> ''Junk'']"

definition ResolveFolder :: "string \<Rightarrow> string" where
  "ResolveFolder name = (case FolderAliases name of Some canonical \<Rightarrow> canonical | None \<Rightarrow> name)"

definition SpecialUseFor :: "string \<Rightarrow> string" where
  "SpecialUseFor name = (case find (\<lambda>f. fs_Name f = name) DefaultFolders of
     Some f \<Rightarrow> fs_SpecialUse f | None \<Rightarrow> [])"

end
