(* ===== verification/Base64.thy ===== *)
theory Base64
  imports Prelude
begin

text \<open>
  Go's \<open>base64.StdEncoding\<close>: the standard alphabet with padding.  Decoding skips carriage returns
  and newlines, refuses every other byte outside the alphabet, incomplete quanta and data after the
  padding; encoding is its inverse.
\<close>

definition b64_val :: "char \<Rightarrow> nat option" where
  "b64_val c = (let n = (of_char c :: nat) in
     if 65 \<le> n \<and> n \<le> 90 then Some (n - 65)
     else if 97 \<le> n \<and> n \<le> 122 then Some (n - 71)
     else if 48 \<le> n \<and> n \<le> 57 then Some (n + 4)
     else if n = 43 then Some 62 else if n = 47 then Some 63 else None)"

definition b64_char :: "nat \<Rightarrow> char" where
  "b64_char n = (if n < 26 then char_of (n + 65)
     else if n < 52 then char_of (n + 71)
     else if n < 62 then char_of (n - 4)
     else if n = 62 then CHR ''+'' else CHR ''/'')"

fun b64_quanta :: "string \<Rightarrow> string option" where
  "b64_quanta [] = Some []"
| "b64_quanta (a # b # c # d # rest) =
     (case b64_val a of None \<Rightarrow> None | Some x \<Rightarrow>
      (case b64_val b of None \<Rightarrow> None | Some y \<Rightarrow>
       if c = CHR ''='' then
         (if d = CHR ''='' \<and> rest = [] then Some [char_of (x * 4 + y div 16)] else None)
       else (case b64_val c of None \<Rightarrow> None | Some z \<Rightarrow>
         if d = CHR ''='' then
           (if rest = [] then Some [char_of (x * 4 + y div 16), char_of (y mod 16 * 16 + z div 4)]
            else None)
         else (case b64_val d of None \<Rightarrow> None | Some w \<Rightarrow>
           map_option ((@) [char_of (x * 4 + y div 16), char_of (y mod 16 * 16 + z div 4),
                            char_of (z mod 4 * 64 + w)]) (b64_quanta rest)))))"
| "b64_quanta _ = None"

definition b64_decode :: "string \<Rightarrow> string option" where
  "b64_decode s = b64_quanta (filter (\<lambda>c. c \<noteq> CHR 10 \<and> c \<noteq> CHR 13) s)"

fun b64_encode :: "string \<Rightarrow> string" where
  "b64_encode [] = []"
| "b64_encode [a] = (let x = of_char a :: nat in
     [b64_char (x div 4), b64_char (x mod 4 * 16), CHR ''='', CHR ''='']) "
| "b64_encode [a, b] = (let x = of_char a :: nat; y = of_char b :: nat in
     [b64_char (x div 4), b64_char (x mod 4 * 16 + y div 16), b64_char (y mod 16 * 4), CHR ''=''])"
| "b64_encode (a # b # c # rest) =
     (let x = of_char a :: nat; y = of_char b :: nat; z = of_char c :: nat in
      b64_char (x div 4) # b64_char (x mod 4 * 16 + y div 16) #
      b64_char (y mod 16 * 4 + z div 64) # b64_char (z mod 64) # b64_encode rest)"

lemma of_char_less_256 [simp]: "(of_char c :: nat) < 256"
  by (metis of_char_mod_256 mod_less_divisor zero_less_numeral)

lemma b64_val_char [simp]:
  assumes "n < 64"
  shows "b64_val (b64_char n) = Some n"
proof -
  consider "n < 26" | "26 \<le> n" "n < 52" | "52 \<le> n" "n < 62" | "n = 62" | "n = 63"
    using assms by linarith
  then show ?thesis by cases (auto simp: b64_val_def b64_char_def Let_def)
qed

lemma b64_char_plain [simp]:
  assumes "n < 64"
  shows "b64_char n \<noteq> CHR ''=''" "b64_char n \<noteq> CHR 10" "b64_char n \<noteq> CHR 13"
proof -
  have "b64_val (b64_char n) = Some n" using assms by simp
  moreover have "b64_val (CHR ''='') = None" "b64_val (CHR 10) = None" "b64_val (CHR 13) = None"
    by (simp_all add: b64_val_def)
  ultimately show "b64_char n \<noteq> CHR ''=''" "b64_char n \<noteq> CHR 10" "b64_char n \<noteq> CHR 13" by auto
qed

lemma digit_split:
  fixes a b k :: nat
  assumes "b < k"
  shows "(a * k + b) div k = a" "(a * k + b) mod k = b"
  using assms by simp_all

lemma b64_bits:
  fixes x y z :: nat
  assumes "x < 256" "y < 256" "z < 256"
  shows "x div 4 < 64" "x mod 4 * 16 + y div 16 < 64" "y mod 16 * 4 + z div 64 < 64" "z mod 64 < 64"
    "x mod 4 * 16 < 64" "y mod 16 * 4 < 64"
    "x div 4 * 4 + (x mod 4 * 16 + y div 16) div 16 = x" "x div 4 * 4 + x mod 4 * 16 div 16 = x"
    "(x mod 4 * 16 + y div 16) mod 16 * 16 + (y mod 16 * 4 + z div 64) div 4 = y"
    "(x mod 4 * 16 + y div 16) mod 16 * 16 + y mod 16 * 4 div 4 = y"
    "(y mod 16 * 4 + z div 64) mod 4 * 64 + z mod 64 = z"
proof -
  have d: "x div 4 < 64" "y div 16 < 16" "z div 64 < 4" "x mod 4 < 4" "y mod 16 < 16" "z mod 64 < 64"
    using assms by (simp_all add: less_mult_imp_div_less)
  then show "x div 4 < 64" "z mod 64 < 64" by simp_all
  show "x mod 4 * 16 + y div 16 < 64" "y mod 16 * 4 + z div 64 < 64" "x mod 4 * 16 < 64" "y mod 16 * 4 < 64"
    using d by linarith+
  show "x div 4 * 4 + (x mod 4 * 16 + y div 16) div 16 = x" "x div 4 * 4 + x mod 4 * 16 div 16 = x"
    using digit_split(1)[OF d(2)] by simp_all
  show "(x mod 4 * 16 + y div 16) mod 16 * 16 + (y mod 16 * 4 + z div 64) div 4 = y"
    "(x mod 4 * 16 + y div 16) mod 16 * 16 + y mod 16 * 4 div 4 = y"
    using digit_split(2)[OF d(2)] digit_split(1)[OF d(3)] by simp_all
  show "(y mod 16 * 4 + z div 64) mod 4 * 64 + z mod 64 = z"
    using digit_split(2)[OF d(3)] by simp
qed

lemma b64_quanta_encode: "b64_quanta (b64_encode s) = Some s"
proof (induction s rule: b64_encode.induct)
  case (2 a)
  then show ?case using b64_bits[of "of_char a" 0 0] by (simp add: Let_def)
next
  case (3 a b)
  then show ?case using b64_bits[of "of_char a" "of_char b" 0] by (simp add: Let_def)
next
  case (4 a b c rest)
  then show ?case using b64_bits[of "of_char a" "of_char b" "of_char c"] by (simp add: Let_def)
qed simp

lemma b64_encode_plain: "list_all (\<lambda>c. c \<noteq> CHR 10 \<and> c \<noteq> CHR 13) (b64_encode s)"
proof (induction s rule: b64_encode.induct)
  case (2 a)
  then show ?case using b64_bits(1,5)[of "of_char a" 0 0] by (simp add: Let_def)
next
  case (3 a b)
  then show ?case using b64_bits(1,2,6)[of "of_char a" "of_char b" 0] by (simp add: Let_def)
next
  case (4 a b d rest)
  then show ?case using b64_bits(1-4)[of "of_char a" "of_char b" "of_char d"] by (simp add: Let_def)
qed simp

lemma b64_decode_encode [simp]: "b64_decode (b64_encode s) = Some s"
proof -
  have "filter (\<lambda>c. c \<noteq> CHR 10 \<and> c \<noteq> CHR 13) (b64_encode s) = b64_encode s"
    using b64_encode_plain[of s] by (simp add: filter_id_conv list_all_iff)
  then show ?thesis by (simp add: b64_decode_def b64_quanta_encode)
qed

end
