(* ===== verification/Pop3.thy ===== *)
theory Pop3
  imports MsgStore Base64
begin

text \<open>
  The POP3 daemon (\<open>internal/pop3d/pop3\<close>): the session, the fourteen commands, the SASL exchange
  and the command loop of \<open>handleConnection\<close>.

  What a session calls outside the daemon is the argument \<open>env\<close>: the login at the session-manager,
  the PLAIN server of the SASL library, the operations of the message store, the order in which Go
  iterates over the map of deletion marks, and whether a TLS handshake succeeds.  The store is an
  explicit state that the commands thread; the connection is the list of lines the client sends and
  the bytes the server answers.
\<close>

section \<open>Sessions (session.go)\<close>

datatype pop3_state = StateAuthorization | StateTransaction | StateUpdate

datatype tls_state = TLSStateNone | TLSStateActive

datatype listener_mode = ModePop3 | ModePop3s

datatype pop3_error = ErrMailboxNotInitialized | ErrNoSuchMessage | ErrMessageDeleted | ErrStore

text \<open>The store field holds the route of the store adapter (\<^term>\<open>None\<close> when there is none); the
  deletion marks are the keys of the map, in the order they were set.\<close>

record pop3_session =
  state :: pop3_state
  tlsState :: tls_state
  hostname :: string
  listenerMode :: listener_mode
  tlsConfig :: bool
  insecureAuth :: bool
  clientIP :: string
  username :: string
  authenticatedUser :: "(string \<times> string) option"
  saslServer :: bool
  saslMech :: string
  mailbox :: string
  store :: "string option option"
  messageList :: "messageInfo list option"
  deletedSet :: "int list"

text \<open>One step of the PLAIN server: it refuses the response, asks for more, or hands a user name and
  a password to the authenticator.\<close>

datatype sasl_step = SaslMalformed | SaslChallenge string | SaslCreds string string

record 's pop3_env =
  env_login :: "string \<Rightarrow> string \<Rightarrow> string \<Rightarrow> string option"
  env_sasl :: "string \<Rightarrow> sasl_step"
  env_ops :: "'s store_ops"
  env_order :: "int list \<Rightarrow> int list"
  env_tls_ok :: bool

definition NewSession :: "string \<Rightarrow> listener_mode \<Rightarrow> bool \<Rightarrow> bool \<Rightarrow> pop3_session" where
  "NewSession host mode tls isTLS =
     \<lparr>state = StateAuthorization,
      tlsState = (if mode = ModePop3s \<or> isTLS then TLSStateActive else TLSStateNone),
      hostname = host, listenerMode = mode, tlsConfig = tls, insecureAuth = (\<not> tls),
      clientIP = [], username = [], authenticatedUser = None, saslServer = False, saslMech = [],
      mailbox = [], store = None, messageList = None, deletedSet = []\<rparr>"

definition CanSTLS :: "pop3_session \<Rightarrow> bool" where
  "CanSTLS s = (state s = StateAuthorization \<and> listenerMode s = ModePop3 \<and>
                tlsState s = TLSStateNone \<and> tlsConfig s)"

definition SetTLSActive :: "pop3_session \<Rightarrow> pop3_session" where
  "SetTLSActive s = s\<lparr>tlsState := TLSStateActive\<rparr>"

definition SetAuthenticated :: "string \<Rightarrow> string \<Rightarrow> pop3_session \<Rightarrow> pop3_session" where
  "SetAuthenticated user mbox s = s\<lparr>state := StateTransaction, authenticatedUser := Some (user, mbox)\<rparr>"

definition EnterUpdate :: "pop3_session \<Rightarrow> pop3_session" where
  "EnterUpdate s = (if state s = StateTransaction then s\<lparr>state := StateUpdate\<rparr> else s)"

definition SetSASLServer :: "string \<Rightarrow> pop3_session \<Rightarrow> pop3_session" where
  "SetSASLServer mech s = s\<lparr>saslMech := mech, saslServer := True\<rparr>"

definition ClearSASL :: "pop3_session \<Rightarrow> pop3_session" where
  "ClearSASL s = s\<lparr>saslServer := False, saslMech := []\<rparr>"

definition Capabilities :: "pop3_session \<Rightarrow> string list" where
  "Capabilities s =
     (let caps = [''TOP'', ''UIDL'', ''RESP-CODES''];
          caps = (if tlsState s = TLSStateActive then ''USER'' # caps else caps);
          caps = (if tlsState s = TLSStateActive then caps @ [''SASL PLAIN''] else caps)
      in if CanSTLS s then caps @ [''STLS''] else caps)"

definition InitializeMailbox ::
  "'s pop3_env \<Rightarrow> 's \<Rightarrow> string \<Rightarrow> pop3_session \<Rightarrow> pop3_session \<times> pop3_error option" where
  "InitializeMailbox env st folder s =
     (case authenticatedUser s of
        None \<Rightarrow> (s, Some ErrMailboxNotInitialized)
      | Some (_, mbox) \<Rightarrow>
          let s = s\<lparr>mailbox := mbox, deletedSet := []\<rparr>;
              route = (if folder = [] then None
                       else case op_folders (env_ops env) of
                         None \<Rightarrow> None
                       | Some folders \<Rightarrow> (case folders st mbox of
                           None \<Rightarrow> None
                         | Some fs \<Rightarrow> if folder \<in> set fs then Some folder else None));
              s = s\<lparr>store := Some route\<rparr>
          in case op_list (env_ops env) st route mbox of
               ListErr \<Rightarrow> (s, Some ErrStore)
             | ListNil \<Rightarrow> (s\<lparr>messageList := None\<rparr>, None)
             | ListMsgs ms \<Rightarrow> (s\<lparr>messageList := Some ms\<rparr>, None))"

text \<open>\<open>Cleanup\<close>: the store adapter of the session-manager can be closed, the folder adapter cannot.\<close>

definition Cleanup :: "pop3_session \<Rightarrow> pop3_session" where
  "Cleanup s = (if store s = Some None then s\<lparr>store := None, authenticatedUser := None\<rparr>
                else s\<lparr>authenticatedUser := None\<rparr>)"

text \<open>The loops over the message list run over the pairs of a 1-based number and a message.\<close>

definition numbered :: "messageInfo list \<Rightarrow> (int \<times> messageInfo) list" where
  "numbered ms = zip (map int [1..<Suc (length ms)]) ms"

definition live_messages :: "pop3_session \<Rightarrow> messageInfo list \<Rightarrow> (int \<times> messageInfo) list" where
  "live_messages s ms = filter (\<lambda>(n, m). n \<notin> set (deletedSet s)) (numbered ms)"

definition MessageCount :: "pop3_session \<Rightarrow> int" where
  "MessageCount s = (case messageList s of None \<Rightarrow> 0
     | Some ms \<Rightarrow> foldl (\<lambda>c (n, m). if n \<notin> set (deletedSet s) then c + 1 else c) 0 (numbered ms))"

definition TotalSize :: "pop3_session \<Rightarrow> int" where
  "TotalSize s = (case messageList s of None \<Rightarrow> 0
     | Some ms \<Rightarrow> foldl (\<lambda>t (n, m). if n \<notin> set (deletedSet s) then t + mi_Size m else t) 0 (numbered ms))"

definition GetMessage :: "pop3_session \<Rightarrow> int \<Rightarrow> pop3_error + messageInfo" where
  "GetMessage s n = (case messageList s of
       None \<Rightarrow> Inl ErrMailboxNotInitialized
     | Some ms \<Rightarrow>
         if n < 1 \<or> n > int (length ms) then Inl ErrNoSuchMessage
         else if n \<in> set (deletedSet s) then Inl ErrMessageDeleted
         else Inr (ms ! nat (n - 1)))"

definition MarkDeleted :: "int \<Rightarrow> pop3_session \<Rightarrow> pop3_session \<times> pop3_error option" where
  "MarkDeleted n s = (case messageList s of
       None \<Rightarrow> (s, Some ErrMailboxNotInitialized)
     | Some ms \<Rightarrow>
         if n < 1 \<or> n > int (length ms) then (s, Some ErrNoSuchMessage)
         else if n \<in> set (deletedSet s) then (s, Some ErrMessageDeleted)
         else (s\<lparr>deletedSet := deletedSet s @ [n]\<rparr>, None))"

definition ResetDeletions :: "pop3_session \<Rightarrow> pop3_session" where
  "ResetDeletions s = s\<lparr>deletedSet := []\<rparr>"

definition GetDeletedUIDs :: "'s pop3_env \<Rightarrow> pop3_session \<Rightarrow> uint32 list" where
  "GetDeletedUIDs env s = (case messageList s of
       None \<Rightarrow> []
     | Some ms \<Rightarrow> map (\<lambda>n. mi_UID (ms ! nat (n - 1)))
                   (filter (\<lambda>n. 1 \<le> n \<and> n \<le> int (length ms)) (env_order env (deletedSet s))))"

definition AllMessages :: "pop3_session \<Rightarrow> (int \<times> messageInfo) list" where
  "AllMessages s = (case messageList s of None \<Rightarrow> [] | Some ms \<Rightarrow> live_messages s ms)"

section \<open>Responses and command lines (command.go)\<close>

record response =
  r_OK :: bool
  r_Message :: string
  r_Lines :: "string list"
  r_Continuation :: bool
  r_Challenge :: string

definition resp_ok :: "string \<Rightarrow> string list \<Rightarrow> response" where
  "resp_ok msg ls = \<lparr>r_OK = True, r_Message = msg, r_Lines = ls, r_Continuation = False, r_Challenge = []\<rparr>"

definition resp_err :: "string \<Rightarrow> response" where
  "resp_err msg = \<lparr>r_OK = False, r_Message = msg, r_Lines = [], r_Continuation = False, r_Challenge = []\<rparr>"

definition resp_continue :: "string \<Rightarrow> response" where
  "resp_continue ch = \<lparr>r_OK = False, r_Message = [], r_Lines = [], r_Continuation = True, r_Challenge = ch\<rparr>"

definition crlf :: string where
  "crlf = [CHR 13, CHR 10]"

definition stuff_line :: "string \<Rightarrow> string" where
  "stuff_line l = (if HasPrefix l ''.'' then ''.'' else []) @ l @ crlf"

definition response_String :: "response \<Rightarrow> string" where
  "response_String r =
     (if r_Continuation r then ''+ '' @ r_Challenge r @ crlf
      else (if r_OK r then ''+OK'' else ''-ERR'') @
           (if r_Message r \<noteq> [] then '' '' @ r_Message r else []) @ crlf @
           (if r_Lines r \<noteq> [] then concat (map stuff_line (r_Lines r)) @ ''.'' @ crlf else []))"

datatype pop3_cmd =
  CAPA | STLS | USER | PASS | AUTH | QUIT | STAT | LIST | RETR | DELE | RSET | NOOP | UIDL | TOP

definition commandRegistry :: "(string \<times> pop3_cmd) list" where
  "commandRegistry =
     [(''CAPA'', CAPA), (''STLS'', STLS), (''USER'', USER), (''PASS'', PASS), (''AUTH'', AUTH),
      (''QUIT'', QUIT), (''STAT'', STAT), (''LIST'', LIST), (''RETR'', RETR), (''DELE'', DELE),
      (''RSET'', RSET), (''NOOP'', NOOP), (''UIDL'', UIDL), (''TOP'', TOP)]"

definition GetCommand :: "string \<Rightarrow> pop3_cmd option" where
  "GetCommand name = map_of commandRegistry (ToUpper name)"

definition ParseCommand :: "string \<Rightarrow> (string \<times> string list) option" where
  "ParseCommand line0 =
     (let line = TrimSpace line0 in
      if line = [] then None
      else case Fields line of [] \<Rightarrow> None | p # args \<Rightarrow> Some (ToUpper p, args))"

section \<open>Authentication commands (auth_commands.go)\<close>

definition bad_state :: response where
  "bad_state = resp_err ''Command not valid in this state''"

definition capaCommand :: "string list \<Rightarrow> pop3_session \<Rightarrow> response" where
  "capaCommand args s =
     (if args \<noteq> [] then resp_err ''CAPA command takes no arguments''
      else resp_ok ''Capability list follows'' (Capabilities s))"

definition stlsCommand :: "string list \<Rightarrow> pop3_session \<Rightarrow> response" where
  "stlsCommand args s =
     (if args \<noteq> [] then resp_err ''STLS command takes no arguments''
      else if state s \<noteq> StateAuthorization then bad_state
      else if \<not> CanSTLS s then
        (if tlsState s = TLSStateActive then resp_err ''Already using TLS''
         else resp_err ''TLS not available'')
      else resp_ok ''Begin TLS negotiation'' [])"

text \<open>The guard shared by USER, PASS and AUTH.\<close>

definition auth_refused :: "pop3_session \<Rightarrow> response option" where
  "auth_refused s =
     (if state s \<noteq> StateAuthorization then Some bad_state
      else if tlsState s \<noteq> TLSStateActive \<and> \<not> insecureAuth s
        then Some (resp_err ''TLS required for authentication'')
      else None)"

definition userCommand :: "string list \<Rightarrow> pop3_session \<Rightarrow> pop3_session \<times> response" where
  "userCommand args s =
     (case auth_refused s of
        Some r \<Rightarrow> (s, r)
      | None \<Rightarrow>
          if length args \<noteq> 1 then (s, resp_err ''USER command requires username argument'')
          else if hd args = [] then (s, resp_err ''Username cannot be empty'')
          else (s\<lparr>username := hd args\<rparr>, resp_ok (''User '' @ hd args @ '' accepted'') []))"

definition passCommand :: "'s pop3_env \<Rightarrow> 's \<Rightarrow> string list \<Rightarrow> pop3_session \<Rightarrow> pop3_session \<times> response" where
  "passCommand env st args s =
     (case auth_refused s of
        Some r \<Rightarrow> (s, r)
      | None \<Rightarrow>
          if username s = [] then (s, resp_err ''No username specified'')
          else if length args \<noteq> 1 then (s, resp_err ''PASS command requires password argument'')
          else case env_login env (username s) (hd args) (clientIP s) of
            None \<Rightarrow> (s, resp_err ''Authentication failed'')
          | Some mbox \<Rightarrow>
              (case InitializeMailbox env st [] (SetAuthenticated (username s) mbox s) of
                 (s', Some e) \<Rightarrow> (s', resp_err ''Failed to access mailbox'')
               | (s', None) \<Rightarrow> (s', resp_ok (''Logged in as '' @ username s) [])))"

text \<open>\<open>commitDeletions\<close>: every marked UID is deleted, then the mailbox is expunged; the first error
  is what remains.\<close>

fun delete_all ::
  "'s store_ops \<Rightarrow> string option \<Rightarrow> string \<Rightarrow> uint32 list \<Rightarrow> 's \<Rightarrow> bool \<Rightarrow> 's \<times> bool" where
  "delete_all ops route mbox [] st ok = (st, ok)"
| "delete_all ops route mbox (u # us) st ok =
     (case op_delete ops st route mbox u of
        (st', done) \<Rightarrow> delete_all ops route mbox us st' (ok \<and> done))"

definition commitDeletions :: "'s pop3_env \<Rightarrow> string option \<Rightarrow> 's \<Rightarrow> pop3_session \<Rightarrow> 's \<times> bool" where
  "commitDeletions env route st s =
     (let uids = GetDeletedUIDs env s in
      if uids = [] then (st, True)
      else case delete_all (env_ops env) route (mailbox s) uids st True of
        (st1, ok) \<Rightarrow> (case op_expunge (env_ops env) st1 route (mailbox s) of
          (st2, done) \<Rightarrow> (st2, ok \<and> done)))"

definition quitCommand ::
  "'s pop3_env \<Rightarrow> string list \<Rightarrow> pop3_session \<Rightarrow> 's \<Rightarrow> pop3_session \<times> 's \<times> response" where
  "quitCommand env args s st =
     (if args \<noteq> [] then (s, st, resp_err ''QUIT command takes no arguments'')
      else case state s of
        StateTransaction \<Rightarrow>
          (let s' = EnterUpdate s in
           case store s' of
             None \<Rightarrow> (s', st, resp_ok ''Logging out'' [])
           | Some route \<Rightarrow> (case commitDeletions env route st s' of
               (st', True) \<Rightarrow> (s', st', resp_ok ''Logging out'' [])
             | (st', False) \<Rightarrow> (s', st', resp_err ''[SYS/TEMP] some deleted messages not removed'')))
      | _ \<Rightarrow> (s, st, resp_ok ''Goodbye'' []))"

definition saslAuthenticate ::
  "'s pop3_env \<Rightarrow> 's \<Rightarrow> string \<Rightarrow> string \<Rightarrow> pop3_session \<Rightarrow> pop3_session \<times> bool" where
  "saslAuthenticate env st user pass s =
     (case env_login env user pass (clientIP s) of
        None \<Rightarrow> (s, False)
      | Some mbox \<Rightarrow>
          let s1 = (SetAuthenticated user mbox s)\<lparr>username := user\<rparr> in
          (case InitializeMailbox env st [] s1 of
             (s', Some e) \<Rightarrow> (s', False)
           | (s', None) \<Rightarrow> (s', True)))"

definition processSASLStep ::
  "'s pop3_env \<Rightarrow> 's \<Rightarrow> string \<Rightarrow> pop3_session \<Rightarrow> pop3_session \<times> response" where
  "processSASLStep env st input s =
     (if \<not> saslServer s then (s, resp_err ''No SASL exchange in progress'')
      else case env_sasl env input of
        SaslMalformed \<Rightarrow> (ClearSASL s, resp_err ''Authentication failed'')
      | SaslChallenge ch \<Rightarrow> (s, resp_continue (b64_encode ch))
      | SaslCreds user pass \<Rightarrow> (case saslAuthenticate env st user pass s of
          (s', False) \<Rightarrow> (ClearSASL s', resp_err ''Authentication failed'')
        | (s', True) \<Rightarrow> (ClearSASL s', resp_ok (''Logged in as '' @ username s') [])))"

definition SupportedSASLMechanisms :: "string list" where
  "SupportedSASLMechanisms = [''PLAIN'']"

definition authCommand :: "'s pop3_env \<Rightarrow> 's \<Rightarrow> string list \<Rightarrow> pop3_session \<Rightarrow> pop3_session \<times> response" where
  "authCommand env st args s =
     (case auth_refused s of
        Some r \<Rightarrow> (s, r)
      | None \<Rightarrow>
          if args = [] then (s, resp_err ''AUTH command requires mechanism argument'')
          else let mechanism = ToUpper (hd args) in
            if \<not> list_ex (\<lambda>m. ToLower m = ToLower mechanism) SupportedSASLMechanisms
              \<or> mechanism \<noteq> ''PLAIN''
            then (s, resp_err (''Unsupported mechanism: '' @ mechanism))
            else let s1 = SetSASLServer mechanism s in
              if length args > 1 then
                (if args ! 1 = ''='' then processSASLStep env st [] s1
                 else case b64_decode (args ! 1) of
                   None \<Rightarrow> (ClearSASL s1, resp_err ''Invalid base64 encoding'')
                 | Some input \<Rightarrow> processSASLStep env st input s1)
              else (s1, resp_continue []))"

definition ProcessSASLResponse ::
  "'s pop3_env \<Rightarrow> 's \<Rightarrow> string \<Rightarrow> pop3_session \<Rightarrow> pop3_session \<times> response" where
  "ProcessSASLResponse env st line s =
     (if line = ''*'' then (ClearSASL s, resp_err ''Authentication cancelled'')
      else case b64_decode line of
        None \<Rightarrow> (ClearSASL s, resp_err ''Invalid base64 encoding'')
      | Some input \<Rightarrow> processSASLStep env st input s)"

section \<open>Transaction commands (transaction_commands.go)\<close>

definition statCommand :: "string list \<Rightarrow> pop3_session \<Rightarrow> response" where
  "statCommand args s =
     (if state s \<noteq> StateTransaction then bad_state
      else if args \<noteq> [] then resp_err ''STAT command takes no arguments''
      else resp_ok (fmt_int (MessageCount s) @ '' '' @ fmt_int (TotalSize s)) [])"

text \<open>The lookup that LIST, RETR, UIDL and TOP share.\<close>

definition get_message_or_error :: "pop3_session \<Rightarrow> int \<Rightarrow> response + messageInfo" where
  "get_message_or_error s n = (case GetMessage s n of
       Inl e \<Rightarrow> Inl (if e = ErrNoSuchMessage \<or> e = ErrMessageDeleted then resp_err ''No such message''
                    else resp_err ''Failed to retrieve message'')
     | Inr m \<Rightarrow> Inr m)"

definition listCommand :: "string list \<Rightarrow> pop3_session \<Rightarrow> response" where
  "listCommand args s =
     (if state s \<noteq> StateTransaction then bad_state
      else if args = [] then
        resp_ok (fmt_int (MessageCount s) @ '' messages ('' @ fmt_int (TotalSize s) @ '' octets)'')
          (map (\<lambda>(n, m). fmt_int n @ '' '' @ fmt_int (mi_Size m)) (AllMessages s))
      else if length args \<noteq> 1 then resp_err ''LIST command takes at most one argument''
      else case Atoi (hd args) of
        None \<Rightarrow> resp_err ''Invalid message number''
      | Some n \<Rightarrow> (case get_message_or_error s n of
          Inl r \<Rightarrow> r
        | Inr m \<Rightarrow> resp_ok (fmt_int n @ '' '' @ fmt_int (mi_Size m)) []))"

fun crlf_to_lf :: "string \<Rightarrow> string" where
  "crlf_to_lf [] = []"
| "crlf_to_lf [c] = [c]"
| "crlf_to_lf (c # d # s) =
     (if c = CHR 13 \<and> d = CHR 10 then CHR 10 # crlf_to_lf s else c # crlf_to_lf (d # s))"

definition splitMessageLines :: "string \<Rightarrow> string list" where
  "splitMessageLines content =
     (let c = map (\<lambda>x. if x = CHR 13 then CHR 10 else x) (crlf_to_lf content);
          rawLines = SplitByte (CHR 10) c
      in if rawLines \<noteq> [] \<and> last rawLines = [] then butlast rawLines else rawLines)"

definition retrCommand :: "'s pop3_env \<Rightarrow> 's \<Rightarrow> string list \<Rightarrow> pop3_session \<Rightarrow> response" where
  "retrCommand env st args s =
     (if state s \<noteq> StateTransaction then bad_state
      else if length args \<noteq> 1 then resp_err ''RETR command requires message number''
      else case Atoi (hd args) of
        None \<Rightarrow> resp_err ''Invalid message number''
      | Some n \<Rightarrow> (case get_message_or_error s n of
          Inl r \<Rightarrow> r
        | Inr m \<Rightarrow> (case store s of
            None \<Rightarrow> resp_err ''Message store not available''
          | Some route \<Rightarrow> (case op_retrieve (env_ops env) st route (mailbox s) (mi_UID m) of
              RetrErr \<Rightarrow> resp_err ''Failed to retrieve message''
            | RetrTorn \<Rightarrow> resp_err ''Failed to read message''
            | RetrAll content \<Rightarrow>
                resp_ok (fmt_int (mi_Size m) @ '' octets'') (splitMessageLines content)))))"

definition deleCommand :: "string list \<Rightarrow> pop3_session \<Rightarrow> pop3_session \<times> response" where
  "deleCommand args s =
     (if state s \<noteq> StateTransaction then (s, bad_state)
      else if length args \<noteq> 1 then (s, resp_err ''DELE command requires message number'')
      else case Atoi (hd args) of
        None \<Rightarrow> (s, resp_err ''Invalid message number'')
      | Some n \<Rightarrow> (case MarkDeleted n s of
          (s', Some e) \<Rightarrow> (s', if e = ErrNoSuchMessage then resp_err ''No such message''
                             else if e = ErrMessageDeleted then resp_err ''Message already deleted''
                             else resp_err ''Failed to delete message'')
        | (s', None) \<Rightarrow> (s', resp_ok (''message '' @ fmt_int n @ '' deleted'') [])))"

definition rsetCommand :: "string list \<Rightarrow> pop3_session \<Rightarrow> pop3_session \<times> response" where
  "rsetCommand args s =
     (if state s \<noteq> StateTransaction then (s, bad_state)
      else if args \<noteq> [] then (s, resp_err ''RSET command takes no arguments'')
      else let s' = ResetDeletions s in
        (s', resp_ok (''maildrop has '' @ fmt_int (MessageCount s') @ '' messages'') []))"

definition noopCommand :: "string list \<Rightarrow> pop3_session \<Rightarrow> response" where
  "noopCommand args s =
     (if args \<noteq> [] then resp_err ''NOOP command takes no arguments'' else resp_ok [] [])"

definition uidlCommand :: "string list \<Rightarrow> pop3_session \<Rightarrow> response" where
  "uidlCommand args s =
     (if state s \<noteq> StateTransaction then bad_state
      else if args = [] then
        resp_ok [] (map (\<lambda>(n, m). fmt_int n @ '' '' @ itoa (unat (mi_UID m))) (AllMessages s))
      else if length args \<noteq> 1 then resp_err ''UIDL command takes at most one argument''
      else case Atoi (hd args) of
        None \<Rightarrow> resp_err ''Invalid message number''
      | Some n \<Rightarrow> (case get_message_or_error s n of
          Inl r \<Rightarrow> r
        | Inr m \<Rightarrow> resp_ok (fmt_int n @ '' '' @ itoa (unat (mi_UID m))) []))"

text \<open>The loop of \<open>extractTopLines\<close> returns the lines kept and whether it left the scan early.\<close>

fun top_loop :: "int \<Rightarrow> bool \<Rightarrow> int \<Rightarrow> string list \<Rightarrow> string list \<times> bool" where
  "top_loop n inBody count [] = ([], False)"
| "top_loop n inBody count (l # ls) =
     (if \<not> inBody then apfst (Cons l) (top_loop n (l = []) count ls)
      else if count \<ge> n then ([], True)
      else apfst (Cons l) (top_loop n True (count + 1) ls))"

definition extractTopLines :: "string \<Rightarrow> int \<Rightarrow> string list option" where
  "extractTopLines content n =
     (case top_loop n False 0 (scan_lines content) of
        (ls, left) \<Rightarrow> if \<not> left \<and> scan_err content then None else Some ls)"

definition topCommand :: "'s pop3_env \<Rightarrow> 's \<Rightarrow> string list \<Rightarrow> pop3_session \<Rightarrow> response" where
  "topCommand env st args s =
     (if state s \<noteq> StateTransaction then bad_state
      else if length args \<noteq> 2 then resp_err ''TOP command requires message number and line count''
      else case Atoi (args ! 0) of
        None \<Rightarrow> resp_err ''Invalid message number''
      | Some n \<Rightarrow> (case Atoi (args ! 1) of
          None \<Rightarrow> resp_err ''Invalid line count''
        | Some count \<Rightarrow>
            if count < 0 then resp_err ''Invalid line count''
            else case get_message_or_error s n of
              Inl r \<Rightarrow> r
            | Inr m \<Rightarrow> (case store s of
                None \<Rightarrow> resp_err ''Message store not available''
              | Some route \<Rightarrow> (case op_retrieve (env_ops env) st route (mailbox s) (mi_UID m) of
                  RetrErr \<Rightarrow> resp_err ''Failed to retrieve message''
                | RetrTorn \<Rightarrow> resp_err ''Failed to read message''
                | RetrAll content \<Rightarrow> (case extractTopLines content count of
                    None \<Rightarrow> resp_err ''Failed to read message''
                  | Some ls \<Rightarrow> resp_ok [] ls)))))"

section \<open>The command loop (handler.go)\<close>

fun Execute ::
  "'s pop3_env \<Rightarrow> pop3_cmd \<Rightarrow> string list \<Rightarrow> pop3_session \<Rightarrow> 's \<Rightarrow> pop3_session \<times> 's \<times> response" where
  "Execute env CAPA args s st = (s, st, capaCommand args s)"
| "Execute env STLS args s st = (s, st, stlsCommand args s)"
| "Execute env USER args s st = (case userCommand args s of (s', r) \<Rightarrow> (s', st, r))"
| "Execute env PASS args s st = (case passCommand env st args s of (s', r) \<Rightarrow> (s', st, r))"
| "Execute env AUTH args s st = (case authCommand env st args s of (s', r) \<Rightarrow> (s', st, r))"
| "Execute env QUIT args s st = quitCommand env args s st"
| "Execute env STAT args s st = (s, st, statCommand args s)"
| "Execute env LIST args s st = (s, st, listCommand args s)"
| "Execute env RETR args s st = (s, st, retrCommand env st args s)"
| "Execute env DELE args s st = (case deleCommand args s of (s', r) \<Rightarrow> (s', st, r))"
| "Execute env RSET args s st = (case rsetCommand args s of (s', r) \<Rightarrow> (s', st, r))"
| "Execute env NOOP args s st = (s, st, noopCommand args s)"
| "Execute env UIDL args s st = (s, st, uidlCommand args s)"
| "Execute env TOP args s st = (s, st, topCommand env st args s)"

text \<open>One turn of the loop: the state after it, the bytes sent, and whether the connection ends.\<close>

definition handle_line ::
  "'s pop3_env \<Rightarrow> string \<Rightarrow> pop3_session \<Rightarrow> 's \<Rightarrow> pop3_session \<times> 's \<times> string \<times> bool" where
  "handle_line env line0 s st =
     (let line = TrimSpace line0 in
      if line = [] then (s, st, [], False)
      else if saslServer s then
        (case ProcessSASLResponse env st line s of (s', r) \<Rightarrow> (s', st, response_String r, False))
      else case ParseCommand line of
        None \<Rightarrow> (s, st, response_String (resp_err ''Invalid command''), False)
      | Some (name, args) \<Rightarrow> (case GetCommand name of
          None \<Rightarrow> (s, st, response_String (resp_err ''Unknown command''), False)
        | Some cmd \<Rightarrow> (case Execute env cmd args s st of
            (s', st', r) \<Rightarrow>
              if name = ''STLS'' \<and> r_OK r then
                (if tlsConfig s' \<and> env_tls_ok env then (SetTLSActive s', st', response_String r, False)
                 else (s', st', response_String r, True))
              else (s', st', response_String r, name = ''QUIT''))))"

fun handle_lines ::
  "'s pop3_env \<Rightarrow> string list \<Rightarrow> pop3_session \<Rightarrow> 's \<Rightarrow> pop3_session \<times> 's \<times> string" where
  "handle_lines env [] s st = (s, st, [])"
| "handle_lines env (l # ls) s st =
     (case handle_line env l s st of
        (s', st', out, closed) \<Rightarrow>
          if closed then (s', st', out)
          else case handle_lines env ls s' st' of (s'', st'', out') \<Rightarrow> (s'', st'', out @ out'))"

definition handleConnection ::
  "'s pop3_env \<Rightarrow> string \<Rightarrow> bool \<Rightarrow> bool \<Rightarrow> string option \<Rightarrow> string list \<Rightarrow> 's \<Rightarrow> pop3_session \<times> 's \<times> string" where
  "handleConnection env host tls isTLS ip ls st =
     (let s0 = NewSession host (if isTLS then ModePop3s else ModePop3) tls isTLS;
          s1 = (case ip of None \<Rightarrow> s0 | Some a \<Rightarrow> s0\<lparr>clientIP := a\<rparr>)
      in case handle_lines env ls s1 st of
           (s, st', out) \<Rightarrow> (Cleanup s, st', ''+OK '' @ host @ '' POP3 server ready'' @ crlf @ out))"

end
