(* ===== verification/Pop3Props.thy ===== *)
theory Pop3Props
  imports Pop3 "HOL-Library.Multiset"
begin

text \<open>
  Properties of the POP3 daemon: the invariant of every reachable session and what it gives
  (nothing without a login, no credentials in clear text when TLS is configured, deletion marks
  within the mailbox), the effect of QUIT on the store, and the wire format of responses.
\<close>

section \<open>The session invariant\<close>

definition logged_in :: "'s pop3_env \<Rightarrow> pop3_session \<Rightarrow> bool" where
  "logged_in env s = (\<exists>u p mb. env_login env u p (clientIP s) = Some mb \<and>
                               authenticatedUser s = Some (u, mb))"

definition marks_ok :: "pop3_session \<Rightarrow> bool" where
  "marks_ok s = (case messageList s of
       None \<Rightarrow> deletedSet s = []
     | Some ms \<Rightarrow> distinct (deletedSet s) \<and> set (deletedSet s) \<subseteq> {1..int (length ms)})"

definition clear_text_ok :: "pop3_session \<Rightarrow> bool" where
  "clear_text_ok s = (tlsConfig s \<and> tlsState s = TLSStateNone \<longrightarrow>
     state s = StateAuthorization \<and> username s = [] \<and> \<not> saslServer s)"

definition pop3_inv :: "'s pop3_env \<Rightarrow> pop3_session \<Rightarrow> bool" where
  "pop3_inv env s = ((state s \<noteq> StateAuthorization \<longrightarrow> logged_in env s) \<and> marks_ok s \<and>
     clear_text_ok s \<and> insecureAuth s = (\<not> tlsConfig s) \<and>
     (state s = StateAuthorization \<longrightarrow> messageList s = None \<and> store s = None) \<and>
     (saslServer s \<longrightarrow> state s = StateAuthorization))"

lemmas pop3_inv_defs = pop3_inv_def logged_in_def marks_ok_def clear_text_ok_def

lemma InitializeMailbox_frame:
  assumes "InitializeMailbox env st folder s = (s', e)" "authenticatedUser s = Some (u, mb)"
  shows "state s' = state s" "tlsState s' = tlsState s" "tlsConfig s' = tlsConfig s"
    "insecureAuth s' = insecureAuth s" "clientIP s' = clientIP s" "username s' = username s"
    "authenticatedUser s' = Some (u, mb)" "saslServer s' = saslServer s" "deletedSet s' = []"
    "mailbox s' = mb" "store s' \<noteq> None"
  using assms
  by (auto simp: InitializeMailbox_def Let_def split: list_result.splits)

lemma login_inv:
  assumes inv: "pop3_inv env s" and auth: "state s = StateAuthorization"
    and tls: "tlsState s = TLSStateActive \<or> insecureAuth s"
    and login: "env_login env u p (clientIP s) = Some mb"
    and start: "s1 = SetAuthenticated u mb s \<or> s1 = (SetAuthenticated u mb s)\<lparr>username := u\<rparr>"
    and init: "InitializeMailbox env st folder s1 = (s', e)"
    and sasl: "s2 = s' \<and> \<not> saslServer s \<or> s2 = ClearSASL s'"
  shows "pop3_inv env s2"
proof -
  have user: "authenticatedUser s1 = Some (u, mb)" using start by (auto simp: SetAuthenticated_def)
  note f = InitializeMailbox_frame[OF init user]
  have "state s1 = StateTransaction" "tlsState s1 = tlsState s" "tlsConfig s1 = tlsConfig s"
    "insecureAuth s1 = insecureAuth s" "clientIP s1 = clientIP s" "saslServer s1 = saslServer s"
    using start by (auto simp: SetAuthenticated_def)
  then have "state s2 = StateTransaction" "tlsState s2 = tlsState s" "tlsConfig s2 = tlsConfig s"
    "insecureAuth s2 = insecureAuth s" "clientIP s2 = clientIP s" "\<not> saslServer s2"
    "authenticatedUser s2 = Some (u, mb)" "deletedSet s2 = []"
    using f sasl by (auto simp: ClearSASL_def)
  then show ?thesis
    using inv tls login by (auto simp: pop3_inv_defs split: option.splits)
qed

lemma userCommand_inv:
  "pop3_inv env s \<Longrightarrow> pop3_inv env (fst (userCommand args s))"
  by (auto simp: userCommand_def auth_refused_def pop3_inv_defs split: option.splits)

lemma auth_refused_None:
  "auth_refused s = None \<longleftrightarrow>
     state s = StateAuthorization \<and> (tlsState s = TLSStateActive \<or> insecureAuth s)"
  by (auto simp: auth_refused_def)

lemma passCommand_inv:
  assumes "pop3_inv env s" "\<not> saslServer s"
  shows "pop3_inv env (fst (passCommand env st args s))"
proof (cases "auth_refused s = None \<and> username s \<noteq> [] \<and> length args = 1")
  case True
  then have a: "state s = StateAuthorization" "tlsState s = TLSStateActive \<or> insecureAuth s"
    by (auto simp: auth_refused_None)
  show ?thesis
  proof (cases "env_login env (username s) (hd args) (clientIP s)")
    case (Some mb)
    obtain s' e where i: "InitializeMailbox env st [] (SetAuthenticated (username s) mb s) = (s', e)"
      by fastforce
    have "pop3_inv env s'"
      using login_inv[OF assms(1) a Some _ i] assms(2) by blast
    then show ?thesis using True Some i by (auto simp: passCommand_def split: option.splits)
  qed (use assms True in \<open>simp add: passCommand_def\<close>)
qed (use assms in \<open>auto simp: passCommand_def split: option.splits\<close>)

lemma ClearSASL_inv: "pop3_inv env s \<Longrightarrow> pop3_inv env (ClearSASL s)"
  by (auto simp: ClearSASL_def pop3_inv_defs split: option.splits)

lemma processSASLStep_inv:
  assumes "pop3_inv env s" "state s = StateAuthorization" "tlsState s = TLSStateActive \<or> insecureAuth s"
  shows "pop3_inv env (fst (processSASLStep env st input s))"
proof (cases "saslServer s")
  case True
  show ?thesis
  proof (cases "env_sasl env input")
    case (SaslCreds u p)
    show ?thesis
    proof (cases "env_login env u p (clientIP s)")
      case (Some mb)
      obtain s' e where i:
        "InitializeMailbox env st [] ((SetAuthenticated u mb s)\<lparr>username := u\<rparr>) = (s', e)"
        by fastforce
      have "pop3_inv env (ClearSASL s')"
        using login_inv[OF assms Some _ i] by blast
      then show ?thesis
        using True SaslCreds Some i
        by (auto simp: processSASLStep_def saslAuthenticate_def Let_def split: option.splits)
    qed (use True SaslCreds assms in \<open>simp add: processSASLStep_def saslAuthenticate_def ClearSASL_inv\<close>)
  qed (use True assms in \<open>simp_all add: processSASLStep_def ClearSASL_inv\<close>)
qed (use assms in \<open>simp add: processSASLStep_def\<close>)

lemma authCommand_inv:
  assumes "pop3_inv env s"
  shows "pop3_inv env (fst (authCommand env st args s))"
proof (cases "auth_refused s")
  case None
  then have a: "state s = StateAuthorization" "tlsState s = TLSStateActive \<or> insecureAuth s"
    by (auto simp: auth_refused_None)
  have s1: "pop3_inv env (SetSASLServer m s)" "state (SetSASLServer m s) = StateAuthorization"
    "tlsState (SetSASLServer m s) = TLSStateActive \<or> insecureAuth (SetSASLServer m s)" for m
    using assms a by (auto simp: SetSASLServer_def pop3_inv_defs split: option.splits)
  show ?thesis
    using None assms s1(1) processSASLStep_inv[OF s1] ClearSASL_inv[OF s1(1)]
    by (auto simp: authCommand_def Let_def split: option.splits)
qed (use assms in \<open>simp add: authCommand_def\<close>)

lemma sasl_response_inv:
  assumes inv: "pop3_inv env s" and "saslServer s"
  shows "pop3_inv env (fst (ProcessSASLResponse env st line s))"
proof -
  have "state s = StateAuthorization" "tlsState s = TLSStateActive \<or> insecureAuth s"
    using assms by (cases "tlsState s"; auto simp: pop3_inv_def clear_text_ok_def)+
  from processSASLStep_inv[OF inv this] show ?thesis
    by (auto simp: ProcessSASLResponse_def ClearSASL_inv[OF inv] split: option.splits)
qed

lemma quitCommand_session:
  "fst (quitCommand env args s st) = (if args = [] then EnterUpdate s else s)"
  by (simp add: quitCommand_def EnterUpdate_def Let_def
      split: pop3_state.split option.split prod.split bool.split)

lemma EnterUpdate_inv: "pop3_inv env s \<Longrightarrow> pop3_inv env (EnterUpdate s)"
  by (auto simp: EnterUpdate_def pop3_inv_defs split: option.splits)

lemma quitCommand_inv:
  "pop3_inv env s \<Longrightarrow> pop3_inv env (fst (quitCommand env args s st))"
  by (simp add: quitCommand_session EnterUpdate_inv)

lemma pop3_inv_marks:
  "pop3_inv env s \<Longrightarrow> marks_ok (s\<lparr>deletedSet := d\<rparr>) \<Longrightarrow> pop3_inv env (s\<lparr>deletedSet := d\<rparr>)"
  by (simp add: pop3_inv_def logged_in_def clear_text_ok_def)

lemma MarkDeleted_inv:
  assumes "pop3_inv env s"
  shows "pop3_inv env (fst (MarkDeleted n s))"
proof (cases "messageList s")
  case (Some ms)
  have "marks_ok s" using assms by (simp add: pop3_inv_def)
  then have "marks_ok (s\<lparr>deletedSet := deletedSet s @ [n]\<rparr>)"
    if "1 \<le> n" "n \<le> int (length ms)" "n \<notin> set (deletedSet s)"
    using that Some by (simp add: marks_ok_def)
  then show ?thesis
    using assms Some pop3_inv_marks[OF assms] by (simp add: MarkDeleted_def)
qed (use assms in \<open>simp add: MarkDeleted_def\<close>)

lemma deleCommand_inv:
  "pop3_inv env s \<Longrightarrow> pop3_inv env (fst (deleCommand args s))"
  using MarkDeleted_inv[of env s]
  by (simp add: deleCommand_def split: option.split prod.split) (metis fst_conv)

lemma rsetCommand_inv:
  "pop3_inv env s \<Longrightarrow> pop3_inv env (fst (rsetCommand args s))"
  using pop3_inv_marks[of env s "[]"]
  by (simp add: rsetCommand_def ResetDeletions_def Let_def marks_ok_def split: option.split)

lemma Execute_inv:
  assumes "pop3_inv env s" "\<not> saslServer s"
  shows "pop3_inv env (fst (Execute env cmd args s st))"
  using assms userCommand_inv[of env s args] passCommand_inv[of env s st args]
    authCommand_inv[of env s st args] quitCommand_inv[of env s args st]
    deleCommand_inv[of env s args] rsetCommand_inv[of env s args]
  by (cases cmd) (auto split: prod.splits)

lemma SetTLSActive_inv: "pop3_inv env s \<Longrightarrow> pop3_inv env (SetTLSActive s)"
  by (auto simp: SetTLSActive_def pop3_inv_defs split: option.splits)

text \<open>What one turn of the loop can do to the session and to the store.\<close>

inductive turn :: "'s pop3_env \<Rightarrow> pop3_session \<Rightarrow> 's \<Rightarrow> pop3_session \<Rightarrow> 's \<Rightarrow> bool" for env where
  idle: "turn env s st s st"
| sasl: "saslServer s \<Longrightarrow> turn env s st (fst (ProcessSASLResponse env st line s)) st"
| exec: "\<not> saslServer s \<Longrightarrow> Execute env cmd args s st = (s', st', r) \<Longrightarrow> turn env s st s' st'"
| upgrade: "\<not> saslServer s \<Longrightarrow> Execute env STLS args s st = (s', st', r) \<Longrightarrow> r_OK r \<Longrightarrow>
            turn env s st (SetTLSActive s') st'"

lemma GetCommand_STLS: "GetCommand ''STLS'' = Some STLS"
  by (simp add: GetCommand_def commandRegistry_def ToUpper_def byte_upper_def)

lemma handle_line_turn:
  assumes "handle_line env l s st = (s', st', out, c)"
  shows "turn env s st s' st'"
proof (cases "TrimSpace l = []")
  case True
  then show ?thesis using assms by (simp add: handle_line_def turn.idle)
next
  case line: False
  show ?thesis
  proof (cases "saslServer s")
    case True
    then show ?thesis
      using assms line turn.sasl[OF True, of env st "TrimSpace l"]
      by (simp add: handle_line_def split: prod.split_asm)
  next
    case sasl: False
    show ?thesis
    proof (cases "ParseCommand (TrimSpace l)")
      case None
      then show ?thesis using assms line sasl by (simp add: handle_line_def turn.idle)
    next
      case (Some p)
      obtain name args where p: "p = (name, args)" by fastforce
      show ?thesis
      proof (cases "GetCommand name")
        case None
        then show ?thesis using assms line sasl Some p by (simp add: handle_line_def turn.idle)
      next
        case (Some cmd)
        obtain s1 st1 r where x: "Execute env cmd args s st = (s1, st1, r)" by (metis prod_cases3)
        have "st' = st1 \<and> (s' = s1 \<or> s' = SetTLSActive s1 \<and> r_OK r \<and> cmd = STLS)"
          using assms line sasl \<open>ParseCommand _ = Some p\<close> p Some x GetCommand_STLS
          by (auto simp: handle_line_def Let_def split: if_split_asm)
        then show ?thesis using turn.exec[OF sasl x] turn.upgrade[OF sasl, of env args st s1 st1 r] x by auto
      qed
    qed
  qed
qed

lemma turn_inv:
  assumes "turn env s st s' st'" "pop3_inv env s"
  shows "pop3_inv env s'"
  using assms
proof cases
  case (exec cmd args r)
  then show ?thesis using Execute_inv[OF assms(2), of cmd args st] by simp
next
  case (upgrade args s1 r)
  then show ?thesis using Execute_inv[OF assms(2), of STLS args st] SetTLSActive_inv by simp
qed (simp_all add: sasl_response_inv)

lemma handle_line_inv:
  "pop3_inv env s \<Longrightarrow> handle_line env l s st = (s', st', out, c) \<Longrightarrow> pop3_inv env s'"
  by (blast intro: turn_inv handle_line_turn)

lemma handle_lines_inv:
  "pop3_inv env s \<Longrightarrow> handle_lines env ls s st = (s', st', out) \<Longrightarrow> pop3_inv env s'"
proof (induction env ls s st arbitrary: s' st' out rule: handle_lines.induct)
  case (2 env l ls s st)
  obtain s1 st1 o1 c where h: "handle_line env l s st = (s1, st1, o1, c)"
    by (metis prod_cases4)
  have "pop3_inv env s1" by (rule handle_line_inv[OF 2(2) h])
  with 2(1)[OF h[symmetric] refl refl] 2(3) h show ?case
    by (cases c) (auto split: prod.splits)
qed simp

lemma NewSession_inv: "pop3_inv env (NewSession host mode tls isTLS)"
  by (simp add: NewSession_def pop3_inv_defs)

lemma NewSession_ip_inv: "pop3_inv env ((NewSession host mode tls isTLS)\<lparr>clientIP := ip\<rparr>)"
  by (simp add: NewSession_def pop3_inv_defs)

section \<open>What commands can do to the store\<close>

text \<open>The commands a client can name in a line, as the loop sees them.\<close>

definition quits :: "string \<Rightarrow> bool" where
  "quits l = (case ParseCommand (TrimSpace l) of None \<Rightarrow> False | Some (name, _) \<Rightarrow> name = ''QUIT'')"

lemma Execute_store: "cmd \<noteq> QUIT \<Longrightarrow> fst (snd (Execute env cmd args s st)) = st"
  by (cases cmd) (simp_all split: prod.split)

lemma ToUpper_idem [simp]: "ToUpper (ToUpper x) = ToUpper x"
proof -
  have "byte_upper (byte_upper c) = byte_upper c" for c
    by (auto simp: byte_upper_def Let_def)
  then show ?thesis by (simp add: ToUpper_def comp_def)
qed

lemma ParseCommand_upper: "ParseCommand l = Some (name, args) \<Longrightarrow> ToUpper name = name"
  by (auto simp: ParseCommand_def Let_def split: if_splits list.splits)

lemma GetCommand_QUIT:
  assumes "ParseCommand l = Some (name, args)" "GetCommand name = Some QUIT"
  shows "name = ''QUIT''"
  using assms(2) ParseCommand_upper[OF assms(1)]
  by (auto simp: GetCommand_def commandRegistry_def split: if_splits)

lemma handle_line_store:
  assumes "\<not> quits l" "handle_line env l s st = (s', st', out, c)"
  shows "st' = st"
proof (cases "TrimSpace l = [] \<or> saslServer s \<or> ParseCommand (TrimSpace l) = None")
  case True
  then show ?thesis using assms(2) by (auto simp: handle_line_def Let_def split: prod.splits if_splits)
next
  case False
  then obtain name args where p: "ParseCommand (TrimSpace l) = Some (name, args)" by auto
  show ?thesis
  proof (cases "GetCommand name")
    case None
    then show ?thesis using assms(2) False p by (simp add: handle_line_def)
  next
    case (Some cmd)
    have "cmd \<noteq> QUIT"
      using GetCommand_QUIT[OF p] Some assms(1) p by (auto simp: quits_def)
    then have "fst (snd (Execute env cmd args s st)) = st" by (rule Execute_store)
    then show ?thesis
      using assms(2) False p Some by (auto simp: handle_line_def Let_def split: prod.splits if_splits)
  qed
qed

lemma handle_lines_store:
  "list_all (\<lambda>l. \<not> quits l) ls \<Longrightarrow> handle_lines env ls s st = (s', st', out) \<Longrightarrow> st' = st"
proof (induction env ls s st arbitrary: s' st' out rule: handle_lines.induct)
  case (2 env l ls s st)
  obtain s1 st1 o1 c where h: "handle_line env l s st = (s1, st1, o1, c)"
    by (metis prod_cases4)
  have "st1 = st" using handle_line_store[OF _ h] 2(2) by simp
  with 2(1)[OF h[symmetric] refl refl] 2(2,3) h show ?case
    by (cases c) (auto split: prod.splits)
qed simp

lemma delete_all_fst:
  "fst (delete_all ops route mb us st ok) = foldl (\<lambda>t u. fst (op_delete ops t route mb u)) st us"
  by (induction us arbitrary: st ok) (auto split: prod.splits)

lemma delete_all_snd:
  "snd (delete_all ops route mb us st ok) \<longleftrightarrow>
     ok \<and> (\<forall>i < length us. snd (op_delete ops (foldl (\<lambda>t u. fst (op_delete ops t route mb u)) st (take i us))
                               route mb (us ! i)))"
proof (induction us arbitrary: st ok)
  case (Cons u us)
  obtain st' d where "op_delete ops st route mb u = (st', d)" by fastforce
  then show ?case
    using Cons[of st' "ok \<and> d"] by (auto simp: nth_Cons' take_Cons' less_Suc_eq_0_disj)
qed simp

section \<open>Numbered messages\<close>

lemma length_numbered [simp]: "length (numbered ms) = length ms"
  by (simp add: numbered_def del: upt_Suc)

lemma nth_numbered [simp]: "i < length ms \<Longrightarrow> numbered ms ! i = (int i + 1, ms ! i)"
  by (simp add: numbered_def del: upt_Suc)

lemma in_numbered_iff: "(n, m) \<in> set (numbered ms) \<longleftrightarrow> 1 \<le> n \<and> n \<le> int (length ms) \<and> m = ms ! nat (n - 1)"
proof
  assume "(n, m) \<in> set (numbered ms)"
  then obtain i where "i < length ms" "(n, m) = (int i + 1, ms ! i)"
    by (metis in_set_conv_nth length_numbered nth_numbered)
  then show "1 \<le> n \<and> n \<le> int (length ms) \<and> m = ms ! nat (n - 1)" by simp
next
  assume a: "1 \<le> n \<and> n \<le> int (length ms) \<and> m = ms ! nat (n - 1)"
  then have "nat (n - 1) < length ms" "numbered ms ! nat (n - 1) = (n, m)" by auto
  then show "(n, m) \<in> set (numbered ms)" by (metis length_numbered nth_mem)
qed

lemma foldl_count: "foldl (\<lambda>c (n, m). if P n then c + 1 else c) (a :: int) xs =
    a + int (length (filter (\<lambda>(n, m). P n) xs))"
  by (induction xs arbitrary: a) auto

lemma foldl_size: "foldl (\<lambda>t (n, m). if P n then t + f m else t) (a :: int) xs =
    a + sum_list (map (\<lambda>(n, m). f m) (filter (\<lambda>(n, m). P n) xs))"
  by (induction xs arbitrary: a) auto

lemma MessageCount_AllMessages: "MessageCount s = int (length (AllMessages s))"
  by (simp add: MessageCount_def AllMessages_def live_messages_def foldl_count split: option.split)

lemma TotalSize_AllMessages: "TotalSize s = sum_list (map (mi_Size \<circ> snd) (AllMessages s))"
  by (simp add: TotalSize_def AllMessages_def live_messages_def foldl_size split: option.split)
     (simp add: comp_def case_prod_unfold)

lemma GetMessage_AllMessages: "GetMessage s n = Inr m \<longleftrightarrow> (n, m) \<in> set (AllMessages s)"
  by (auto simp: GetMessage_def AllMessages_def live_messages_def in_numbered_iff split: option.split)

section \<open>The parameters of the connection never change\<close>

definition conn_params :: "pop3_session \<Rightarrow> string \<times> bool" where
  "conn_params s = (clientIP s, tlsConfig s)"

lemma InitializeMailbox_params:
  assumes "authenticatedUser s = Some (u, mb)"
  shows "conn_params (fst (InitializeMailbox env st folder s)) = conn_params s"
proof -
  obtain s' e where i: "InitializeMailbox env st folder s = (s', e)" by fastforce
  show ?thesis using InitializeMailbox_frame(3,5)[OF i assms] i by (simp add: conn_params_def)
qed


lemma conn_params_update [simp]:
  "conn_params (s\<lparr>username := x\<rparr>) = conn_params s" "conn_params (ClearSASL s) = conn_params s"
  "conn_params (SetAuthenticated u mb s) = conn_params s" "conn_params (SetSASLServer m s) = conn_params s"
  "conn_params (SetTLSActive s) = conn_params s" "conn_params (EnterUpdate s) = conn_params s"
  "conn_params (s\<lparr>deletedSet := d\<rparr>) = conn_params s"
  by (simp_all add: conn_params_def ClearSASL_def SetAuthenticated_def SetSASLServer_def
      SetTLSActive_def EnterUpdate_def)

lemma authenticatedUser_update [simp]:
  "authenticatedUser (SetAuthenticated u mb s) = Some (u, mb)"
  by (simp add: SetAuthenticated_def)

lemma saslAuthenticate_ip: "conn_params (fst (saslAuthenticate env st u p s)) = conn_params s"
proof (cases "env_login env u p (clientIP s)")
  case (Some mb)
  have "conn_params (fst (InitializeMailbox env st [] ((SetAuthenticated u mb s)\<lparr>username := u\<rparr>))) =
      conn_params s"
    by (subst InitializeMailbox_params[of _ u mb]) simp_all
  then show ?thesis
    using Some by (auto simp: saslAuthenticate_def Let_def split: prod.splits option.splits)
qed (simp add: saslAuthenticate_def)

lemma processSASLStep_ip: "conn_params (fst (processSASLStep env st input s)) = conn_params s"
proof (cases "env_sasl env input")
  case (SaslCreds u p)
  then show ?thesis
    using saslAuthenticate_ip[of env st u p s]
    by (cases "saslAuthenticate env st u p s") (auto simp: processSASLStep_def split: bool.splits)
qed (simp_all add: processSASLStep_def)

lemma passCommand_ip: "conn_params (fst (passCommand env st args s)) = conn_params s"
proof (cases "env_login env (username s) (hd args) (clientIP s)")
  case (Some mb)
  have "conn_params (fst (InitializeMailbox env st [] (SetAuthenticated (username s) mb s))) = conn_params s"
    by (subst InitializeMailbox_params[of _ "username s" mb]) simp_all
  then show ?thesis
    using Some by (auto simp: passCommand_def split: prod.splits option.splits)
qed (simp add: passCommand_def split: option.split)

lemma authCommand_ip: "conn_params (fst (authCommand env st args s)) = conn_params s"
  by (simp add: authCommand_def Let_def processSASLStep_ip split: option.split)

lemma Execute_ip: "conn_params (fst (Execute env cmd args s st)) = conn_params s"
proof (cases cmd)
  case PASS
  then show ?thesis
    using passCommand_ip[of env st args s] by (cases "passCommand env st args s") simp
next
  case AUTH
  then show ?thesis
    using authCommand_ip[of env st args s] by (cases "authCommand env st args s") simp
next
  case QUIT
  then show ?thesis by (simp add: quitCommand_session)
next
  case USER
  then show ?thesis by (auto simp: userCommand_def split: option.splits)
next
  case DELE
  then show ?thesis by (auto simp: deleCommand_def MarkDeleted_def split: option.splits)
next
  case RSET
  then show ?thesis by (auto simp: rsetCommand_def ResetDeletions_def Let_def)
qed simp_all

lemma turn_ip:
  assumes "turn env s st s' st'"
  shows "conn_params s' = conn_params s"
  using assms
proof cases
  case (sasl line)
  then show ?thesis
    by (simp add: ProcessSASLResponse_def processSASLStep_ip split: option.split)
next
  case (exec cmd args r)
  then show ?thesis using Execute_ip[of env cmd args s st] by simp
next
  case (upgrade args s1 r)
  then show ?thesis using Execute_ip[of env STLS args s st] by simp
qed simp

lemma handle_lines_ip:
  "handle_lines env ls s st = (s', st', out) \<Longrightarrow> conn_params s' = conn_params s"
proof (induction env ls s st arbitrary: s' st' out rule: handle_lines.induct)
  case (2 env l ls s st)
  obtain s1 st1 o1 c where h: "handle_line env l s st = (s1, st1, o1, c)"
    by (metis prod_cases4)
  have "conn_params s1 = conn_params s" using turn_ip[OF handle_line_turn[OF h]] .
  with 2(1)[OF h[symmetric] refl refl] 2(2) h show ?case
    by (cases c) (auto split: prod.splits)
qed simp

section \<open>The wire format\<close>

text \<open>What a POP3 client does with a multi-line response (RFC 1939, section 3): read lines up to CRLF,
  stop at a lone dot, drop the dot of a stuffed line.\<close>

fun cut_crlf :: "string \<Rightarrow> (string \<times> string) option" where
  "cut_crlf [] = None"
| "cut_crlf [c] = None"
| "cut_crlf (c # d # s) =
     (if c = CHR 13 \<and> d = CHR 10 then Some ([], s)
      else map_option (\<lambda>(a, b). (c # a, b)) (cut_crlf (d # s)))"

lemma cut_crlf_shorter: "cut_crlf s = Some (l, rest) \<Longrightarrow> length rest < length s"
  by (induction s arbitrary: l rule: cut_crlf.induct) (auto split: if_splits)

function read_body :: "string \<Rightarrow> (string list \<times> string) option" where
  "read_body s = (case cut_crlf s of
       None \<Rightarrow> None
     | Some (l, rest) \<Rightarrow>
         if l = ''.'' then Some ([], rest)
         else map_option (apfst (Cons (if HasPrefix l ''.'' then tl l else l))) (read_body rest))"
  by pat_completeness auto
termination by (relation "measure length") (auto simp: cut_crlf_shorter)

declare read_body.simps [simp del]

definition read_multiline :: "string \<Rightarrow> (string \<times> string list \<times> string) option" where
  "read_multiline s = (case cut_crlf s of
       None \<Rightarrow> None
     | Some (status, rest) \<Rightarrow> map_option (\<lambda>(ls, r). (status, ls, r)) (read_body rest))"

definition no_crlf :: "string \<Rightarrow> bool" where
  "no_crlf l = (CHR 13 \<notin> set l \<and> CHR 10 \<notin> set l)"

lemma cut_crlf_line [simp]: "no_crlf l \<Longrightarrow> cut_crlf (l @ crlf @ s) = Some (l, s)"
proof (induction l)
  case (Cons c l)
  then obtain d t where dt: "l @ crlf @ s = d # t" by (cases "l @ crlf @ s") (auto simp: crlf_def)
  have "cut_crlf (l @ crlf @ s) = Some (l, s)" using Cons by (simp add: no_crlf_def)
  then show ?case using Cons.prems dt by (auto simp: no_crlf_def)
qed (simp add: crlf_def)

lemma read_body_lines:
  "list_all no_crlf ls \<Longrightarrow>
   read_body (concat (map stuff_line ls) @ ''.'' @ crlf @ rest) = Some (ls, rest)"
proof (induction ls)
  case Nil
  have "cut_crlf (''.'' @ crlf @ rest) = Some (''.'', rest)"
    by (rule cut_crlf_line) (simp add: no_crlf_def)
  then show ?case by (subst read_body.simps) simp
next
  case (Cons l ls)
  define tail where "tail = concat (map stuff_line ls) @ ''.'' @ crlf @ rest"
  define l' where "l' = (if HasPrefix l ''.'' then ''.'' else []) @ l"
  have s: "concat (map stuff_line (l # ls)) @ ''.'' @ crlf @ rest = l' @ crlf @ tail"
    by (simp add: stuff_line_def tail_def l'_def)
  have "no_crlf l'" using Cons.prems by (auto simp: no_crlf_def l'_def)
  then have c: "cut_crlf (l' @ crlf @ tail) = Some (l', tail)" by simp
  have "l' \<noteq> ''.''" "(if HasPrefix l' ''.'' then tl l' else l') = l"
    by (cases l; auto simp: l'_def HasPrefix_def)+
  moreover have "read_body tail = Some (ls, rest)" using Cons by (simp add: tail_def)
  ultimately show ?case unfolding s by (subst read_body.simps) (simp add: c)
qed

lemma read_multiline_response:
  assumes "no_crlf msg" "list_all no_crlf ls" "ls \<noteq> []"
  shows "read_multiline (response_String (resp_ok msg ls) @ rest) =
           Some (''+OK'' @ (if msg \<noteq> [] then '' '' @ msg else []), ls, rest)"
proof -
  define status where "status = ''+OK'' @ (if msg \<noteq> [] then '' '' @ msg else [])"
  define body where "body = concat (map stuff_line ls) @ ''.'' @ crlf @ rest"
  have eq: "response_String (resp_ok msg ls) @ rest = status @ crlf @ body"
    using assms(3) by (simp add: response_String_def resp_ok_def status_def body_def)
  have "no_crlf status" using assms(1) by (auto simp: no_crlf_def status_def)
  then have c: "cut_crlf (status @ crlf @ body) = Some (status, body)" by simp
  have "read_body body = Some (ls, rest)" unfolding body_def by (rule read_body_lines[OF assms(2)])
  then show ?thesis unfolding read_multiline_def eq c status_def[symmetric] by simp
qed

lemma splitMessageLines_no_crlf: "list_all no_crlf (splitMessageLines content)"
proof -
  let ?c = "map (\<lambda>x. if x = CHR 13 then CHR 10 else x) (crlf_to_lf content)"
  have "CHR 13 \<notin> set ?c" by auto
  then have "no_crlf l" if "l \<in> set (SplitByte (CHR 10) ?c)" for l
    using SplitByte_pieces[OF that] SplitByte_subset[OF that] by (auto simp: no_crlf_def)
  then show ?thesis
    by (auto simp: splitMessageLines_def Let_def list_all_iff dest: in_set_butlastD)
qed

lemma top_loop_body:
  "0 \<le> c \<Longrightarrow> top_loop n True c ls = (take (nat (n - c)) ls, int (length ls) > n - c \<and> ls \<noteq> [])"
proof (induction ls arbitrary: c)
  case (Cons l ls)
  show ?case
  proof (cases "c \<ge> n")
    case False
    then have "nat (n - c) = Suc (nat (n - (c + 1)))" by simp
    then show ?thesis using Cons False by (auto simp: apfst_def map_prod_def)
  qed simp
qed simp

lemma top_loop_header:
  "fst (top_loop n False 0 ls) =
     takeWhile (\<lambda>l. l \<noteq> []) ls @
     (case dropWhile (\<lambda>l. l \<noteq> []) ls of [] \<Rightarrow> [] | e # body \<Rightarrow> e # take (nat n) body)"
  by (induction ls) (auto simp: top_loop_body)

section \<open>Properties\<close>

text \<open>A session that a client has driven with the lines \<open>ls\<close>.\<close>

definition pop3_reached ::
  "'s pop3_env \<Rightarrow> string \<Rightarrow> bool \<Rightarrow> bool \<Rightarrow> string \<Rightarrow> string list \<Rightarrow> 's \<Rightarrow> pop3_session \<times> 's \<times> string" where
  "pop3_reached env host tls isTLS ip ls st =
     handle_lines env ls
       ((NewSession host (if isTLS then ModePop3s else ModePop3) tls isTLS)\<lparr>clientIP := ip\<rparr>) st"

lemma reached_inv:
  assumes "pop3_reached env host tls isTLS ip ls st = (s, st', out)"
  shows "pop3_inv env s" "clientIP s = ip" "tlsConfig s = tls"
  using handle_lines_inv[OF NewSession_ip_inv assms[unfolded pop3_reached_def]]
    handle_lines_ip[OF assms[unfolded pop3_reached_def]] by (simp_all add: conn_params_def NewSession_def)

text \<open>A concrete environment for the examples below: one account, a store that is the list of the UIDs
  it holds, and the PLAIN library refusing everything.\<close>

definition demo_info :: "uint32 \<Rightarrow> messageInfo" where
  "demo_info u = \<lparr>mi_UID = u, mi_Key = [], mi_Size = 10, mi_Flags = [], mi_Date = 0\<rparr>"

definition demo_ops :: "uint32 list store_ops" where
  "demo_ops = \<lparr>op_list = \<lambda>st r mb. ListMsgs (map demo_info st),
               op_retrieve = \<lambda>st r mb u. RetrAll ''Subject: x'',
               op_delete = \<lambda>st r mb u. (removeAll u st, True),
               op_expunge = \<lambda>st r mb. (st, True), op_folders = None\<rparr>"

definition demo_env :: "uint32 list pop3_env" where
  "demo_env = \<lparr>env_login = \<lambda>u p ip. if u = ''al'' \<and> p = ''pw'' then Some ''al@x'' else None,
               env_sasl = \<lambda>_. SaslMalformed, env_ops = demo_ops, env_order = (\<lambda>xs. xs),
               env_tls_ok = True\<rparr>"

definition demo_session :: "int list \<Rightarrow> pop3_session" where
  "demo_session del = \<lparr>state = StateTransaction, tlsState = TLSStateActive, hostname = ''h'',
     listenerMode = ModePop3s, tlsConfig = True, insecureAuth = False, clientIP = ''9'', username = ''al'',
     authenticatedUser = Some (''al'', ''al@x''), saslServer = False, saslMech = [], mailbox = ''al@x'',
     store = Some None, messageList = Some [demo_info 7, demo_info 8], deletedSet = del\<rparr>"

lemmas pop3_eval =
  handle_line_def ParseCommand_def GetCommand_def commandRegistry_def userCommand_def passCommand_def
  deleCommand_def auth_refused_def InitializeMailbox_def SetAuthenticated_def MarkDeleted_def
  NewSession_def demo_env_def demo_ops_def demo_session_def ToUpper_def byte_upper_def go_eval

lemma demo_login:
  "fst (pop3_reached demo_env ''h'' True True ''9'' [''USER al'', ''PASS pw''] [7, 8]) = demo_session []"
  by (simp add: pop3_reached_def pop3_eval)

lemma demo_dele:
  "fst (pop3_reached demo_env ''h'' True True ''9'' [''USER al'', ''PASS pw'', ''DELE 2''] [7, 8]) =
     demo_session [2]"
  by (simp add: pop3_reached_def pop3_eval)

lemma GetDeletedUIDs_marked:
  assumes "messageList s = Some ms" "marks_ok s" "mset (env_order env (deletedSet s)) = mset (deletedSet s)"
  shows "mset (GetDeletedUIDs env s) = image_mset (\<lambda>n. mi_UID (ms ! nat (n - 1))) (mset (deletedSet s))"
proof -
  let ?o = "env_order env (deletedSet s)"
  have "set ?o = set (deletedSet s)" using assms(3) by (metis set_mset_mset)
  then have "filter (\<lambda>n. 1 \<le> n \<and> n \<le> int (length ms)) ?o = ?o"
    using assms(1,2) by (auto simp: marks_ok_def filter_id_conv)
  then show ?thesis using assms(1,3) by (simp add: GetDeletedUIDs_def flip: mset_map)
     (metis (no_types, lifting) assms(3) mset_map)
qed









text \<open>DELE hides one message and renumbers nothing.  After a DELE that answers \<open>+OK\<close>, the messages the
  session shows are the former ones without the named one, with their numbers unchanged; the counts
  of STAT drop by one message and by its size; and RSET brings every message of the mailbox back.\<close>

theorem pop3_dele_and_rset:
  assumes "messageList s = Some ms" "r_OK (snd (deleCommand [arg] s))"
  shows "\<exists>n m. Atoi arg = Some n \<and> (n, m) \<in> set (AllMessages s) \<and>
     AllMessages (fst (deleCommand [arg] s)) = filter (\<lambda>(k, _). k \<noteq> n) (AllMessages s) \<and>
     MessageCount (fst (deleCommand [arg] s)) = MessageCount s - 1 \<and>
     TotalSize (fst (deleCommand [arg] s)) = TotalSize s - mi_Size m \<and>
     AllMessages (fst (rsetCommand [] (fst (deleCommand [arg] s)))) = numbered ms"
proof -
  obtain n where n: "Atoi arg = Some n" "1 \<le> n" "n \<le> int (length ms)" "n \<notin> set (deletedSet s)"
    and st: "state s = StateTransaction"
    and s': "fst (deleCommand [arg] s) = s\<lparr>deletedSet := deletedSet s @ [n]\<rparr>"
    using assms
    by (auto simp: deleCommand_def MarkDeleted_def bad_state_def resp_err_def
        split: if_split_asm option.split_asm)
  let ?m = "ms ! nat (n - 1)" and ?A = "AllMessages s"
  have mem: "(n, ?m) \<in> set ?A"
    using n assms(1) by (simp add: AllMessages_def live_messages_def in_numbered_iff)
  have flt: "AllMessages (fst (deleCommand [arg] s)) = filter (\<lambda>(k, _). k \<noteq> n) ?A"
    unfolding s' using assms(1)
    by (simp add: AllMessages_def live_messages_def conj_commute case_prod_unfold)
  have "distinct (map fst (numbered ms))"
    by (simp add: numbered_def distinct_map del: upt_Suc)
  then have dist: "distinct (map fst ?A)"
    using assms(1) by (simp add: AllMessages_def live_messages_def distinct_map_filter)
  obtain xs ys where split: "?A = xs @ (n, ?m) # ys" using split_list[OF mem] by blast
  have "distinct (map fst (xs @ (n, ?m) # ys))" using dist unfolding split .
  then have "\<forall>p \<in> set (xs @ ys). fst p \<noteq> n" by (auto simp: image_iff)
  then have "filter (\<lambda>p. fst p \<noteq> n) (xs @ ys) = xs @ ys" by (simp only: filter_id_conv)
  then have flt': "filter (\<lambda>(k, _). k \<noteq> n) ?A = xs @ ys"
    unfolding split case_prod_unfold by simp
  have "AllMessages (fst (rsetCommand [] (fst (deleCommand [arg] s)))) = numbered ms"
    unfolding s' using assms(1) st
    by (simp add: rsetCommand_def ResetDeletions_def AllMessages_def live_messages_def Let_def)
  then show ?thesis
    using n(1) mem flt flt' split
    by (intro exI[of _ n] exI[of _ ?m]) (simp add: MessageCount_AllMessages TotalSize_AllMessages)
qed

theorem pop3_dele_and_rset_witness:
  "\<exists>n m. Atoi ''2'' = Some n \<and> (n, m) \<in> set (AllMessages (demo_session []))"
  using pop3_dele_and_rset[of "demo_session []" "[demo_info 7, demo_info 8]" "''2''"]
  by (auto simp: pop3_eval resp_ok_def)

lemma retrCommand_ok_cases:
  assumes "r_OK (retrCommand env st args s)"
  obtains a n m route content where "args = [a]" "Atoi a = Some n" "GetMessage s n = Inr m"
    "store s = Some route" "op_retrieve (env_ops env) st route (mailbox s) (mi_UID m) = RetrAll content"
    "retrCommand env st args s = resp_ok (fmt_int (mi_Size m) @ '' octets'') (splitMessageLines content)"
proof -
  obtain a where a: "args = [a]" and st: "state s = StateTransaction"
    using assms by (auto simp: retrCommand_def bad_state_def resp_err_def length_Suc_conv split: if_split_asm)
  obtain n where n: "Atoi a = Some n"
    using assms st a by (cases "Atoi a") (auto simp: retrCommand_def resp_err_def)
  obtain m where m: "GetMessage s n = Inr m"
    using assms st a n
    by (cases "GetMessage s n")
       (auto simp: retrCommand_def get_message_or_error_def resp_err_def split: if_split_asm)
  obtain route where route: "store s = Some route"
    using assms st a n m by (cases "store s") (auto simp: retrCommand_def get_message_or_error_def resp_err_def)
  obtain content where "op_retrieve (env_ops env) st route (mailbox s) (mi_UID m) = RetrAll content"
    using assms st a n m route
    by (cases "op_retrieve (env_ops env) st route (mailbox s) (mi_UID m)")
       (auto simp: retrCommand_def get_message_or_error_def resp_err_def)
  with st a n m route show ?thesis
    by (intro that) (simp_all add: retrCommand_def get_message_or_error_def)
qed

lemma no_crlf_octets: "no_crlf (fmt_int i @ '' octets'')"
proof -
  have "\<not> is_digit (CHR 13)" "\<not> is_digit (CHR 10)" by (simp_all add: is_digit_def)
  then show ?thesis using itoa_set_digit by (auto simp: no_crlf_def fmt_int_def)
qed



text \<open>TOP returns the header and the first body lines.  For a message whose lines fit the scanner, the
  lines TOP extracts are the header, the empty line that ends it, and the first \<open>n\<close> lines after it.\<close>

theorem pop3_top_lines:
  assumes "\<not> scan_err content"
  shows "extractTopLines content n = Some (let ls = scan_lines content in
     takeWhile (\<lambda>l. l \<noteq> []) ls @
     (case dropWhile (\<lambda>l. l \<noteq> []) ls of [] \<Rightarrow> [] | e # body \<Rightarrow> e # take (nat n) body))"
  using assms top_loop_header[of n "scan_lines content"]
  by (auto simp: extractTopLines_def Let_def split: prod.splits)

theorem pop3_top_lines_witness:
  "extractTopLines (''H'' @ [CHR 10, CHR 10] @ ''a'' @ [CHR 10] @ ''b'') 1 = Some [''H'', [], ''a'']"
  by (subst pop3_top_lines) (simp_all add: go_eval)

text \<open>An empty listing has no terminator.  In a logged-in session whose mailbox is empty, the answer
  to LIST without an argument is a positive status line with no terminating dot, although the answer
  is a multi-line one: a client that reads it as such finds no end.\<close>

theorem pop3_empty_list_unterminated:
  assumes "state s = StateTransaction" "messageList s = Some []"
  shows "response_String (listCommand [] s) = ''+OK 0 messages (0 octets)'' @ crlf \<and>
         read_multiline (response_String (listCommand [] s)) = None"
proof -
  have l: "listCommand [] s = resp_ok ''0 messages (0 octets)'' []"
    using assms by (simp add: listCommand_def AllMessages_def live_messages_def numbered_def
        MessageCount_def TotalSize_def go_eval)
  have "response_String (listCommand [] s) = ''+OK 0 messages (0 octets)'' @ crlf @ []"
    unfolding l by (simp add: response_String_def resp_ok_def)
  moreover have "cut_crlf (''+OK 0 messages (0 octets)'' @ crlf @ []) = Some (''+OK 0 messages (0 octets)'', [])"
    by (rule cut_crlf_line) (simp add: no_crlf_def)
  moreover have "read_body [] = None" by (subst read_body.simps) simp
  ultimately show ?thesis by (simp add: read_multiline_def)
qed

theorem pop3_empty_list_unterminated_witness:
  "read_multiline (response_String (listCommand [] ((demo_session [])\<lparr>messageList := Some []\<rparr>))) = None"
  by (rule conjunct2[OF pop3_empty_list_unterminated]) (simp_all add: demo_session_def)

text \<open>A login whose mailbox cannot be listed is refused and yet granted.  When the session-manager
  accepts the credentials but the message list fails to load, PASS answers \<open>-ERR\<close> while the session
  has moved to the TRANSACTION state.\<close>

theorem pop3_refused_login_enters_transaction:
  assumes "auth_refused s = None" "username s \<noteq> []"
    and "env_login env (username s) p (clientIP s) = Some mb"
    and "op_list (env_ops env) st None mb = ListErr"
  shows "\<not> r_OK (snd (passCommand env st [p] s)) \<and>
         state (fst (passCommand env st [p] s)) = StateTransaction"
  using assms by (simp add: passCommand_def InitializeMailbox_def SetAuthenticated_def resp_err_def Let_def)

theorem pop3_refused_login_enters_transaction_witness:
  "\<exists>env s. \<not> r_OK (snd (passCommand env ([] :: uint32 list) [''pw''] s)) \<and>
     state (fst (passCommand env [] [''pw''] s)) = StateTransaction"
proof -
  let ?env = "demo_env\<lparr>env_ops := demo_ops\<lparr>op_list := \<lambda>st r mb. ListErr\<rparr>\<rparr>"
  let ?s = "(NewSession ''h'' ModePop3s True True)\<lparr>username := ''al''\<rparr>"
  have "\<not> r_OK (snd (passCommand ?env [] [''pw''] ?s)) \<and>
     state (fst (passCommand ?env [] [''pw''] ?s)) = StateTransaction"
    by (rule pop3_refused_login_enters_transaction[where mb = "''al@x''"])
       (simp_all add: NewSession_def auth_refused_def demo_env_def)
  then show ?thesis by blast
qed

end
