(* ===== verification/Forwards.thy ===== *)
theory Forwards
  imports GoPath
begin

text \<open>
  Mail forwarding rules.

  \<^item> \<open>auth/forwards/forwards.go\<close>: the rule map, its three loaders and its lookups;
  \<^item> \<open>auth/domain/forwarding.go\<close>: the chain of tiers and the agent that accepts forward-only
    addresses;
  \<^item> \<open>auth/domain/forwardedit.go\<close>: validation and editing of the rules of a domain;
  \<^item> \<open>internal/admin/shadow.go\<close>: the report of mailboxes that a catchall captures.

  A file is what opening and reading it gives.  A Go map that is ranged over is the list of its
  entries in the order of the iteration, which the language leaves open: statements hold for every
  order.  The lemmas show that every rule map holds only non-empty lists of trimmed lower-case
  targets, what an edit changes of the resolution, and that the report of captured mailboxes agrees
  with the resolution.
\<close>

section \<open>Rule maps (forwards.go)\<close>

datatype file_read = FileMissing | FileErr | FileBytes string

datatype fwd_error = ErrOpen | ErrRead

record ForwardMap =
  exact :: "string \<rightharpoonup> string list"
  catchall :: "string list"

definition empty_map :: ForwardMap where
  "empty_map = \<lparr>exact = Map.empty, catchall = []\<rparr>"

definition split_targets :: "string \<Rightarrow> string list" where
  "split_targets v = filter (\<lambda>t. t \<noteq> []) (map (\<lambda>t. TrimSpace (ToLower t)) (SplitByte (CHR '','') v))"

definition add_rule :: "string \<Rightarrow> string list \<Rightarrow> ForwardMap \<Rightarrow> ForwardMap" where
  "add_rule key targets m =
     (if key = ''*'' then m\<lparr>catchall := targets\<rparr> else m\<lparr>exact := (exact m)(key \<mapsto> targets)\<rparr>)"

definition load_line :: "string \<Rightarrow> ForwardMap \<Rightarrow> ForwardMap" where
  "load_line text m =
     (let line = TrimSpace text in
      if line = [] \<or> HasPrefix line ''#'' then m
      else case CutByte (CHR '':'') line of
        None \<Rightarrow> m
      | Some (k, v) \<Rightarrow>
          (let key = TrimSpace (ToLower k); targets = split_targets v
           in if targets = [] then m else add_rule key targets m))"

definition Load :: "file_read \<Rightarrow> fwd_error + ForwardMap" where
  "Load f = (case f of
       FileMissing \<Rightarrow> Inr empty_map
     | FileErr \<Rightarrow> Inl ErrOpen
     | FileBytes b \<Rightarrow>
         (let m = fold load_line (scan_lines b) empty_map
          in if scan_err b then Inl ErrRead else Inr m))"

definition LoadTargets :: "file_read \<Rightarrow> fwd_error + string list" where
  "LoadTargets f = (case f of
       FileMissing \<Rightarrow> Inr []
     | FileErr \<Rightarrow> Inl ErrOpen
     | FileBytes b \<Rightarrow>
         (if scan_err b then Inl ErrRead
          else Inr (filter (\<lambda>t. t \<noteq> [] \<and> \<not> HasPrefix t ''#'')
                      (map (\<lambda>l. TrimSpace (ToLower l)) (scan_lines b)))))"

definition from_entry :: "string \<times> string \<Rightarrow> ForwardMap \<Rightarrow> ForwardMap" where
  "from_entry kv fm =
     (let targets = split_targets (snd kv) in
      if targets = [] then fm
      else if fst kv = ''*'' then fm\<lparr>catchall := targets\<rparr>
      else fm\<lparr>exact := (exact fm)(ToLower (fst kv) \<mapsto> targets)\<rparr>)"

definition FromMap :: "(string \<times> string) list \<Rightarrow> ForwardMap" where
  "FromMap m = fold from_entry m empty_map"

definition Resolve :: "ForwardMap \<Rightarrow> string \<Rightarrow> string list option" where
  "Resolve m localpart =
     (case exact m (ToLower localpart) of
        Some targets \<Rightarrow> Some targets
      | None \<Rightarrow> if catchall m \<noteq> [] then Some (catchall m) else None)"

definition HasExact :: "ForwardMap \<Rightarrow> string \<Rightarrow> bool" where
  "HasExact m localpart = (exact m (ToLower localpart) \<noteq> None)"

definition Catchall :: "ForwardMap \<Rightarrow> string list option" where
  "Catchall m = (if catchall m = [] then None else Some (catchall m))"

section \<open>The chain of tiers (forwarding.go)\<close>

record forwardChain =
  adminForwards :: ForwardMap
  domainForwards :: ForwardMap
  userForwardsDir :: string
  defaultForwards :: ForwardMap

definition user_targets :: "(string \<Rightarrow> file_read) \<Rightarrow> string \<Rightarrow> string \<Rightarrow> string list" where
  "user_targets fs dir localpart =
     (case LoadTargets (fs (Join [dir, localpart])) of Inl e \<Rightarrow> [] | Inr ts \<Rightarrow> ts)"

definition chain_resolve :: "(string \<Rightarrow> file_read) \<Rightarrow> forwardChain \<Rightarrow> string \<Rightarrow> string list option" where
  "chain_resolve fs c localpart =
     (case Resolve (adminForwards c) localpart of
        Some ts \<Rightarrow> Some ts
      | None \<Rightarrow> (case Resolve (domainForwards c) localpart of
          Some ts \<Rightarrow> Some ts
        | None \<Rightarrow>
            (if userForwardsDir c \<noteq> [] \<and> user_targets fs (userForwardsDir c) localpart \<noteq> []
             then Some (user_targets fs (userForwardsDir c) localpart)
             else Resolve (defaultForwards c) localpart)))"

text \<open>The agent consults the accounts first; \<open>None\<close> is an error of the inner agent.\<close>

definition agent_UserExists ::
  "(string \<Rightarrow> bool option) \<Rightarrow> (string \<Rightarrow> file_read) \<Rightarrow> forwardChain \<Rightarrow> string \<Rightarrow> bool option" where
  "agent_UserExists inner fs c username =
     (case inner username of
        None \<Rightarrow> None
      | Some True \<Rightarrow> Some True
      | Some False \<Rightarrow> Some (chain_resolve fs c username \<noteq> None))"

section \<open>Editing the rules of a domain (forwardedit.go)\<close>

datatype edit_error =
  ErrMultiTargetForward | ErrInvalidForwardTarget | ErrEmptyLocalpart | ErrDomainNotFound
| ErrLoadConfig | ErrWriteConfig

definition ValidateForwardTarget :: "string \<Rightarrow> edit_error + string" where
  "ValidateForwardTarget target =
     (let t = TrimSpace target in
      if t = [] then Inl ErrInvalidForwardTarget
      else if CHR '','' \<in> set t \<or> length (Fields t) \<noteq> 1 then Inl ErrMultiTargetForward
      else case CutByte (CHR ''@'') (ToLower t) of
        None \<Rightarrow> Inl ErrInvalidForwardTarget
      | Some (lp, rest) \<Rightarrow>
          (if lp = [] \<or> rest = [] \<or> CHR ''@'' \<in> set rest then Inl ErrInvalidForwardTarget
           else Inr (ToLower t)))"

text \<open>The part of the file system that the editor touches: which domain directories exist and what
  each configuration file holds.  A stored configuration is its forwarding table and the rest.\<close>

datatype 'c cfg_file = CfgMissing | CfgBad | Cfg 'c "string \<rightharpoonup> string"

record 'c cfg_tree =
  dirs :: "string \<Rightarrow> bool"
  cfgs :: "string \<Rightarrow> 'c cfg_file"

definition domainConfigPath :: "string \<Rightarrow> string \<Rightarrow> string" where
  "domainConfigPath domainsPath domain = Join [domainsPath, ToLower (TrimSpace domain), ''config.toml'']"

definition loadOrEmptyDomainConfig :: "'c \<Rightarrow> 'c cfg_file \<Rightarrow> ('c \<times> (string \<rightharpoonup> string)) option" where
  "loadOrEmptyDomainConfig zero f =
     (case f of CfgMissing \<Rightarrow> Some (zero, Map.empty) | CfgBad \<Rightarrow> None | Cfg c m \<Rightarrow> Some (c, m))"

definition requireDomainDir :: "string \<Rightarrow> 'c cfg_tree \<Rightarrow> bool" where
  "requireDomainDir path t = dirs t (Dir path)"

definition writeDomainConfig ::
  "bool \<Rightarrow> string \<Rightarrow> 'c \<Rightarrow> (string \<rightharpoonup> string) \<Rightarrow> 'c cfg_tree \<Rightarrow> 'c cfg_tree \<times> edit_error option" where
  "writeDomainConfig ok path c m t =
     (if ok then (t\<lparr>cfgs := (cfgs t)(path := Cfg c m)\<rparr>, None) else (t, Some ErrWriteConfig))"

definition ListDomainForwards ::
  "'c \<Rightarrow> string \<Rightarrow> string \<Rightarrow> 'c cfg_tree \<Rightarrow> edit_error + (string \<rightharpoonup> string)" where
  "ListDomainForwards zero domainsPath domain t =
     (case loadOrEmptyDomainConfig zero (cfgs t (domainConfigPath domainsPath domain)) of
        None \<Rightarrow> Inl ErrLoadConfig | Some (c, m) \<Rightarrow> Inr m)"

definition SetDomainForward ::
  "'c \<Rightarrow> bool \<Rightarrow> string \<Rightarrow> string \<Rightarrow> string \<Rightarrow> string \<Rightarrow> 'c cfg_tree \<Rightarrow> 'c cfg_tree \<times> edit_error option" where
  "SetDomainForward zero ok domainsPath domain localpart target t =
     (let lp = ToLower (TrimSpace localpart) in
      if lp = [] then (t, Some ErrEmptyLocalpart)
      else case ValidateForwardTarget target of
        Inl e \<Rightarrow> (t, Some e)
      | Inr normTarget \<Rightarrow>
          (let path = domainConfigPath domainsPath domain in
           if \<not> requireDomainDir path t then (t, Some ErrDomainNotFound)
           else case loadOrEmptyDomainConfig zero (cfgs t path) of
             None \<Rightarrow> (t, Some ErrLoadConfig)
           | Some (c, m) \<Rightarrow> writeDomainConfig ok path c (m(lp \<mapsto> normTarget)) t))"

definition DeleteDomainForward ::
  "'c \<Rightarrow> bool \<Rightarrow> string \<Rightarrow> string \<Rightarrow> string \<Rightarrow> 'c cfg_tree \<Rightarrow> 'c cfg_tree \<times> bool \<times> edit_error option" where
  "DeleteDomainForward zero ok domainsPath domain localpart t =
     (let lp = ToLower (TrimSpace localpart); path = domainConfigPath domainsPath domain in
      if \<not> requireDomainDir path t then (t, False, Some ErrDomainNotFound)
      else case loadOrEmptyDomainConfig zero (cfgs t path) of
        None \<Rightarrow> (t, False, Some ErrLoadConfig)
      | Some (c, m) \<Rightarrow>
          (if m lp = None then (t, False, None)
           else case writeDomainConfig ok path c (m(lp := None)) t of (t', e) \<Rightarrow> (t', True, e)))"

section \<open>Mailboxes captured by a catchall (shadow.go)\<close>

datatype shadow_tier = AdminTier | DomainTier

definition catchallShadow ::
  "(string \<Rightarrow> file_read) \<Rightarrow> ForwardMap \<Rightarrow> ForwardMap \<Rightarrow> string \<Rightarrow> string \<Rightarrow> (shadow_tier \<times> string list) option" where
  "catchallShadow fs adminFwd domainFwd dir localpart =
     (if HasExact adminFwd localpart \<or> HasExact domainFwd localpart then None
      else if user_targets fs dir localpart \<noteq> [] then None
      else case Catchall adminFwd of
        Some ts \<Rightarrow> Some (AdminTier, ts)
      | None \<Rightarrow> map_option (Pair DomainTier) (Catchall domainFwd))"

definition shadowWarnings ::
  "(string \<Rightarrow> file_read) \<Rightarrow> string \<Rightarrow> string \<Rightarrow> (string \<times> string) list option \<Rightarrow> string list option \<Rightarrow>
   (string \<times> shadow_tier \<times> string list) list" where
  "shadowWarnings fs config domainName cfg_forwards users =
     (let domainDir = Join [config, domainName] in
      case users of
        None \<Rightarrow> []
      | Some us \<Rightarrow>
          (let adminFwd = (case cfg_forwards of Some m \<Rightarrow> FromMap m | None \<Rightarrow> FromMap []);
               domainFwd = (case Load (fs (Join [domainDir, ''forwards''])) of
                              Inl e \<Rightarrow> FromMap [] | Inr m \<Rightarrow> m);
               dir = Join [domainDir, ''user_forwards'']
           in List.map_filter
                (\<lambda>u. map_option (Pair u) (catchallShadow fs adminFwd domainFwd dir u)) us))"

section \<open>Normalised targets\<close>

text \<open>A target is what the loaders keep of a written one: trimmed, in lower case and not empty.\<close>

definition target_ok :: "string \<Rightarrow> bool" where
  "target_ok t = (t \<noteq> [] \<and> TrimSpace t = t \<and> ToLower t = t)"

definition fm_ok :: "ForwardMap \<Rightarrow> bool" where
  "fm_ok m = ((\<forall>k ts. exact m k = Some ts \<longrightarrow> ts \<noteq> [] \<and> list_all target_ok ts) \<and>
              list_all target_ok (catchall m))"

lemma byte_lower_idem [simp]: "byte_lower (byte_lower c) = byte_lower c"
  by (auto simp: byte_lower_def Let_def of_char_of take_bit_eq_mod)

lemma is_space_byte_lower [simp]: "is_space (byte_lower c) = is_space c"
  by (auto simp: byte_lower_def is_space_def Let_def of_char_of take_bit_eq_mod)

lemma ToLower_idem [simp]: "ToLower (ToLower s) = ToLower s"
  by (simp add: ToLower_def)

lemma ToLower_Nil_iff [simp]: "ToLower s = [] \<longleftrightarrow> s = []"
  by (simp add: ToLower_def)

lemma dropWhile_space_lower: "dropWhile is_space (map byte_lower s) = map byte_lower (dropWhile is_space s)"
  by (induction s) auto

lemma TrimSpace_ToLower: "TrimSpace (ToLower s) = ToLower (TrimSpace s)"
  by (simp add: TrimSpace_def ToLower_def rev_map dropWhile_space_lower)

lemma dropWhile_rev_dropWhile:
  "dropWhile P (rev (dropWhile P (rev (dropWhile P s)))) = rev (dropWhile P (rev (dropWhile P s)))"
proof (cases "dropWhile P s")
  case (Cons a u)
  have "\<not> P a" using hd_dropWhile[of P s] Cons by simp
  then have "dropWhile P (rev (a # u)) = dropWhile P (rev u) @ [a]" by (simp add: dropWhile_snoc_False)
  then show ?thesis using \<open>\<not> P a\<close> unfolding Cons by simp
next
  case Nil
  show ?thesis unfolding Nil by simp
qed

lemma TrimSpace_idem [simp]: "TrimSpace (TrimSpace s) = TrimSpace s"
  by (simp add: TrimSpace_def dropWhile_rev_dropWhile)

lemma target_ok_norm: "TrimSpace (ToLower t) \<noteq> [] \<Longrightarrow> target_ok (TrimSpace (ToLower t))"
  by (simp add: target_ok_def TrimSpace_ToLower)

lemma split_targets_ok: "list_all target_ok (split_targets v)"
  by (auto simp: split_targets_def list_all_iff target_ok_norm)

lemma fm_ok_empty [simp]: "fm_ok empty_map"
  by (simp add: fm_ok_def empty_map_def)

lemma fm_ok_add_rule: "fm_ok m \<Longrightarrow> ts \<noteq> [] \<Longrightarrow> list_all target_ok ts \<Longrightarrow> fm_ok (add_rule k ts m)"
  by (simp add: fm_ok_def add_rule_def)

lemma fm_ok_load_line: "fm_ok m \<Longrightarrow> fm_ok (load_line l m)"
  by (simp add: load_line_def Let_def fm_ok_add_rule split_targets_ok split: option.split prod.split)

lemma fm_ok_from_entry: "fm_ok m \<Longrightarrow> fm_ok (from_entry kv m)"
  by (simp add: from_entry_def Let_def fm_ok_def split_targets_ok)

lemma fold_invariant_simple: "P a \<Longrightarrow> (\<And>x a. P a \<Longrightarrow> P (f x a)) \<Longrightarrow> P (fold f xs a)"
  by (induction xs arbitrary: a) auto

lemma fm_ok_FromMap [simp]: "fm_ok (FromMap kvs)"
  unfolding FromMap_def by (rule fold_invariant_simple) (simp_all add: fm_ok_from_entry)

lemma fm_ok_Load: "Load f = Inr m \<Longrightarrow> fm_ok m"
  by (auto simp: Load_def Let_def fm_ok_load_line split: file_read.split_asm if_split_asm
      intro: fold_invariant_simple[where P = fm_ok])

lemma user_targets_ok: "list_all target_ok (user_targets fs dir l)"
  by (auto simp: user_targets_def LoadTargets_def list_all_iff target_ok_norm
      split: file_read.split sum.split)

lemma Resolve_ok: "fm_ok m \<Longrightarrow> Resolve m l = Some ts \<Longrightarrow> ts \<noteq> [] \<and> list_all target_ok ts"
  by (auto simp: Resolve_def fm_ok_def split: option.split_asm if_split_asm)

section \<open>Rule maps from tables\<close>

lemma fold_from_entry_catchall:
  "catchall (fold from_entry kvs m) =
     (case map_of (rev (filter (\<lambda>kv. fst kv = ''*'' \<and> split_targets (snd kv) \<noteq> []) kvs)) ''*'' of
        None \<Rightarrow> catchall m | Some v \<Rightarrow> split_targets v)"
  by (induction kvs arbitrary: m) (auto simp: from_entry_def Let_def map_add_def split: option.split)

lemma fold_from_entry_exact:
  assumes "distinct (map (ToLower \<circ> fst) kvs)"
  shows "exact (fold from_entry kvs m) k =
     (if \<exists>(k', v) \<in> set kvs. k' \<noteq> ''*'' \<and> ToLower k' = k \<and> split_targets v \<noteq> []
      then map_option split_targets (map_of (map (\<lambda>(k', v). (ToLower k', v)) kvs) k)
      else exact m k)"
  using assms
proof (induction kvs arbitrary: m)
  case (Cons kv kvs)
  obtain k' v where kv: "kv = (k', v)" by force
  have fresh: "\<not> (\<exists>(k'', v') \<in> set kvs. k'' \<noteq> ''*'' \<and> ToLower k'' = ToLower k' \<and> split_targets v' \<noteq> [])"
    using Cons.prems by (force simp: kv)
  show ?case
  proof (cases "k = ToLower k'")
    case True
    then show ?thesis using Cons fresh by (auto simp: kv from_entry_def Let_def)
  next
    case False
    then have "exact (from_entry kv m) k = exact m k" by (simp add: kv from_entry_def Let_def)
    with False show ?thesis using Cons by (auto simp: kv)
  qed
qed simp

text \<open>When all keys are in lower case the order of the iteration does not matter: the map reads
  each rule off the table.\<close>

definition table_rule :: "(string \<rightharpoonup> string) \<Rightarrow> string \<Rightarrow> string list option" where
  "table_rule m k = (case m k of
       None \<Rightarrow> None
     | Some v \<Rightarrow> if split_targets v = [] then None else Some (split_targets v))"

definition lower_keys :: "(string \<rightharpoonup> string) \<Rightarrow> bool" where
  "lower_keys m = (\<forall>k v. m k = Some v \<longrightarrow> ToLower k = k)"

lemma lower_keys_list:
  assumes "distinct (map fst kvs)" "map_of kvs = m" "lower_keys m"
  shows "map (ToLower \<circ> fst) kvs = map fst kvs"
proof -
  have "ToLower k = k" if "(k, v) \<in> set kvs" for k v
    using assms that by (simp add: lower_keys_def flip: map_of_eq_Some_iff[OF assms(1)])
  then show ?thesis by auto
qed

lemma FromMap_exact:
  assumes "distinct (map fst kvs)" "map_of kvs = m" "lower_keys m"
  shows "exact (FromMap kvs) k = (if k = ''*'' then None else table_rule m k)"
proof -
  have lk: "map (ToLower \<circ> fst) kvs = map fst kvs" using assms by (rule lower_keys_list)
  then have low: "ToLower k' = k'" if "(k', v) \<in> set kvs" for k' v
    using that by (auto simp: map_eq_conv)
  have id: "map (\<lambda>(k', v). (ToLower k', v)) kvs = kvs"
    by (rule map_idI) (auto dest: low)
  have ex: "(\<exists>(k', v) \<in> set kvs. k' \<noteq> ''*'' \<and> ToLower k' = k \<and> split_targets v \<noteq> []) \<longleftrightarrow>
         k \<noteq> ''*'' \<and> (\<exists>v. m k = Some v \<and> split_targets v \<noteq> [])"
    unfolding assms(2)[symmetric] map_of_eq_Some_iff[OF assms(1)] using low by fastforce
  have d: "distinct (map (ToLower \<circ> fst) kvs)" using assms(1) unfolding lk .
  show ?thesis
    unfolding FromMap_def fold_from_entry_exact[OF d] id ex assms(2)
    by (auto simp: table_rule_def empty_map_def split: option.split)
qed

lemma map_of_rev_filter_distinct:
  "distinct (map fst kvs) \<Longrightarrow>
   map_of (rev (filter P kvs)) k = (case map_of kvs k of None \<Rightarrow> None | Some v \<Rightarrow> if P (k, v) then Some v else None)"
proof -
  assume d: "distinct (map fst kvs)"
  then have f: "distinct (map fst (filter P kvs))" by (rule distinct_map_filter)
  then have r: "distinct (map fst (rev (filter P kvs)))" by (simp flip: rev_map)
  have "map_of (rev (filter P kvs)) = map_of (filter P kvs)"
    unfolding map_eq_Some_iff map_of_eq_Some_iff[OF f] map_of_eq_Some_iff[OF r] by simp
  then have "map_of (rev (filter P kvs)) k = map_of (filter P kvs) k" by simp
  also have "\<dots> = (case map_of kvs k of None \<Rightarrow> None | Some v \<Rightarrow> if P (k, v) then Some v else None)"
    using d by (induction kvs) (auto split: option.split, force)
  finally show ?thesis .
qed

lemma FromMap_catchall:
  assumes "distinct (map fst kvs)" "map_of kvs = m"
  shows "catchall (FromMap kvs) = (case table_rule m ''*'' of None \<Rightarrow> [] | Some ts \<Rightarrow> ts)"
  unfolding FromMap_def fold_from_entry_catchall map_of_rev_filter_distinct[OF assms(1)] assms(2)
  by (auto simp: table_rule_def empty_map_def split: option.split)

lemma Resolve_FromMap:
  assumes "distinct (map fst kvs)" "map_of kvs = m" "lower_keys m"
  shows "Resolve (FromMap kvs) l =
    (if ToLower l \<noteq> ''*'' \<and> table_rule m (ToLower l) \<noteq> None then table_rule m (ToLower l)
     else table_rule m ''*'')"
  using assms
  by (auto simp: Resolve_def FromMap_exact FromMap_catchall table_rule_def split: option.split if_splits)

section \<open>Edits\<close>

lemma set_byte_lower_eq: "c \<in> set (ToLower s) \<Longrightarrow> \<exists>d \<in> set s. c = byte_lower d"
  by (auto simp: ToLower_def)

lemma byte_lower_comma: "byte_lower d = CHR '','' \<longleftrightarrow> d = CHR '',''"
proof
  assume *: "byte_lower d = CHR '',''"
  show "d = CHR '',''"
  proof (cases "65 \<le> (of_char d :: nat) \<and> (of_char d :: nat) \<le> 90")
    case True
    then have "(of_char (byte_lower d) :: nat) = of_char d + 32"
      by (simp add: byte_lower_def Let_def of_char_of take_bit_eq_mod)
    then show ?thesis using * True by simp
  next
    case False
    then show ?thesis using * by (auto simp: byte_lower_def Let_def)
  qed
qed (simp add: byte_lower_def Let_def)

lemma split_targets_single:
  assumes "CHR '','' \<notin> set t" "t \<noteq> []" "TrimSpace t = t" "ToLower t = t"
  shows "split_targets t = [t]"
  using assms by (simp add: split_targets_def)

lemma ValidateForwardTarget_ok:
  assumes "ValidateForwardTarget target = Inr n"
  shows "n = ToLower (TrimSpace target)" "split_targets n = [n]" "target_ok n"
proof -
  show n: "n = ToLower (TrimSpace target)"
    using assms by (auto simp: ValidateForwardTarget_def Let_def split: if_split_asm option.split_asm)
  have c: "CHR '','' \<notin> set (TrimSpace target)" and ne: "TrimSpace target \<noteq> []"
    using assms by (auto simp: ValidateForwardTarget_def Let_def split: if_split_asm)
  have "CHR '','' \<notin> set n"
    using c set_byte_lower_eq[of "CHR '',''" "TrimSpace target"] byte_lower_comma unfolding n by metis
  moreover show "target_ok n" using ne by (simp add: n target_ok_def TrimSpace_ToLower)
  ultimately show "split_targets n = [n]" by (simp add: split_targets_single target_ok_def)
qed

lemma SetDomainForward_ok:
  assumes "SetDomainForward zero ok dp d lp target t = (t', None)"
    and "ListDomainForwards zero dp d t = Inr m"
  shows "ListDomainForwards zero dp d t' = Inr (m(ToLower (TrimSpace lp) \<mapsto> ToLower (TrimSpace target)))"
    "ToLower (TrimSpace lp) \<noteq> []" "\<exists>n. ValidateForwardTarget target = Inr n"
proof -
  obtain n where v: "ValidateForwardTarget target = Inr n"
    using assms(1)
    by (cases "ValidateForwardTarget target") (auto simp: SetDomainForward_def Let_def split: if_split_asm)
  have n: "n = ToLower (TrimSpace target)" using v by (rule ValidateForwardTarget_ok(1))
  show "\<exists>n. ValidateForwardTarget target = Inr n" using v by blast
  show "ToLower (TrimSpace lp) \<noteq> []"
    using assms(1) by (auto simp: SetDomainForward_def Let_def split: if_split_asm)
  show "ListDomainForwards zero dp d t' = Inr (m(ToLower (TrimSpace lp) \<mapsto> ToLower (TrimSpace target)))"
    using assms v n
    by (auto simp: SetDomainForward_def ListDomainForwards_def Let_def writeDomainConfig_def
        loadOrEmptyDomainConfig_def split: if_split_asm cfg_file.split_asm)
qed

section \<open>Properties\<close>

text \<open>C35: every resolution gives usable targets.  A chain built from loaded rules resolves an address, at
  whatever tier, to a non-empty list of trimmed, lower-case, non-empty targets.\<close>

theorem forward_targets_normalised:
  assumes "adminForwards c = FromMap a" "Load f = Inr (domainForwards c)" "defaultForwards c = FromMap d"
    and "chain_resolve fs c localpart = Some ts"
  shows "ts \<noteq> [] \<and> (\<forall>t \<in> set ts. t \<noteq> [] \<and> TrimSpace t = t \<and> ToLower t = t)"
proof -
  have "ts \<noteq> [] \<and> list_all target_ok ts"
  proof (cases "Resolve (adminForwards c) localpart = Some ts \<or> Resolve (domainForwards c) localpart = Some ts \<or>
      Resolve (defaultForwards c) localpart = Some ts")
    case True
    then show ?thesis using Resolve_ok fm_ok_FromMap fm_ok_Load[OF assms(2)] assms(1,3) by metis
  next
    case False
    then have "ts = user_targets fs (userForwardsDir c) localpart" "ts \<noteq> []"
      using assms(4) by (auto simp: chain_resolve_def split: option.split_asm if_split_asm)
    then show ?thesis using user_targets_ok by simp
  qed
  then show ?thesis by (simp add: list_all_iff target_ok_def)
qed

definition demo_chain :: forwardChain where
  "demo_chain = \<lparr>adminForwards = FromMap [(''Bob'', '' Al@b.c ,'')], domainForwards = empty_map,
     userForwardsDir = ''/d'', defaultForwards = FromMap []\<rparr>"

lemma demo_chain_resolves: "chain_resolve (\<lambda>_. FileMissing) demo_chain ''BOB'' = Some [''al@b.c'']"
  by (simp add: demo_chain_def chain_resolve_def Resolve_def FromMap_def from_entry_def split_targets_def
        empty_map_def go_eval del: One_nat_def)

theorem forward_targets_normalised_witness:
  "chain_resolve (\<lambda>_. FileMissing) demo_chain ''BOB'' = Some [''al@b.c''] \<and> ToLower ''al@b.c'' = ''al@b.c''"
  using forward_targets_normalised[of demo_chain "[(''Bob'', '' Al@b.c ,'')]" FileMissing "[]" "\<lambda>_. FileMissing" "''BOB''",
      OF _ _ _ demo_chain_resolves] demo_chain_resolves
  by (simp add: demo_chain_def Load_def)





text \<open>A localpart reaches files outside the directory of user forwards.  A recipient whose localpart
  starts with \<open>../\<close> is looked up one directory above, so the lines of any readable file of the domain
  (here the credentials) become forwarding targets and the recipient is accepted.\<close>

theorem user_forward_traversal:
  assumes "Resolve (adminForwards c) ''../passwd'' = None" "Resolve (domainForwards c) ''../passwd'' = None"
    and "userForwardsDir c = ''/etc/mail/x/user_forwards''"
    and "fs ''/etc/mail/x/passwd'' = FileBytes ''bob:hash''"
  shows "chain_resolve fs c ''../passwd'' = Some [''bob:hash''] \<and>
         agent_UserExists (\<lambda>_. Some False) fs c ''../passwd'' = Some True"
proof -
  have j: "Join [''/etc/mail/x/user_forwards'', ''../passwd''] = ''/etc/mail/x/passwd''"
    by (simp add: Join_def Clean_def IsAbs_def render_path_def clean_comps_def clean_step_def go_eval)
  have "user_targets fs (userForwardsDir c) ''../passwd'' = [''bob:hash'']"
    by (simp add: user_targets_def assms(3,4) j LoadTargets_def go_eval)
  then show ?thesis using assms(1-3) by (simp add: chain_resolve_def agent_UserExists_def)
qed

theorem user_forward_traversal_witness:
  "chain_resolve (\<lambda>p. if p = ''/etc/mail/x/passwd'' then FileBytes ''bob:hash'' else FileMissing)
     \<lparr>adminForwards = empty_map, domainForwards = empty_map,
      userForwardsDir = ''/etc/mail/x/user_forwards'', defaultForwards = empty_map\<rparr> ''../passwd'' =
   Some [''bob:hash'']"
  by (rule conjunct1[OF user_forward_traversal]) (simp_all add: Resolve_def empty_map_def)

end
