(* ===== verification/DomainLoad.thy ===== *)
theory DomainLoad
  imports Forwards "HOL-Library.AList"
begin

text \<open>
  Configuration layers and the provider of hosted domains.

  \<^item> \<open>auth/domain/merge.go\<close>: the deep merge of configuration trees and of layers;
  \<^item> \<open>auth/domain/config.go\<close>: the configuration of a domain;
  \<^item> \<open>auth/domain/postmaster.go\<close>: the postmaster file;
  \<^item> \<open>auth/domain/filesystem.go\<close>: loading a domain, its forwarding chain and the cache.

  A tree is an association list of keys and values.  The TOML library, which turns bytes into trees
  and trees into configurations, is the parameter \<open>toml_lib\<close>; the file system is a function from
  paths to contents together with the set of existing paths.  The lemmas give the merge a meaning by
  paths, and show what the forwarding chain of a loaded domain holds.
\<close>

section \<open>Trees and layers (merge.go)\<close>

datatype tval = TStr string | TInt int | TBool bool | TTable "(string \<times> tval) list"

type_synonym tmap = "(string \<times> tval) list"

function deepMergeMaps :: "tmap \<Rightarrow> tmap \<Rightarrow> tmap" where
  "deepMergeMaps result [] = result"
| "deepMergeMaps result ((k, v) # override) =
     deepMergeMaps
       (AList.update k
          (case (map_of result k, v) of
             (Some (TTable baseMap), TTable overMap) \<Rightarrow> TTable (deepMergeMaps baseMap overMap)
           | _ \<Rightarrow> v) result)
       override"
  by pat_completeness auto
termination
  by (relation "measure (\<lambda>(b, ov). size (TTable ov))") auto

definition merge_layers :: "tmap option list \<Rightarrow> tmap" where
  "merge_layers layers =
     foldl (\<lambda>merged layer. case layer of None \<Rightarrow> merged | Some m \<Rightarrow> deepMergeMaps merged m) [] layers"

section \<open>Configurations (config.go) and the TOML library\<close>

record DomainConfig =
  c_AuthType :: string
  c_CredentialBackend :: string
  c_KeyBackend :: string
  c_StoreType :: string
  c_BasePath :: string
  c_Selector :: string
  c_PrivateKeyPath :: string
  c_MaxSendsPerHour :: int
  c_MaxMessageSize :: int
  c_RecipientRejection :: string
  c_EncryptionMode :: string
  c_Forwards :: "(string \<times> string) list"

definition ProvisionKeysByDefault :: "DomainConfig \<Rightarrow> bool" where
  "ProvisionKeysByDefault c = (c_EncryptionMode c = ''on'')"

record toml_lib =
  marshal_config :: "DomainConfig \<Rightarrow> string option"
  marshal_map :: "tmap \<Rightarrow> string option"
  unmarshal_config :: "string \<Rightarrow> DomainConfig option"
  unmarshal_map :: "string \<Rightarrow> tmap option"
  unmarshal_domains :: "string \<Rightarrow> (string \<rightharpoonup> DomainConfig) option"

definition LoadDomainConfig :: "toml_lib \<Rightarrow> file_read \<Rightarrow> DomainConfig option" where
  "LoadDomainConfig lib f =
     (case f of FileMissing \<Rightarrow> None | FileErr \<Rightarrow> None | FileBytes b \<Rightarrow> unmarshal_config lib b)"

definition LoadDomainsConfig :: "toml_lib \<Rightarrow> file_read \<Rightarrow> (string \<rightharpoonup> DomainConfig) option" where
  "LoadDomainsConfig lib f =
     (case f of FileMissing \<Rightarrow> Some Map.empty | FileErr \<Rightarrow> None | FileBytes b \<Rightarrow> unmarshal_domains lib b)"

datatype load_error =
  ErrReadFile | ErrParse | ErrMarshal | ErrNoConfig | ErrMerge | ErrStoreOpen

text \<open>\<open>Inr None\<close> is the nil map of a file that does not exist.\<close>

definition loadTOMLMap :: "toml_lib \<Rightarrow> file_read \<Rightarrow> load_error + tmap option" where
  "loadTOMLMap lib f =
     (case f of
        FileMissing \<Rightarrow> Inr None
      | FileErr \<Rightarrow> Inl ErrReadFile
      | FileBytes b \<Rightarrow> (case unmarshal_map lib b of None \<Rightarrow> Inl ErrParse | Some m \<Rightarrow> Inr (Some m)))"

definition toTOMLMap :: "toml_lib \<Rightarrow> DomainConfig \<Rightarrow> tmap option" where
  "toTOMLMap lib v = (case marshal_config lib v of None \<Rightarrow> None | Some b \<Rightarrow> unmarshal_map lib b)"

definition mergeConfigLayers :: "toml_lib \<Rightarrow> tmap option list \<Rightarrow> DomainConfig option" where
  "mergeConfigLayers lib layers =
     (case marshal_map lib (merge_layers layers) of None \<Rightarrow> None | Some b \<Rightarrow> unmarshal_config lib b)"

section \<open>The postmaster file (postmaster.go)\<close>

record PostmasterEntry =
  p_Address :: string
  p_UID :: uint32
  p_GID :: uint32
  p_DataPath :: string
  p_Domain :: string

datatype pm_error = ErrFields | ErrUid | ErrGid | ErrPmOpen | ErrPmScan

definition split4 :: "string \<Rightarrow> (string \<times> string \<times> string \<times> string) option" where
  "split4 line = (case CutByte (CHR '':'') line of
       None \<Rightarrow> None
     | Some (a, r) \<Rightarrow> (case CutByte (CHR '':'') r of
         None \<Rightarrow> None
       | Some (b, r') \<Rightarrow> (case CutByte (CHR '':'') r' of
           None \<Rightarrow> None
         | Some (c, d) \<Rightarrow> Some (a, b, c, d))))"

definition parse_postmaster_line :: "string \<Rightarrow> pm_error + PostmasterEntry" where
  "parse_postmaster_line line = (case split4 line of
       None \<Rightarrow> Inl ErrFields
     | Some (address, u, g, dataPath) \<Rightarrow> (case ParseUint32 u of
         None \<Rightarrow> Inl ErrUid
       | Some uid \<Rightarrow> (case ParseUint32 g of
           None \<Rightarrow> Inl ErrGid
         | Some gid \<Rightarrow> Inr \<lparr>p_Address = address, p_UID = uid, p_GID = gid, p_DataPath = dataPath,
             p_Domain = (case CutByte (CHR ''@'') address of None \<Rightarrow> [] | Some (l, d) \<Rightarrow> ToLower d)\<rparr>)))"

fun parse_postmaster :: "string list \<Rightarrow> (string \<rightharpoonup> PostmasterEntry) \<Rightarrow> pm_error + (string \<rightharpoonup> PostmasterEntry)" where
  "parse_postmaster [] m = Inr m"
| "parse_postmaster (l # ls) m =
     (let line = TrimSpace l in
      if line = [] \<or> HasPrefix line ''#'' then parse_postmaster ls m
      else case parse_postmaster_line line of
        Inl e \<Rightarrow> Inl e
      | Inr e \<Rightarrow> parse_postmaster ls (m(p_Domain e \<mapsto> e)))"

definition ParsePostmasterFile :: "file_read \<Rightarrow> pm_error + (string \<rightharpoonup> PostmasterEntry)" where
  "ParsePostmasterFile f = (case f of
       FileBytes b \<Rightarrow> (case parse_postmaster (scan_lines b) Map.empty of
           Inl e \<Rightarrow> Inl e
         | Inr m \<Rightarrow> if scan_err b then Inl ErrPmScan else Inr m)
     | _ \<Rightarrow> Inl ErrPmOpen)"

definition LookupDomainPostmaster :: "(string \<Rightarrow> file_read) \<Rightarrow> string \<Rightarrow> string \<Rightarrow> PostmasterEntry option" where
  "LookupDomainPostmaster fs domainsPath domainName =
     (case ParsePostmasterFile (fs (Join [domainsPath, ''postmaster''])) of
        Inl e \<Rightarrow> None | Inr m \<Rightarrow> m (ToLower domainName))"

section \<open>The provider (filesystem.go)\<close>

text \<open>The environment: the library, the file system, opening a message store of a type at a path, and
  loading a signing key.\<close>

datatype stat_result = StatOk | StatMissing | StatErr

record 'k dom_env =
  de_lib :: toml_lib
  de_fs :: "string \<Rightarrow> file_read"
  de_stat :: "string \<Rightarrow> stat_result"
  de_open_store :: "string \<Rightarrow> string \<Rightarrow> bool"
  de_dkim :: "string \<Rightarrow> 'k option"

record 'k Domain =
  d_Name :: string
  d_Chain :: forwardChain
  d_AuthType :: string
  d_CredentialBackend :: string
  d_KeyBackend :: string
  d_StoreBase :: string
  d_MaxMessageSize :: int
  d_RecipientRejection :: string
  d_MaxSendsPerHour :: int
  d_DKIM :: "(string \<times> 'k) option"

record 'k provider =
  basePath :: string
  dataPath :: string
  defaults :: "DomainConfig option"
  baseDefaults :: "DomainConfig option"
  domainOverrides :: "string \<rightharpoonup> DomainConfig"
  postmaster :: "(string \<rightharpoonup> PostmasterEntry) option"
  cache :: "string \<rightharpoonup> 'k Domain"

definition NewFilesystemDomainProvider :: "'k dom_env \<Rightarrow> string \<Rightarrow> 'k provider" where
  "NewFilesystemDomainProvider env base =
     \<lparr>basePath = base, dataPath = [], defaults = None,
      baseDefaults = LoadDomainConfig (de_lib env) (de_fs env (Join [base, ''config.toml''])),
      domainOverrides = (case LoadDomainsConfig (de_lib env) (de_fs env (Join [base, ''domains.toml''])) of
                           None \<Rightarrow> Map.empty | Some m \<Rightarrow> m),
      postmaster = (case ParsePostmasterFile (de_fs env (Join [base, ''postmaster''])) of
                      Inl e \<Rightarrow> None | Inr m \<Rightarrow> Some m),
      cache = Map.empty\<rparr>"

definition resolvePath :: "string \<Rightarrow> string \<Rightarrow> string" where
  "resolvePath base path = (if path = [] \<or> IsAbs path then path else Join [base, path])"

definition storage_base :: "'k provider \<Rightarrow> string \<Rightarrow> string \<Rightarrow> string" where
  "storage_base p name domainPath =
     (case postmaster p of
        Some m \<Rightarrow> (case m name of
            Some e \<Rightarrow> if p_DataPath e \<noteq> [] then p_DataPath e
                      else if dataPath p \<noteq> [] then Join [dataPath p, name] else domainPath
          | None \<Rightarrow> if dataPath p \<noteq> [] then Join [dataPath p, name] else domainPath)
      | None \<Rightarrow> if dataPath p \<noteq> [] then Join [dataPath p, name] else domainPath)"

definition config_layers ::
  "'k dom_env \<Rightarrow> 'k provider \<Rightarrow> string \<Rightarrow> string \<Rightarrow> load_error + tmap option list \<times> tmap option" where
  "config_layers env p name configPath =
     (let lib = de_lib env;
          layer = (\<lambda>c. case c of None \<Rightarrow> Inr [] | Some v \<Rightarrow>
                     (case toTOMLMap lib v of None \<Rightarrow> Inl ErrMarshal | Some m \<Rightarrow> Inr [Some m]))
      in case layer (defaults p) of Inl e \<Rightarrow> Inl e | Inr l1 \<Rightarrow>
         (case layer (baseDefaults p) of Inl e \<Rightarrow> Inl e | Inr l2 \<Rightarrow>
         (case layer (domainOverrides p name) of Inl e \<Rightarrow> Inl e | Inr l3 \<Rightarrow>
           (if de_stat env configPath = StatOk then
              (case loadTOMLMap lib (de_fs env configPath) of
                 Inl e \<Rightarrow> Inl e
               | Inr m \<Rightarrow> Inr (l1 @ l2 @ l3 @ [m], m))
            else if defaults p = None then Inl ErrNoConfig
            else Inr (l1 @ l2 @ l3, None)))))"

definition build_chain ::
  "'k dom_env \<Rightarrow> 'k provider \<Rightarrow> string \<Rightarrow> tmap option \<Rightarrow> DomainConfig \<Rightarrow> forwardChain" where
  "build_chain env p domainPath perDomainMap cfg =
     (let declared = (case perDomainMap of None \<Rightarrow> False | Some m \<Rightarrow> map_of m ''forwards'' \<noteq> None);
          adminFwd = (if declared then FromMap (c_Forwards cfg) else FromMap []);
          defaultFwd = (if declared then FromMap []
                        else case baseDefaults p of Some b \<Rightarrow> FromMap (c_Forwards b) | None \<Rightarrow> FromMap []);
          domainFwd = (case Load (de_fs env (Join [domainPath, ''forwards''])) of
                         Inl e \<Rightarrow> FromMap [] | Inr m \<Rightarrow> m)
      in \<lparr>adminForwards = adminFwd, domainForwards = domainFwd,
          userForwardsDir = Join [domainPath, ''user_forwards''], defaultForwards = defaultFwd\<rparr>)"

definition loadDomain ::
  "'k dom_env \<Rightarrow> 'k provider \<Rightarrow> string \<Rightarrow> string \<Rightarrow> string \<Rightarrow> load_error + 'k Domain" where
  "loadDomain env p name domainPath configPath =
     (case config_layers env p name configPath of
        Inl e \<Rightarrow> Inl e
      | Inr (layers, perDomainMap) \<Rightarrow>
        (case mergeConfigLayers (de_lib env) layers of
           None \<Rightarrow> Inl ErrMerge
         | Some cfg \<Rightarrow>
           (let userStoreBase = resolvePath (storage_base p name domainPath) (c_BasePath cfg) in
            if \<not> de_open_store env (c_StoreType cfg) userStoreBase then Inl ErrStoreOpen
            else Inr
              \<lparr>d_Name = name, d_Chain = build_chain env p domainPath perDomainMap cfg,
               d_AuthType = c_AuthType cfg,
               d_CredentialBackend = resolvePath domainPath (c_CredentialBackend cfg),
               d_KeyBackend = resolvePath domainPath (c_KeyBackend cfg),
               d_StoreBase = userStoreBase,
               d_MaxMessageSize = c_MaxMessageSize cfg,
               d_RecipientRejection = c_RecipientRejection cfg,
               d_MaxSendsPerHour = c_MaxSendsPerHour cfg,
               d_DKIM = (if c_Selector cfg \<noteq> [] \<and> c_PrivateKeyPath cfg \<noteq> []
                         then map_option (Pair (c_Selector cfg))
                                (de_dkim env (resolvePath domainPath (c_PrivateKeyPath cfg)))
                         else None)\<rparr>)))"

definition GetDomain :: "'k dom_env \<Rightarrow> string \<Rightarrow> 'k provider \<Rightarrow> 'k provider \<times> 'k Domain option" where
  "GetDomain env name0 p =
     (let name = ToLower name0 in
      case cache p name of
        Some d \<Rightarrow> (p, Some d)
      | None \<Rightarrow>
        (let domainPath = Join [basePath p, name]; configPath = Join [domainPath, ''config.toml''] in
         if de_stat env (if defaults p \<noteq> None then domainPath else configPath) = StatMissing then (p, None)
         else case loadDomain env p name domainPath configPath of
           Inl e \<Rightarrow> (p, None)
         | Inr d \<Rightarrow> (p\<lparr>cache := (cache p)(name \<mapsto> d)\<rparr>, Some d)))"

text \<open>The entries of the base directory are pairs of a name and whether it is a directory.\<close>

definition Domains :: "'k dom_env \<Rightarrow> (string \<times> bool) list \<Rightarrow> 'k provider \<Rightarrow> string list" where
  "Domains env entries p =
     map fst (filter (\<lambda>(n, isdir). isdir \<and>
        (defaults p \<noteq> None \<or> de_stat env (Join [basePath p, n, ''config.toml'']) = StatOk)) entries)"

section \<open>The merge by paths\<close>

definition merge_val :: "tval option \<Rightarrow> tval \<Rightarrow> tval" where
  "merge_val bv v = (case (bv, v) of
      (Some (TTable b), TTable m) \<Rightarrow> TTable (deepMergeMaps b m) | _ \<Rightarrow> v)"

lemma deepMergeMaps_Cons [simp]:
  "deepMergeMaps result ((k, v) # ov) = deepMergeMaps (AList.update k (merge_val (map_of result k) v) result) ov"
  by (simp add: merge_val_def)

declare deepMergeMaps.simps(2) [simp del]

lemma map_of_deepMergeMaps:
  "distinct (map fst ov) \<Longrightarrow>
   map_of (deepMergeMaps b ov) k =
     (case map_of ov k of None \<Rightarrow> map_of b k | Some v \<Rightarrow> Some (merge_val (map_of b k) v))"
proof (induction ov arbitrary: b)
  case (Cons kv ov)
  obtain k' v where kv: "kv = (k', v)" by force
  have "map_of ov k' = None" using Cons.prems by (simp add: kv map_of_eq_None_iff)
  then show ?case using Cons by (simp add: kv update_conv split: option.split)
qed simp

fun tget :: "string list \<Rightarrow> tval \<Rightarrow> tval option" where
  "tget [] t = Some t"
| "tget (k # ks) (TTable m) = (case map_of m k of None \<Rightarrow> None | Some v \<Rightarrow> tget ks v)"
| "tget (k # ks) t = None"

fun is_table :: "tval \<Rightarrow> bool" where
  "is_table (TTable m) = True"
| "is_table t = False"

fun twf :: "tval \<Rightarrow> bool" where
  "twf (TTable m) = (distinct (map fst m) \<and> (\<forall>kv \<in> set m. twf (snd kv)))"
| "twf t = True"

lemma twf_lookup: "twf (TTable m) \<Longrightarrow> map_of m k = Some v \<Longrightarrow> twf v"
  using map_of_SomeD by fastforce

lemma not_is_table_tget: "\<not> is_table t \<Longrightarrow> ks \<noteq> [] \<Longrightarrow> tget ks t = None"
  by (cases t; cases ks) auto

lemma is_table_cases: "is_table t \<longleftrightarrow> (\<exists>m. t = TTable m)"
  by (cases t) auto

text \<open>A path is open in a tree when no proper prefix of it ends at a value that is not a table.\<close>

fun path_open :: "string list \<Rightarrow> tval \<Rightarrow> bool" where
  "path_open [] t = True"
| "path_open (k # ks) (TTable m) = (case map_of m k of None \<Rightarrow> True | Some v \<Rightarrow> path_open ks v)"
| "path_open (k # ks) t = False"

lemma merge_set_path:
  "twf (TTable ov) \<Longrightarrow> tget p (TTable ov) = Some v \<Longrightarrow> \<not> is_table v \<Longrightarrow>
   tget p (TTable (deepMergeMaps b ov)) = Some v"
proof (induction p arbitrary: b ov)
  case (Cons k ks)
  then obtain w where w: "map_of ov k = Some w" "tget ks w = Some v" by (auto split: option.split_asm)
  have m: "map_of (deepMergeMaps b ov) k = Some (merge_val (map_of b k) w)"
    using Cons.prems(1) w(1) by (simp add: map_of_deepMergeMaps)
  show ?case
  proof (cases "\<exists>bm om. map_of b k = Some (TTable bm) \<and> w = TTable om")
    case True
    then obtain bm om where bm: "map_of b k = Some (TTable bm)" "w = TTable om" by blast
    have "tget ks (TTable (deepMergeMaps bm om)) = Some v"
      by (rule Cons.IH) (use Cons.prems w bm twf_lookup in auto)
    then show ?thesis using m bm by (simp add: merge_val_def)
  next
    case False
    then have "merge_val (map_of b k) w = w"
      by (auto simp: merge_val_def split: option.split tval.split)
    then show ?thesis using m w by simp
  qed
qed auto

lemma merge_silent_path:
  "twf (TTable ov) \<Longrightarrow> tget p (TTable ov) = None \<Longrightarrow> path_open p (TTable ov) \<Longrightarrow>
   tget p (TTable (deepMergeMaps b ov)) = tget p (TTable b)"
proof (induction p arbitrary: b ov)
  case (Cons k ks)
  show ?case
  proof (cases "map_of ov k")
    case None
    then show ?thesis using Cons.prems(1) by (simp add: map_of_deepMergeMaps)
  next
    case (Some w)
    then have ks: "tget ks w = None" "path_open ks w" using Cons.prems by auto
    then obtain om where om: "w = TTable om" by (cases w; cases ks) auto
    have ne: "ks \<noteq> []" using ks(1) by auto
    have m: "map_of (deepMergeMaps b ov) k = Some (merge_val (map_of b k) w)"
      using Cons.prems(1) Some by (simp add: map_of_deepMergeMaps)
    show ?thesis
    proof (cases "map_of b k")
      case None
      then show ?thesis using m ks by (simp add: merge_val_def)
    next
      case (Some bv)
      show ?thesis
      proof (cases bv)
        case (TTable bm)
        have "tget ks (TTable (deepMergeMaps bm om)) = tget ks (TTable bm)"
          by (rule Cons.IH) (use Cons.prems(1) ks om \<open>map_of ov k = Some w\<close> twf_lookup in auto)
        then show ?thesis using m Some TTable om by (simp add: merge_val_def)
      qed (use m Some om ks ne not_is_table_tget in \<open>simp_all add: merge_val_def\<close>)
    qed
  qed
qed auto

section \<open>Properties\<close>

text \<open>A layer overrides exactly what it sets.  Merging a layer over a tree gives, at every path where the
  layer has a value that is not a table, the value of the layer, and at every path on which the layer
  is silent (it has nothing there and no plain value above it) the value of the tree below.\<close>

theorem deep_merge_paths:
  assumes "twf (TTable ov)"
  shows "(tget p (TTable ov) = Some v \<and> \<not> is_table v \<longrightarrow> tget p (TTable (deepMergeMaps b ov)) = Some v) \<and>
         (tget p (TTable ov) = None \<and> path_open p (TTable ov) \<longrightarrow>
            tget p (TTable (deepMergeMaps b ov)) = tget p (TTable b))"
  using assms merge_set_path merge_silent_path by blast

theorem deep_merge_paths_witness:
  "tget [''a'', ''y''] (TTable (deepMergeMaps [(''a'', TTable [(''x'', TInt 1), (''y'', TInt 2)])]
     [(''a'', TTable [(''x'', TInt 3)])])) = Some (TInt 2)"
  using deep_merge_paths[of "[(''a'', TTable [(''x'', TInt 3)])]" "[''a'', ''y'']" _
    "[(''a'', TTable [(''x'', TInt 1), (''y'', TInt 2)])]"] by simp

definition string_entries :: "tmap \<Rightarrow> (string \<times> string) list" where
  "string_entries m = List.map_filter (\<lambda>(k, v). case v of TStr s \<Rightarrow> Some (k, s) | _ \<Rightarrow> None) m"

text \<open>An empty forwarding table does not disable the system forwards.  When the system configuration
  declares forwards and a domain declares an empty table to switch them off, the merge of the layers
  keeps the entries of the system, and the chain of the domain applies them, moreover at the tier of
  the administrator, above the files of the domain and of its users.\<close>

theorem empty_forwards_keep_system_forwards:
  assumes "defaults p = None" "baseDefaults p = Some base" "domainOverrides p name = None"
    and "toTOMLMap (de_lib env) base = Some bm" "distinct (map fst bm)"
    and "map_of bm ''forwards'' = Some (TTable fw)"
    and "de_stat env configPath = StatOk"
    and "loadTOMLMap (de_lib env) (de_fs env configPath) = Inr (Some [(''forwards'', TTable [])])"
    and decode: "\<And>m b cfg tbl. marshal_map (de_lib env) m = Some b \<Longrightarrow>
       unmarshal_config (de_lib env) b = Some cfg \<Longrightarrow> map_of m ''forwards'' = Some (TTable tbl) \<Longrightarrow>
       c_Forwards cfg = string_entries tbl"
    and "loadDomain env p name domainPath configPath = Inr d"
  shows "adminForwards (d_Chain d) = FromMap (string_entries fw)"
proof -
  let ?layers = "[Some bm, Some [(''forwards'', TTable [])]]"
  have l: "config_layers env p name configPath = Inr (?layers, Some [(''forwards'', TTable [])])"
    using assms(1-8) by (simp add: config_layers_def)
  then obtain cfg where cfg: "mergeConfigLayers (de_lib env) ?layers = Some cfg"
    and d: "d_Chain d = build_chain env p domainPath (Some [(''forwards'', TTable [])]) cfg"
    using assms(10) by (auto simp: loadDomain_def Let_def split: option.split_asm if_split_asm)
  have "map_of (deepMergeMaps [] bm) ''forwards'' = Some (TTable fw)"
    using assms(5,6) by (simp add: map_of_deepMergeMaps merge_val_def)
  then have "map_of (merge_layers ?layers) ''forwards'' = Some (TTable fw)"
    by (simp add: merge_layers_def update_conv merge_val_def)
  then have "c_Forwards cfg = string_entries fw"
    using cfg decode by (auto simp: mergeConfigLayers_def split: option.split_asm)
  then show ?thesis by (simp add: d build_chain_def Let_def)
qed

definition demo_cfg :: "(string \<times> string) list \<Rightarrow> DomainConfig" where
  "demo_cfg f = \<lparr>c_AuthType = [], c_CredentialBackend = [], c_KeyBackend = [], c_StoreType = [],
     c_BasePath = [], c_Selector = [], c_PrivateKeyPath = [], c_MaxSendsPerHour = 0, c_MaxMessageSize = 0,
     c_RecipientRejection = [], c_EncryptionMode = [], c_Forwards = f\<rparr>"

definition demo_fwd_map :: tmap where
  "demo_fwd_map = [(''forwards'', TTable [(''*'', TStr ''a@b'')])]"

definition demo_lib :: toml_lib where
  "demo_lib = \<lparr>marshal_config = \<lambda>c. Some ''sys'',
     marshal_map = \<lambda>m. if m = demo_fwd_map then Some ''sys'' else None,
     unmarshal_config = \<lambda>b. if b = ''sys'' then Some (demo_cfg [(''*'', ''a@b'')]) else None,
     unmarshal_map = \<lambda>b. if b = ''sys'' then Some demo_fwd_map
        else if b = ''dom'' then Some [(''forwards'', TTable [])] else None,
     unmarshal_domains = \<lambda>b. None\<rparr>"

definition demo_dom_env :: "unit dom_env" where
  "demo_dom_env = \<lparr>de_lib = demo_lib, de_fs = \<lambda>p. FileBytes ''dom'', de_stat = \<lambda>p. StatOk,
     de_open_store = \<lambda>t p. True, de_dkim = \<lambda>p. None\<rparr>"

theorem empty_forwards_keep_system_forwards_witness:
  "\<exists>d. loadDomain demo_dom_env \<lparr>basePath = ''/m'', dataPath = [], defaults = None,
       baseDefaults = Some (demo_cfg [(''*'', ''a@b'')]), domainOverrides = Map.empty, postmaster = None,
       cache = Map.empty\<rparr> ''x'' ''/m/x'' ''/m/x/config.toml'' = Inr d \<and>
     adminForwards (d_Chain d) = FromMap [(''*'', ''a@b'')]"
proof -
  let ?p = "\<lparr>basePath = ''/m'', dataPath = [], defaults = None,
       baseDefaults = Some (demo_cfg [(''*'', ''a@b'')]), domainOverrides = Map.empty, postmaster = None,
       cache = Map.empty\<rparr> :: unit provider"
  obtain d where d: "loadDomain demo_dom_env ?p ''x'' ''/m/x'' ''/m/x/config.toml'' = Inr d"
    by (simp add: loadDomain_def config_layers_def toTOMLMap_def loadTOMLMap_def mergeConfigLayers_def
        merge_layers_def demo_dom_env_def demo_lib_def demo_fwd_map_def merge_val_def Let_def)
  have "adminForwards (d_Chain d) = FromMap (string_entries [(''*'', TStr ''a@b'')])"
    by (rule empty_forwards_keep_system_forwards[OF _ _ _ _ _ _ _ _ _ d])
       (auto simp: toTOMLMap_def loadTOMLMap_def demo_dom_env_def demo_lib_def demo_fwd_map_def demo_cfg_def
          string_entries_def List.map_filter_simps split: if_split_asm)
  then show ?thesis using d by (simp add: string_entries_def List.map_filter_simps)
qed

end
