(* ===== verification/AuthRouter.thy ===== *)
theory AuthRouter
  imports Prelude
begin

text \<open>
  Authentication: the routing of a login to the agent of its domain and the lockout of clients that
  fail too often.

  \<^item> \<open>auth/domain/limitstore.go\<close>: the store of counters and lockout markers, with the in-process
    implementation \<open>memLimitStore\<close>; the store that a limiter uses is the record \<open>limit_ops\<close>;
  \<^item> \<open>auth/domain/ratelimit.go\<close>: the limiter;
  \<^item> \<open>auth/domain/router.go\<close>: the router, with the domain provider and the agents as parameters.

  The locale \<open>limit_store\<close> states what the interface promises: a view of the live entries at a time,
  and how each operation changes it.  The lockout lemmas are proved in it and reach the properties
  through its interpretation by \<open>memLimitStore\<close>.  Times are integers (nanoseconds); an attempt is one
  call of the router with its time, client address and credentials.
\<close>

section \<open>The store interface and its in-process implementation (limitstore.go)\<close>

record 's limit_ops =
  ls_incr :: "int \<Rightarrow> string \<Rightarrow> int \<Rightarrow> 's \<Rightarrow> 's \<times> int option"
  ls_exists :: "int \<Rightarrow> string \<Rightarrow> 's \<Rightarrow> 's \<times> bool option"
  ls_set :: "int \<Rightarrow> string \<Rightarrow> int \<Rightarrow> 's \<Rightarrow> 's \<times> bool"
  ls_del :: "string list \<Rightarrow> 's \<Rightarrow> 's \<times> bool"

type_synonym memLimitStore = "string \<rightharpoonup> int \<times> int"

definition mem_live :: "int \<Rightarrow> string \<Rightarrow> memLimitStore \<Rightarrow> memLimitStore \<times> (int \<times> int) option" where
  "mem_live now key s = (case s key of
       None \<Rightarrow> (s, None)
     | Some (count, expiresAt) \<Rightarrow>
         if \<not> now < expiresAt then (s(key := None), None) else (s, Some (count, expiresAt)))"

definition pruneLocked :: "int \<Rightarrow> memLimitStore \<Rightarrow> memLimitStore" where
  "pruneLocked now s = (\<lambda>key. case s key of
       None \<Rightarrow> None
     | Some (count, expiresAt) \<Rightarrow> if \<not> now < expiresAt then None else Some (count, expiresAt))"

definition mem_incr :: "int \<Rightarrow> string \<Rightarrow> int \<Rightarrow> memLimitStore \<Rightarrow> memLimitStore \<times> int option" where
  "mem_incr now key ttl s = (case mem_live now key (pruneLocked now s) of
       (s', Some (count, expiresAt)) \<Rightarrow> (s'(key \<mapsto> (count + 1, expiresAt)), Some (count + 1))
     | (s', None) \<Rightarrow> (s'(key \<mapsto> (1, now + ttl)), Some 1))"

definition mem_exists :: "int \<Rightarrow> string \<Rightarrow> memLimitStore \<Rightarrow> memLimitStore \<times> bool option" where
  "mem_exists now key s = (case mem_live now key s of (s', e) \<Rightarrow> (s', Some (e \<noteq> None)))"

definition mem_set :: "int \<Rightarrow> string \<Rightarrow> int \<Rightarrow> memLimitStore \<Rightarrow> memLimitStore \<times> bool" where
  "mem_set now key ttl s = ((pruneLocked now s)(key \<mapsto> (1, now + ttl)), True)"

definition mem_del :: "string list \<Rightarrow> memLimitStore \<Rightarrow> memLimitStore \<times> bool" where
  "mem_del keys s = (fold (\<lambda>key s. s(key := None)) keys s, True)"

definition memLimitOps :: "memLimitStore limit_ops" where
  "memLimitOps = \<lparr>ls_incr = mem_incr, ls_exists = mem_exists, ls_set = mem_set, ls_del = mem_del\<rparr>"

section \<open>The limiter (ratelimit.go)\<close>

record RateLimitConfig =
  MaxFailuresPerIPUser :: int
  MaxFailuresPerIP :: int
  Window :: int
  Lockout :: int

definition DefaultRateLimitConfig :: RateLimitConfig where
  "DefaultRateLimitConfig = \<lparr>MaxFailuresPerIPUser = 5, MaxFailuresPerIP = 20,
     Window = 300000000000, Lockout = 900000000000\<rparr>"

definition keyFailIPUser :: string where "keyFailIPUser = ''auth:fail:ipuser:''"

definition keyFailIP :: string where "keyFailIP = ''auth:fail:ip:''"

definition keyLockIPUser :: string where "keyLockIPUser = ''auth:lock:ipuser:''"

definition keyLockIP :: string where "keyLockIP = ''auth:lock:ip:''"

definition ipUserKey :: "string \<Rightarrow> string \<Rightarrow> string" where
  "ipUserKey ip username = ip @ CHR 0x00 # username"

fun check_keys :: "'s limit_ops \<Rightarrow> int \<Rightarrow> string list \<Rightarrow> 's \<Rightarrow> 's \<times> bool" where
  "check_keys ops now [] s = (s, False)"
| "check_keys ops now (key # keys) s = (case ls_exists ops now key s of
       (s', None) \<Rightarrow> (s', False)
     | (s', Some True) \<Rightarrow> (s', True)
     | (s', Some False) \<Rightarrow> check_keys ops now keys s')"

definition isLimited :: "'s limit_ops \<Rightarrow> int \<Rightarrow> string \<Rightarrow> string \<Rightarrow> 's \<Rightarrow> 's \<times> bool" where
  "isLimited ops now ip username s =
     (if ip = [] then (s, False)
      else check_keys ops now
             ((if username \<noteq> [] then [keyLockIPUser @ ipUserKey ip username] else []) @ [keyLockIP @ ip]) s)"

definition count_failure ::
  "'s limit_ops \<Rightarrow> RateLimitConfig \<Rightarrow> int \<Rightarrow> string \<Rightarrow> string \<Rightarrow> int \<Rightarrow> 's \<Rightarrow> 's" where
  "count_failure ops cfg now counterKey lockKey maxFailures s =
     (if maxFailures \<le> 0 then s
      else case ls_incr ops now counterKey (Window cfg) s of
        (s', None) \<Rightarrow> s'
      | (s', Some n) \<Rightarrow> if n < maxFailures then s' else fst (ls_set ops now lockKey (Lockout cfg) s'))"

definition recordFailure ::
  "'s limit_ops \<Rightarrow> RateLimitConfig \<Rightarrow> int \<Rightarrow> string \<Rightarrow> string \<Rightarrow> 's \<Rightarrow> 's" where
  "recordFailure ops cfg now ip username s =
     (if ip = [] then s
      else let s' = (if username \<noteq> [] then
                count_failure ops cfg now (keyFailIPUser @ ipUserKey ip username)
                  (keyLockIPUser @ ipUserKey ip username) (MaxFailuresPerIPUser cfg) s else s)
           in count_failure ops cfg now (keyFailIP @ ip) (keyLockIP @ ip) (MaxFailuresPerIP cfg) s')"

definition recordSuccess :: "'s limit_ops \<Rightarrow> string \<Rightarrow> string \<Rightarrow> 's \<Rightarrow> 's" where
  "recordSuccess ops ip username s =
     (if ip = [] \<or> username = [] then s
      else fst (ls_del ops [keyFailIPUser @ ipUserKey ip username, keyLockIPUser @ ipUserKey ip username] s))"

section \<open>The router (router.go)\<close>

datatype auth_error = ErrRateLimited | ErrDomainNotHosted | ErrAuthFailed | ErrAgent string

text \<open>What an agent returns for accepted credentials: the session's user, if any, with its mailbox.\<close>

record auth_user =
  u_Name :: string
  u_Mailbox :: string

record 'd AuthResult =
  ar_User :: "auth_user option"
  ar_Domain :: "'d option"
  ar_Extension :: string

type_synonym agent_auth = "string \<Rightarrow> string \<Rightarrow> auth_error + auth_user option"

record 'd router =
  r_provider :: "(string \<Rightarrow> 'd option) option"
  r_domains :: "string list"
  r_agent :: "'d \<Rightarrow> agent_auth"
  r_agent_exists :: "'d \<Rightarrow> string \<Rightarrow> auth_error + bool"
  r_fallback :: "(agent_auth \<times> (string \<Rightarrow> auth_error + bool)) option"

definition ParseLocalPart :: "string \<Rightarrow> string \<times> string" where
  "ParseLocalPart localPart = (case CutByte (CHR ''+'') localPart of Some (b, e) \<Rightarrow> (b, e) | None \<Rightarrow> (localPart, []))"

definition SplitUsername :: "string \<Rightarrow> string \<times> string" where
  "SplitUsername username = (case CutLastByte (CHR ''@'') username of Some (l, d) \<Rightarrow> (l, d) | None \<Rightarrow> (username, []))"

definition hasDomains :: "'d router \<Rightarrow> bool" where
  "hasDomains r = (r_provider r \<noteq> None \<and> r_domains r \<noteq> [])"

definition fallback_user :: "string \<Rightarrow> string" where
  "fallback_user username =
     (let (localPart, domainName) = SplitUsername username; (base, extension) = ParseLocalPart localPart
      in if extension \<noteq> [] then (if domainName \<noteq> [] then base @ ''@'' @ domainName else base) else username)"

definition authenticate_fallback :: "'d router \<Rightarrow> string \<Rightarrow> string \<Rightarrow> auth_error + 'd AuthResult" where
  "authenticate_fallback r username password = (case r_fallback r of
       None \<Rightarrow> Inl ErrAuthFailed
     | Some (auth, ex) \<Rightarrow> (case auth (fallback_user username) password of
         Inl e \<Rightarrow> Inl e
       | Inr u \<Rightarrow> Inr \<lparr>ar_User = u, ar_Domain = None,
                       ar_Extension = snd (ParseLocalPart (fst (SplitUsername username)))\<rparr>))"

definition authenticateInternal :: "'d router \<Rightarrow> string \<Rightarrow> string \<Rightarrow> auth_error + 'd AuthResult" where
  "authenticateInternal r username password =
     (let (localPart, domainName) = SplitUsername username; (base, extension) = ParseLocalPart localPart in
      case r_provider r of
        None \<Rightarrow> authenticate_fallback r username password
      | Some get \<Rightarrow>
          (if domainName = [] then authenticate_fallback r username password
           else case get domainName of
             Some d \<Rightarrow> (case r_agent r d base password of
                 Inl e \<Rightarrow> Inl e
               | Inr u \<Rightarrow> Inr \<lparr>ar_User = map_option (u_Mailbox_update (\<lambda>_. base @ ''@'' @ domainName)) u,
                               ar_Domain = Some d, ar_Extension = extension\<rparr>)
           | None \<Rightarrow> if hasDomains r then Inl ErrDomainNotHosted
                     else authenticate_fallback r username password))"

definition AuthenticateWithDomain ::
  "'s limit_ops \<Rightarrow> RateLimitConfig option \<Rightarrow> 'd router \<Rightarrow> int \<Rightarrow> string \<Rightarrow> string \<Rightarrow> string \<Rightarrow> 's \<Rightarrow>
   's \<times> (auth_error + 'd AuthResult)" where
  "AuthenticateWithDomain ops limiter r now clientIP username password s =
     (case limiter of
        None \<Rightarrow> (s, authenticateInternal r username password)
      | Some cfg \<Rightarrow>
          (case isLimited ops now clientIP username s of
             (s', True) \<Rightarrow> (s', Inl ErrRateLimited)
           | (s', False) \<Rightarrow>
               (case authenticateInternal r username password of
                  Inl e \<Rightarrow> (recordFailure ops cfg now clientIP username s', Inl e)
                | Inr res \<Rightarrow> (recordSuccess ops clientIP username s', Inr res))))"

definition router_UserExists :: "'d router \<Rightarrow> string \<Rightarrow> auth_error + bool" where
  "router_UserExists r username =
     (let (localPart, domainName) = SplitUsername username; (base, extension) = ParseLocalPart localPart;
          fallback = (case r_fallback r of None \<Rightarrow> Inr False | Some (auth, ex) \<Rightarrow> ex (fallback_user username))
      in case r_provider r of
           None \<Rightarrow> fallback
         | Some get \<Rightarrow>
             (if domainName = [] then fallback
              else case get domainName of Some d \<Rightarrow> r_agent_exists r d base | None \<Rightarrow> fallback))"

section \<open>Runs\<close>

type_synonym attempt = "int \<times> string \<times> string \<times> string"

definition attempt_step ::
  "'s limit_ops \<Rightarrow> RateLimitConfig \<Rightarrow> 'd router \<Rightarrow> attempt \<Rightarrow> 's \<Rightarrow> 's \<times> (auth_error + 'd AuthResult)" where
  "attempt_step ops cfg r a s = (case a of (now, ip, user, pw) \<Rightarrow>
     AuthenticateWithDomain ops (Some cfg) r now ip user pw s)"

fun auth_run ::
  "'s limit_ops \<Rightarrow> RateLimitConfig \<Rightarrow> 'd router \<Rightarrow> attempt list \<Rightarrow> 's \<Rightarrow>
   's \<times> (attempt \<times> (auth_error + 'd AuthResult)) list" where
  "auth_run ops cfg r [] s = (s, [])"
| "auth_run ops cfg r (a # as) s = (case attempt_step ops cfg r a s of
     (s', res) \<Rightarrow> (case auth_run ops cfg r as s' of (s'', out) \<Rightarrow> (s'', (a, res) # out)))"

definition attempt_time :: "attempt \<Rightarrow> int" where "attempt_time a = fst a"

definition attempt_ip :: "attempt \<Rightarrow> string" where "attempt_ip a = fst (snd a)"

definition attempt_pair :: "attempt \<Rightarrow> string \<times> string" where
  "attempt_pair a = (fst (snd a), fst (snd (snd a)))"

text \<open>An address has no NUL byte.\<close>

definition ip_ok :: "string \<Rightarrow> bool" where "ip_ok ip = (CHR 0x00 \<notin> set ip)"

section \<open>Keys never collide\<close>

lemma ipUserKey_inject: "ip_ok ip \<Longrightarrow> ip_ok ip' \<Longrightarrow> ipUserKey ip u = ipUserKey ip' u' \<longleftrightarrow> ip = ip' \<and> u = u'"
proof
  assume ok: "ip_ok ip" "ip_ok ip'" and eq: "ipUserKey ip u = ipUserKey ip' u'"
  have "CutByte (CHR 0x00) (ipUserKey ip u) = Some (ip, u)"
    using ok(1) by (simp add: ipUserKey_def ip_ok_def)
  moreover have "CutByte (CHR 0x00) (ipUserKey ip' u') = Some (ip', u')"
    using ok(2) by (simp add: ipUserKey_def ip_ok_def)
  ultimately have "Some (ip, u) = Some (ip', u')" unfolding eq by (rule subst)
  then show "ip = ip' \<and> u = u'" by simp
qed simp

lemmas limit_keys = keyFailIPUser_def keyFailIP_def keyLockIPUser_def keyLockIP_def

lemma limit_keys_distinct [simp]:
  "keyFailIPUser @ a \<noteq> keyFailIP @ b" "keyFailIPUser @ a \<noteq> keyLockIPUser @ b"
  "keyFailIPUser @ a \<noteq> keyLockIP @ b" "keyLockIPUser @ a \<noteq> keyFailIP @ b"
  "keyLockIPUser @ a \<noteq> keyLockIP @ b" "keyFailIP @ a \<noteq> keyLockIP @ b"
  "keyFailIP @ b \<noteq> keyFailIPUser @ a" "keyLockIPUser @ b \<noteq> keyFailIPUser @ a"
  "keyLockIP @ b \<noteq> keyFailIPUser @ a" "keyFailIP @ b \<noteq> keyLockIPUser @ a"
  "keyLockIP @ b \<noteq> keyLockIPUser @ a" "keyLockIP @ b \<noteq> keyFailIP @ a"
  by (simp_all add: limit_keys)

section \<open>The contract of a store\<close>

text \<open>The state of a pair after \<open>n\<close> evaluated guesses in a window that ends at \<open>T\<close>: below the threshold
  the counter has kept up with the guesses and lives until then, or the lock is live until then.\<close>

definition guess_inv ::
  "(int \<Rightarrow> 's \<Rightarrow> string \<Rightarrow> (int \<times> int) option) \<Rightarrow> string \<Rightarrow> int \<Rightarrow> int \<Rightarrow> int \<Rightarrow> int \<Rightarrow> 's \<Rightarrow> bool" where
  "guess_inv lv key mx T now n s =
     (0 \<le> n \<and> (n = 0 \<and> 0 < mx \<and> lv now s (keyFailIPUser @ key) = None
       \<or> (\<exists>j e. n \<le> j \<and> j < mx \<and> T \<le> e \<and> lv now s (keyFailIPUser @ key) = Some (j, e))
       \<or> (\<exists>c e. n \<le> mx \<and> T \<le> e \<and> lv now s (keyLockIPUser @ key) = Some (c, e))))"

locale limit_store =
  fixes ops :: "'s limit_ops" and lv :: "int \<Rightarrow> 's \<Rightarrow> string \<Rightarrow> (int \<times> int) option"
  assumes exists_res: "snd (ls_exists ops now k s) = Some (lv now s k \<noteq> None)"
    and exists_lv: "now \<le> t \<Longrightarrow> lv t (fst (ls_exists ops now k s)) k' = lv t s k'"
    and incr_res: "snd (ls_incr ops now k ttl s) = Some (case lv now s k of None \<Rightarrow> 1 | Some (c, e) \<Rightarrow> c + 1)"
    and incr_lv: "now \<le> t \<Longrightarrow> lv t (fst (ls_incr ops now k ttl s)) k' =
          (if k' = k then
             (case lv now s k of None \<Rightarrow> if t < now + ttl then Some (1, now + ttl) else None
              | Some (c, e) \<Rightarrow> if t < e then Some (c + 1, e) else None)
           else lv t s k')"
    and set_lv: "now \<le> t \<Longrightarrow> lv t (fst (ls_set ops now k ttl s)) k' =
          (if k' = k then if t < now + ttl then Some (1, now + ttl) else None else lv t s k')"
    and del_lv: "lv t (fst (ls_del ops ks s)) k' = (if k' \<in> set ks then None else lv t s k')"
    and lv_later: "t \<le> u \<Longrightarrow> lv u s k = (case lv t s k of None \<Rightarrow> None
          | Some (c, e) \<Rightarrow> if u < e then Some (c, e) else None)"
begin

lemma check_keys_lv: "now \<le> t \<Longrightarrow> lv t (fst (check_keys ops now ks s)) k' = lv t s k'"
proof (induction ks arbitrary: s)
  case (Cons k ks)
  obtain s' b where e: "ls_exists ops now k s = (s', Some b)" using exists_res[of now k s] by (metis surjective_pairing)
  have "lv t s' k' = lv t s k'" using exists_lv[OF Cons.prems, of k s k'] e by simp
  then show ?case using Cons by (cases b) (simp_all add: e)
qed simp

lemma check_keys_res: "snd (check_keys ops now ks s) = (\<exists>k \<in> set ks. lv now s k \<noteq> None)"
proof (induction ks arbitrary: s)
  case (Cons k ks)
  obtain s' where e: "ls_exists ops now k s = (s', Some (lv now s k \<noteq> None))"
    using exists_res[of now k s] by (metis surjective_pairing)
  have l: "lv now s' k' = lv now s k'" for k' using exists_lv[of now now k s k'] e by simp
  show ?case
  proof (cases "lv now s k = None")
    case True
    then show ?thesis using Cons.IH[of s'] by (simp add: e l)
  qed (simp add: e)
qed simp

lemma isLimited_spec:
  "snd (isLimited ops now ip u s) = (ip \<noteq> [] \<and>
     (u \<noteq> [] \<and> lv now s (keyLockIPUser @ ipUserKey ip u) \<noteq> None \<or> lv now s (keyLockIP @ ip) \<noteq> None))"
  "now \<le> t \<Longrightarrow> lv t (fst (isLimited ops now ip u s)) k = lv t s k"
  by (auto simp: isLimited_def check_keys_lv check_keys_res)

text \<open>A failure is counted under the counter key, and the lock key is written when the count reaches the
  threshold.  No other key changes.\<close>

lemma count_failure_other:
  assumes "now \<le> t" "k \<noteq> ck" "k \<noteq> lk"
  shows "lv t (count_failure ops cfg now ck lk mx s) k = lv t s k"
proof -
  obtain s' n where i: "ls_incr ops now ck (Window cfg) s = (s', n)" by force
  have "lv t s' k = lv t s k" using incr_lv[OF assms(1), of ck "Window cfg" s k] assms(2) i by simp
  then show ?thesis using assms by (simp add: count_failure_def i set_lv split: option.split)
qed

lemma count_failure_counts:
  assumes "now \<le> t" "0 < mx" "ck \<noteq> lk"
  shows "lv t (count_failure ops cfg now ck lk mx s) ck =
      (case lv now s ck of None \<Rightarrow> if t < now + Window cfg then Some (1, now + Window cfg) else None
       | Some (c, e) \<Rightarrow> if t < e then Some (c + 1, e) else None)"
    and "mx \<le> (case lv now s ck of None \<Rightarrow> 1 | Some (c, e) \<Rightarrow> c + 1) \<Longrightarrow>
      lv t (count_failure ops cfg now ck lk mx s) lk =
        (if t < now + Lockout cfg then Some (1, now + Lockout cfg) else None)"
    and "(case lv now s ck of None \<Rightarrow> 1 | Some (c, e) \<Rightarrow> c + 1) < mx \<Longrightarrow>
      lv t (count_failure ops cfg now ck lk mx s) lk = lv t s lk"
proof -
  obtain s' n where i: "ls_incr ops now ck (Window cfg) s = (s', n)" by force
  have n: "n = Some (case lv now s ck of None \<Rightarrow> 1 | Some (c, e) \<Rightarrow> c + 1)"
    using incr_res[of now ck "Window cfg" s] i by simp
  have l: "lv t s' k = (if k = ck then
             (case lv now s ck of None \<Rightarrow> if t < now + Window cfg then Some (1, now + Window cfg) else None
              | Some (c, e) \<Rightarrow> if t < e then Some (c + 1, e) else None) else lv t s k)" for k
    using incr_lv[OF assms(1), of ck "Window cfg" s k] i by simp
  show "lv t (count_failure ops cfg now ck lk mx s) ck =
      (case lv now s ck of None \<Rightarrow> if t < now + Window cfg then Some (1, now + Window cfg) else None
       | Some (c, e) \<Rightarrow> if t < e then Some (c + 1, e) else None)"
    using assms by (simp add: count_failure_def i n l set_lv)
  show "mx \<le> (case lv now s ck of None \<Rightarrow> 1 | Some (c, e) \<Rightarrow> c + 1) \<Longrightarrow>
      lv t (count_failure ops cfg now ck lk mx s) lk =
        (if t < now + Lockout cfg then Some (1, now + Lockout cfg) else None)"
    using assms by (simp add: count_failure_def i n set_lv)
  show "(case lv now s ck of None \<Rightarrow> 1 | Some (c, e) \<Rightarrow> c + 1) < mx \<Longrightarrow>
      lv t (count_failure ops cfg now ck lk mx s) lk = lv t s lk"
    using assms by (simp add: count_failure_def i n l)
qed

lemma recordFailure_other:
  "now \<le> t \<Longrightarrow> k \<notin> {keyFailIPUser @ ipUserKey ip u, keyLockIPUser @ ipUserKey ip u, keyFailIP @ ip, keyLockIP @ ip} \<Longrightarrow>
   lv t (recordFailure ops cfg now ip u s) k = lv t s k"
  by (simp add: recordFailure_def Let_def count_failure_other)

lemma recordSuccess_other:
  "k \<notin> {keyFailIPUser @ ipUserKey ip u, keyLockIPUser @ ipUserKey ip u} \<Longrightarrow>
   lv t (recordSuccess ops ip u s) k = lv t s k"
  by (simp add: recordSuccess_def del_lv)

lemma attempt_other:
  assumes "now \<le> t"
    and "k \<notin> {keyFailIPUser @ ipUserKey ip u, keyLockIPUser @ ipUserKey ip u, keyFailIP @ ip, keyLockIP @ ip}"
  shows "lv t (fst (AuthenticateWithDomain ops (Some cfg) r now ip u pw s)) k = lv t s k"
proof -
  obtain s' b where i: "isLimited ops now ip u s = (s', b)" by force
  have "lv t s' k = lv t s k" using isLimited_spec(2)[OF assms(1), of ip u s k] i by simp
  then show ?thesis
    using assms recordFailure_other recordSuccess_other
    by (cases b) (simp_all add: AuthenticateWithDomain_def i split: sum.split)
qed

lemma attempt_limited:
  assumes "snd (isLimited ops now ip u s)"
  shows "snd (AuthenticateWithDomain ops (Some cfg) r now ip u pw s) = Inl ErrRateLimited"
    and "now \<le> t \<Longrightarrow> lv t (fst (AuthenticateWithDomain ops (Some cfg) r now ip u pw s)) k = lv t s k"
proof -
  obtain s' where i: "isLimited ops now ip u s = (s', True)" using assms by (metis (full_types) surjective_pairing)
  show "snd (AuthenticateWithDomain ops (Some cfg) r now ip u pw s) = Inl ErrRateLimited"
    by (simp add: AuthenticateWithDomain_def i)
  show "now \<le> t \<Longrightarrow> lv t (fst (AuthenticateWithDomain ops (Some cfg) r now ip u pw s)) k = lv t s k"
    using isLimited_spec(2)[of now t ip u s k] by (simp add: AuthenticateWithDomain_def i)
qed

lemma attempt_failed:
  assumes "\<not> snd (isLimited ops now ip u s)" "authenticateInternal r u pw = Inl e"
  obtains s' where "\<And>t k. now \<le> t \<Longrightarrow> lv t s' k = lv t s k"
    "AuthenticateWithDomain ops (Some cfg) r now ip u pw s = (recordFailure ops cfg now ip u s', Inl e)"
proof -
  obtain s' where i: "isLimited ops now ip u s = (s', False)" using assms(1) by (metis (full_types) surjective_pairing)
  show ?thesis
  proof (rule that[of s'])
    show "lv t s' k = lv t s k" if "now \<le> t" for t k
      using isLimited_spec(2)[OF that, of ip u s k] i by simp
  qed (simp add: AuthenticateWithDomain_def i assms(2))
qed

lemma recordFailure_pair:
  assumes "now \<le> t" "0 < MaxFailuresPerIPUser cfg" "ip \<noteq> []" "u \<noteq> []"
  shows "k \<in> {keyFailIPUser @ ipUserKey ip u, keyLockIPUser @ ipUserKey ip u} \<Longrightarrow>
     lv t (recordFailure ops cfg now ip u s) k =
     lv t (count_failure ops cfg now (keyFailIPUser @ ipUserKey ip u) (keyLockIPUser @ ipUserKey ip u)
             (MaxFailuresPerIPUser cfg) s) k"
  using assms by (auto simp: recordFailure_def Let_def count_failure_other)

text \<open>A live lock is touched by no attempt: those that could change it are refused.\<close>

lemma locked_step:
  assumes "lv now s k = Some (c, e)" "now \<le> t" "ip_ok ip" "ip_ok ip'" "ip \<noteq> []" "u \<noteq> []"
    and "k = keyLockIPUser @ ipUserKey ip u \<or> k = keyLockIP @ ip"
  shows "lv t (fst (AuthenticateWithDomain ops (Some cfg) r now ip' u' pw s)) k = lv t s k"
proof (cases "snd (isLimited ops now ip' u' s)")
  case True
  then show ?thesis by (rule attempt_limited(2)[OF _ assms(2)])
next
  case False
  then have "k \<noteq> keyLockIPUser @ ipUserKey ip' u'" "k \<noteq> keyLockIP @ ip'"
    using assms by (auto simp: isLimited_spec(1) ipUserKey_inject) (simp_all add: limit_keys)
  moreover have "k \<noteq> keyFailIPUser @ ipUserKey ip' u'" "k \<noteq> keyFailIP @ ip'" using assms(7) by auto
  ultimately show ?thesis by (intro attempt_other[OF assms(2)]) simp
qed

lemma guess_inv_later:
  assumes "guess_inv lv key mx T now n s" "now \<le> t" "t < T"
  shows "guess_inv lv key mx T t n s"
  using assms lv_later[OF assms(2), of s "keyFailIPUser @ key"] lv_later[OF assms(2), of s "keyLockIPUser @ key"]
  by (auto simp: guess_inv_def)

lemma guess_step_failed:
  assumes inv: "guess_inv lv (ipUserKey ip u) (MaxFailuresPerIPUser cfg) T now n s"
    and now: "t0 \<le> now" "now < T" and T: "T = t0 + Window cfg" "Window cfg \<le> Lockout cfg"
    and ip: "ip \<noteq> []" "u \<noteq> []"
    and nl: "\<not> snd (isLimited ops now ip u s)" and fail: "authenticateInternal r u pw = Inl e"
  shows "guess_inv lv (ipUserKey ip u) (MaxFailuresPerIPUser cfg) T now (n + 1)
           (fst (AuthenticateWithDomain ops (Some cfg) r now ip u pw s))"
proof -
  let ?F = "keyFailIPUser @ ipUserKey ip u" and ?L = "keyLockIPUser @ ipUserKey ip u"
  let ?mx = "MaxFailuresPerIPUser cfg"
  obtain s' where s': "\<And>t k. now \<le> t \<Longrightarrow> lv t s' k = lv t s k"
    and eq: "AuthenticateWithDomain ops (Some cfg) r now ip u pw s = (recordFailure ops cfg now ip u s', Inl e)"
    using attempt_failed[OF nl fail] by metis
  have "lv now s ?L = None" using nl ip by (cases "lv now s ?L") (auto simp: isLimited_spec(1))
  then have F: "n = 0 \<and> 0 < ?mx \<and> lv now s' ?F = None \<or>
      (\<exists>j e. n \<le> j \<and> j < ?mx \<and> T \<le> e \<and> lv now s' ?F = Some (j, e))" and n: "0 \<le> n"
    using inv s'[of now] by (auto simp: guess_inv_def)
  then have mx: "0 < ?mx" by auto
  define j where "j = (case lv now s' ?F of None \<Rightarrow> 1 | Some (c, e) \<Rightarrow> c + 1)"
  have j: "n + 1 \<le> j" "j \<le> ?mx" using F by (auto simp: j_def)
  note pair = recordFailure_pair[OF order.refl mx ip]
  note cnt = count_failure_counts[OF order.refl mx limit_keys_distinct(2)[of "ipUserKey ip u" "ipUserKey ip u"],
      where cfg = cfg and s = s' and now = now, folded j_def]
  have f: "\<exists>e. T \<le> e \<and> lv now (recordFailure ops cfg now ip u s') ?F = Some (j, e)"
    using F now T(1) by (auto simp: pair cnt(1) j_def)
  show ?thesis
  proof (cases "j < ?mx")
    case True
    then show ?thesis using f j n by (auto simp: guess_inv_def eq)
  next
    case False
    then have "lv now (recordFailure ops cfg now ip u s') ?L = Some (1, now + Lockout cfg)"
      using cnt(2) now T by (simp add: pair)
    then show ?thesis using j n now T by (auto simp: guess_inv_def eq)
  qed
qed

lemma guess_step:
  assumes inv: "guess_inv lv (ipUserKey ip u) (MaxFailuresPerIPUser cfg) T now n s"
    and now: "t0 \<le> now" "now < T" and T: "T = t0 + Window cfg" "Window cfg \<le> Lockout cfg"
    and ip: "ip_ok ip" "ip_ok ip'" "ip \<noteq> []" "u \<noteq> []"
    and fail: "(ip', u') = (ip, u) \<Longrightarrow> \<exists>e. authenticateInternal r u' pw = Inl e"
  shows "guess_inv lv (ipUserKey ip u) (MaxFailuresPerIPUser cfg) T now
           (if (ip', u') = (ip, u) \<and>
               snd (AuthenticateWithDomain ops (Some cfg) r now ip' u' pw s) \<noteq> Inl ErrRateLimited then n + 1 else n)
           (fst (AuthenticateWithDomain ops (Some cfg) r now ip' u' pw s))"
proof (cases "(ip', u') = (ip, u)")
  case False
  then have "lv now (fst (AuthenticateWithDomain ops (Some cfg) r now ip' u' pw s)) k = lv now s k"
    if "k \<in> {keyFailIPUser @ ipUserKey ip u, keyLockIPUser @ ipUserKey ip u}" for k
    by (intro attempt_other) (use ip that in \<open>auto simp: ipUserKey_inject\<close>)
  moreover have c: "((ip', u') = (ip, u) \<and>
      snd (AuthenticateWithDomain ops (Some cfg) r now ip' u' pw s) \<noteq> Inl ErrRateLimited) = False"
    using False by blast
  ultimately show ?thesis unfolding c if_False using inv by (simp add: guess_inv_def)
next
  case same: True
  show ?thesis
  proof (cases "snd (isLimited ops now ip u s)")
    case True
    note l = attempt_limited[OF True]
    show ?thesis using same inv by (simp add: guess_inv_def l)
  next
    case False
    obtain e where e: "authenticateInternal r u pw = Inl e" using fail same by auto
    have inv': "guess_inv lv (ipUserKey ip u) (MaxFailuresPerIPUser cfg) T now (n + 1)
        (fst (AuthenticateWithDomain ops (Some cfg) r now ip u pw s))"
      by (rule guess_step_failed[OF inv now T ip(3,4) False e])
    then have "guess_inv lv (ipUserKey ip u) (MaxFailuresPerIPUser cfg) T now n
        (fst (AuthenticateWithDomain ops (Some cfg) r now ip u pw s))"
      using inv by (auto simp: guess_inv_def)
    with inv' show ?thesis using same by simp
  qed
qed

lemma run_guess_inv:
  assumes T: "T = t0 + Window cfg" "Window cfg \<le> Lockout cfg"
    and ip: "ip_ok ip" "ip \<noteq> []" "u \<noteq> []"
  shows "guess_inv lv (ipUserKey ip u) (MaxFailuresPerIPUser cfg) T now n s \<Longrightarrow> t0 \<le> now \<Longrightarrow>
    sorted (map attempt_time as) \<Longrightarrow> \<forall>a \<in> set as. now \<le> attempt_time a \<and> attempt_time a < T \<and> ip_ok (attempt_ip a) \<Longrightarrow>
    \<forall>a \<in> set as. attempt_pair a = (ip, u) \<longrightarrow> (\<exists>e. authenticateInternal r u (snd (snd (snd a))) = Inl e) \<Longrightarrow>
    n + int (length (filter (\<lambda>(a, res). attempt_pair a = (ip, u) \<and> res \<noteq> Inl ErrRateLimited)
      (snd (auth_run ops cfg r as s)))) \<le> MaxFailuresPerIPUser cfg"
proof (induction as arbitrary: now n s)
  case Nil
  then show ?case by (auto simp: guess_inv_def)
next
  case (Cons a as)
  obtain t ip' u' pw where a: "a = (t, ip', u', pw)" by (metis prod_cases4)
  note av = attempt_time_def attempt_ip_def attempt_pair_def
  let ?A = "AuthenticateWithDomain ops (Some cfg) r t ip' u' pw s"
  let ?n = "if (ip', u') = (ip, u) \<and> snd ?A \<noteq> Inl ErrRateLimited then n + 1 else n"
  have "guess_inv lv (ipUserKey ip u) (MaxFailuresPerIPUser cfg) T t n s"
    by (rule guess_inv_later[OF Cons.prems(1)]) (use Cons.prems(4) a in \<open>auto simp: av\<close>)
  then have "guess_inv lv (ipUserKey ip u) (MaxFailuresPerIPUser cfg) T t ?n (fst ?A)"
    by (rule guess_step[OF _ _ _ T ip(1) _ ip(2,3)]) (use Cons.prems a in \<open>auto simp: av\<close>)
  then have "?n + int (length (filter (\<lambda>(a, res). attempt_pair a = (ip, u) \<and> res \<noteq> Inl ErrRateLimited)
      (snd (auth_run ops cfg r as (fst ?A))))) \<le> MaxFailuresPerIPUser cfg"
    by (rule Cons.IH) (use Cons.prems a in \<open>auto simp: av\<close>)
  then show ?case by (auto simp: a attempt_step_def av case_prod_unfold split: if_split_asm)
qed

lemma run_locked:
  assumes ip: "ip_ok ip" "ip \<noteq> []" "u \<noteq> []" "k = keyLockIPUser @ ipUserKey ip u \<or> k = keyLockIP @ ip"
  shows "lv now s k = Some (c, e) \<Longrightarrow> sorted (map attempt_time as) \<Longrightarrow>
    \<forall>a \<in> set as. now \<le> attempt_time a \<and> attempt_time a \<le> t \<and> ip_ok (attempt_ip a) \<Longrightarrow> now \<le> t \<Longrightarrow> t < e \<Longrightarrow>
    lv t (fst (auth_run ops cfg r as s)) k = Some (c, e)"
proof (induction as arbitrary: now s)
  case Nil
  then show ?case using lv_later[of now t s k] by simp
next
  case (Cons a as)
  obtain t' ip' u' pw where a: "a = (t', ip', u', pw)" by (metis prod_cases4)
  note av = attempt_time_def attempt_ip_def
  let ?A = "AuthenticateWithDomain ops (Some cfg) r t' ip' u' pw s"
  have t': "now \<le> t'" "t' \<le> t" "ip_ok ip'" using Cons.prems(3) by (auto simp: a av)
  have live: "lv t' s k = Some (c, e)" using lv_later[OF t'(1), of s k] Cons.prems(1,5) t' by simp
  have "lv t' (fst ?A) k = Some (c, e)"
    using locked_step[OF live order.refl ip(1) t'(3) ip(2-4)] live by simp
  then have "lv t (fst (auth_run ops cfg r as (fst ?A))) k = Some (c, e)"
    by (rule Cons.IH) (use Cons.prems t' in \<open>auto simp: a av\<close>)
  then show ?case by (simp add: a attempt_step_def case_prod_beta)
qed

end

definition mem_view :: "int \<Rightarrow> memLimitStore \<Rightarrow> string \<Rightarrow> (int \<times> int) option" where
  "mem_view t s k = (case s k of None \<Rightarrow> None | Some (c, e) \<Rightarrow> if t < e then Some (c, e) else None)"

lemmas mem_defs = memLimitOps_def mem_view_def mem_live_def pruneLocked_def mem_incr_def mem_exists_def
  mem_set_def mem_del_def

interpretation mem: limit_store memLimitOps mem_view
proof
  show "mem_view t (fst (ls_del memLimitOps ks s)) k' = (if k' \<in> set ks then None else mem_view t s k')" for t ks s k'
  proof -
    have "fold (\<lambda>key s. s(key := None)) ks s k' = (if k' \<in> set ks then None else s k')" for s :: memLimitStore
      by (induction ks arbitrary: s) auto
    then show ?thesis by (simp add: mem_defs)
  qed
qed (auto simp: mem_defs split: option.split prod.split)

section \<open>Properties\<close>


definition demo_limits :: RateLimitConfig where
  "demo_limits = \<lparr>MaxFailuresPerIPUser = 2, MaxFailuresPerIP = 9, Window = 10, Lockout = 10\<rparr>"

definition demo_router :: "unit router" where
  "demo_router = \<lparr>r_provider = None, r_domains = [], r_agent = \<lambda>d u p. Inl ErrAuthFailed,
     r_agent_exists = \<lambda>d u. Inr False, r_fallback = None\<rparr>"


text \<open>C33: a lockout cannot be lifted early.  Once an account is locked for an address, or the address as a
  whole is locked, every attempt of the address on the account is refused until the lock expires, even
  with the right password and whatever attempts were made by anyone in between.\<close>

theorem lockout_cannot_be_lifted:
  assumes "ip_ok ip" "ip \<noteq> []" "u \<noteq> []"
    and "k = keyLockIPUser @ ipUserKey ip u \<or> k = keyLockIP @ ip" "s k = Some (c, e)"
    and "sorted (map attempt_time as)"
    and "\<forall>a \<in> set as. start \<le> attempt_time a \<and> attempt_time a \<le> t \<and> ip_ok (attempt_ip a)" "start \<le> t" "t < e"
  shows "snd (AuthenticateWithDomain memLimitOps (Some cfg) r t ip u pw (fst (auth_run memLimitOps cfg r as s))) =
         Inl ErrRateLimited"
proof -
  have "mem_view start s k = Some (c, e)" using assms(5,8,9) by (simp add: mem_view_def)
  then have "mem_view t (fst (auth_run memLimitOps cfg r as s)) k = Some (c, e)"
    by (rule mem.run_locked[OF assms(1-4) _ assms(6-9)])
  then show ?thesis using assms(2-4) by (intro mem.attempt_limited(1)) (auto simp: mem.isLimited_spec(1))
qed

theorem lockout_cannot_be_lifted_witness:
  "snd (AuthenticateWithDomain memLimitOps (Some demo_limits) demo_router 5 ''9'' ''al'' ''right''
     (fst (auth_run memLimitOps demo_limits demo_router [(2, ''8'', ''al'', ''b'')] [keyLockIP @ ''9'' \<mapsto> (1, 7)]))) =
   Inl ErrRateLimited"
  by (rule lockout_cannot_be_lifted[where k = "keyLockIP @ ''9''" and c = 1 and e = 7 and start = 1])
     (simp_all add: ip_ok_def attempt_time_def attempt_ip_def)



end
