(* ===== verification/Queue.thy ===== *)
theory Queue
  imports Prelude
begin

text \<open>
  The outbound queue on disk.

  \<^item> \<open>internal/session-manager/queue/queue.go\<close>: addresses, message ids and \<open>Write\<close>, which injects a
    message;
  \<^item> the tree of files that the queue writer and the queue manager share.

  A path is the list of its components below the root of the queue, as \<open>filepath.Join\<close> leaves them:
  empty components disappear.  \<open>Write\<close> is modelled as the list of the file system effects it has, in
  their order, together with its result, so that other processes can run between any two of them.
  Failing system calls are a parameter: the set of steps that fail.
\<close>

section \<open>The tree of files\<close>

text \<open>An envelope, with the zero time as \<open>None\<close>.\<close>

record queueEnvelope =
  TTL :: "int option"
  Created :: int
  Sender :: string
  Recipient :: string
  MsgID :: string
  Origin :: string

datatype qfile = EnvFile queueEnvelope int | BadEnv int | BodyFile string

type_synonym qpath = "string list"

type_synonym qtree = "(qpath \<times> qfile) list"

definition join_path :: "string list \<Rightarrow> qpath" where
  "join_path cs = filter (\<lambda>c. c \<noteq> []) cs"

definition put_file :: "qpath \<Rightarrow> qfile \<Rightarrow> qtree \<Rightarrow> qtree" where
  "put_file p f t = filter (\<lambda>e. fst e \<noteq> p) t @ [(p, f)]"

definition remove_file :: "qpath \<Rightarrow> qtree \<Rightarrow> qtree" where
  "remove_file p t = filter (\<lambda>e. fst e \<noteq> p) t"

definition rename_file :: "qpath \<Rightarrow> qpath \<Rightarrow> qtree \<Rightarrow> qtree option" where
  "rename_file p p' t = (case map_of t p of
       None \<Rightarrow> None
     | Some f \<Rightarrow> Some (put_file p' f (remove_file p t)))"

text \<open>The names in a directory; \<open>None\<close> when the path is a file.  A directory that does not exist
  reads as empty, as in \<open>readdir\<close> of the scheduler.\<close>

definition readdir :: "qtree \<Rightarrow> qpath \<Rightarrow> string list option" where
  "readdir t d =
     (if map_of t d \<noteq> None then None
      else Some (remdups (map (\<lambda>e. fst e ! length d)
             (filter (\<lambda>e. take (length d) (fst e) = d \<and> length d < length (fst e)) t))))"

section \<open>Addresses and ids (queue.go)\<close>

definition strip_angle :: "string \<Rightarrow> string" where
  "strip_angle addr = TrimSuffix (TrimPrefix addr ''<'') ''>''"

definition extractDomain :: "string \<Rightarrow> string" where
  "extractDomain addr = (case CutLastByte (CHR ''@'') (strip_angle addr) of
       None \<Rightarrow> ''unknown''
     | Some (l, d) \<Rightarrow> if d = [] then ''unknown'' else ToLower d)"

definition splitAddress :: "string \<Rightarrow> string \<times> string" where
  "splitAddress addr = (case CutLastByte (CHR ''@'') (strip_angle addr) of
       None \<Rightarrow> (strip_angle addr, ''unknown'')
     | Some (l, d) \<Rightarrow> (l, ToLower d))"

definition splitDomainLabels :: "string \<Rightarrow> string \<times> string" where
  "splitDomainLabels domain =
     (let labels = SplitByte (CHR ''.'') domain in
      if length labels < 2 then (''unknown'', domain)
      else (labels ! (length labels - 1), labels ! (length labels - 2)))"

definition verpAddress :: "string \<Rightarrow> string \<Rightarrow> string" where
  "verpAddress rcpt hostname =
     (let (rcptLocal, rcptDomain) = splitAddress rcpt
      in ''bounces+'' @ rcptLocal @ ''='' @ rcptDomain @ ''@'' @ hostname)"

definition validAddressComponent :: "string \<Rightarrow> bool" where
  "validAddressComponent s = (s \<noteq> [] \<and> \<not> ContainsAny s [CHR ''/'', CHR 92] \<and> \<not> Contains s ''..'')"

definition is_hex :: "char \<Rightarrow> bool" where
  "is_hex c = (let n = (of_char c :: nat) in 48 \<le> n \<and> n \<le> 57 \<or> 97 \<le> n \<and> n \<le> 102 \<or> 65 \<le> n \<and> n \<le> 70)"

definition validMsgIDHex :: "string \<Rightarrow> bool" where
  "validMsgIDHex s = (length s = 32 \<and> list_all is_hex s)"

definition hex_digit :: "nat \<Rightarrow> char" where
  "hex_digit n = (if n < 10 then char_of (48 + n) else char_of (87 + n))"

definition hex_encode :: "string \<Rightarrow> string" where
  "hex_encode b = concat (map (\<lambda>c. let n = (of_char c :: nat) in [hex_digit (n div 16), hex_digit (n mod 16)]) b)"

text \<open>The 16 random bytes are a parameter; \<open>None\<close> when reading them fails.\<close>

definition newMsgID :: "string option \<Rightarrow> string \<Rightarrow> (string \<times> string) option" where
  "newMsgID rnd hostname = map_option (\<lambda>b. (hex_encode b @ ''@'' @ hostname, hex_encode b)) rnd"

section \<open>Write (queue.go)\<close>

record queue_cfg =
  q_TTL :: int
  q_Hostname :: string
  q_DKIMSign :: "(string \<Rightarrow> string \<Rightarrow> string option) option"

datatype queue_error =
  ErrSenderDomain | ErrPresetMsgID | ErrGenerate | ErrSign | ErrMkdir | ErrWriteBody
| ErrRecipient | ErrWriteEnvelope

datatype queue_step = MkdirBody | WriteBody | MkdirEnv nat | WriteEnv nat

datatype queue_effect = Put qpath qfile

definition body_path :: "string \<Rightarrow> string \<Rightarrow> qpath" where
  "body_path fromDomain msgidHex =
     (let (tld, sld) = splitDomainLabels fromDomain in join_path [''msg'', tld, sld, msgidHex])"

definition env_name :: "string \<Rightarrow> string \<Rightarrow> nat \<Rightarrow> string" where
  "env_name rcptLocal msgidHex n = rcptLocal @ ''@'' @ msgidHex @ ''.'' @ itoa n"

definition env_path :: "string \<Rightarrow> string \<Rightarrow> nat \<Rightarrow> qpath" where
  "env_path rcpt msgidHex n =
     (let (rcptLocal, rcptDomain) = splitAddress rcpt; (tld, sld) = splitDomainLabels rcptDomain
      in join_path [''env'', tld, sld, env_name rcptLocal msgidHex n])"

fun write_envelopes ::
  "queue_step set \<Rightarrow> queue_cfg \<Rightarrow> int \<Rightarrow> string \<Rightarrow> string \<Rightarrow> string \<Rightarrow> nat \<Rightarrow> string list \<Rightarrow>
   queue_effect list \<times> queue_error option" where
  "write_envelopes fail cfg now from msgid msgidHex n [] = ([], None)"
| "write_envelopes fail cfg now from msgid msgidHex n (rcpt # rcpts) =
     (let (rcptLocal, rcptDomain) = splitAddress rcpt in
      if \<not> validAddressComponent rcptLocal \<or> \<not> validAddressComponent rcptDomain then ([], Some ErrRecipient)
      else if MkdirEnv n \<in> fail then ([], Some ErrMkdir)
      else if WriteEnv n \<in> fail then ([], Some ErrWriteEnvelope)
      else let env = \<lparr>TTL = Some (now + q_TTL cfg), Created = now, Sender = verpAddress rcpt (q_Hostname cfg),
                      Recipient = rcpt, MsgID = msgid, Origin = from\<rparr>;
               (es, e) = write_envelopes fail cfg now from msgid msgidHex (Suc n) rcpts
           in (Put (env_path rcpt msgidHex n) (EnvFile env now) # es, e))"

definition Write ::
  "queue_step set \<Rightarrow> queue_cfg \<Rightarrow> int \<Rightarrow> string option \<Rightarrow> string \<Rightarrow> string list \<Rightarrow> string \<Rightarrow> string \<Rightarrow>
   queue_effect list \<times> (queue_error + string)" where
  "Write fail cfg now rnd from recipients presetMsgIDHex body =
     (let fromDomain = extractDomain from in
      if \<not> validAddressComponent fromDomain then ([], Inl ErrSenderDomain)
      else case (if presetMsgIDHex \<noteq> [] then
                   (if validMsgIDHex presetMsgIDHex then Inr (presetMsgIDHex @ ''@'' @ fromDomain, presetMsgIDHex)
                    else Inl ErrPresetMsgID)
                 else case newMsgID rnd fromDomain of None \<Rightarrow> Inl ErrGenerate | Some p \<Rightarrow> Inr p) of
        Inl e \<Rightarrow> ([], Inl e)
      | Inr (msgid, msgidHex) \<Rightarrow>
        (let msg = ''Message-ID: <'' @ msgid @ ''>'' @ [CHR 13, CHR 10] @ body in
         case (case q_DKIMSign cfg of None \<Rightarrow> Some msg | Some sign \<Rightarrow> sign fromDomain msg) of
           None \<Rightarrow> ([], Inl ErrSign)
         | Some out \<Rightarrow>
             (if MkdirBody \<in> fail then ([], Inl ErrMkdir)
              else if WriteBody \<in> fail then ([], Inl ErrWriteBody)
              else let (es, e) = write_envelopes fail cfg now from msgid msgidHex 0 recipients
                   in (Put (body_path fromDomain msgidHex) (BodyFile out) # es,
                       case e of None \<Rightarrow> Inr msgid | Some x \<Rightarrow> Inl x))))"

fun apply_effect :: "queue_effect \<Rightarrow> qtree \<Rightarrow> qtree" where
  "apply_effect (Put p f) t = put_file p f t"

end
