(* ===== verification/Scheduler.thy ===== *)
theory Scheduler
  imports Queue GoPath Complex_Main
begin

text \<open>
  The queue manager.

  \<^item> \<open>internal/queue-manager/scheduler/ratelimit.go\<close>: the token buckets per recipient domain;
  \<^item> \<open>internal/queue-manager/scheduler/outbound.go\<close> and \<open>resolveOutbound\<close>: the transport of a sender;
  \<^item> \<open>internal/queue-manager/scheduler/scheduler.go\<close>: one scan of the queue.

  \<open>mail-remote\<close>, the process that delivers a batch and reports on it, is the parameter \<open>remote\<close>: it
  maps the body, the envelopes, the flag of a last attempt and the transport to a new tree and a list
  of results.  Renames may fail, as the parameter \<open>stuck\<close> says.  A Go map that is ranged over is
  visited in the order that the parameter \<open>order\<close> gives.  A directory exists while it holds a file, and
  the directories of a scan are read at its start.  Floating point numbers are modelled as
  reals; metrics and logging are left out.
\<close>

section \<open>Token buckets (ratelimit.go)\<close>

record tokenBucket =
  tb_rate :: real
  tb_burst :: real
  tb_tokens :: real
  tb_last :: real

record limit_cfg =
  MessagesPerHour :: int
  Burst :: int
  Overrides :: "string \<rightharpoonup> int \<times> int"

record domainLimiter =
  dl_cfg :: limit_cfg
  dl_buckets :: "string \<rightharpoonup> tokenBucket"

definition newDomainLimiter :: "limit_cfg \<Rightarrow> domainLimiter option" where
  "newDomainLimiter cfg =
     (if MessagesPerHour cfg = 0 \<and> Overrides cfg = Map.empty then None
      else Some \<lparr>dl_cfg = cfg, dl_buckets = Map.empty\<rparr>)"

definition limits_of :: "limit_cfg \<Rightarrow> string \<Rightarrow> int \<times> int" where
  "limits_of cfg domain = (case Overrides cfg domain of
       None \<Rightarrow> (MessagesPerHour cfg, Burst cfg)
     | Some (mph, burst) \<Rightarrow> (mph, if burst > 0 then burst else Burst cfg))"

definition bucket :: "real \<Rightarrow> string \<Rightarrow> domainLimiter \<Rightarrow> domainLimiter \<times> tokenBucket option" where
  "bucket now domain dl =
     (let (mph, burst) = limits_of (dl_cfg dl) domain in
      if mph = 0 then (dl, None)
      else case dl_buckets dl domain of
        Some b \<Rightarrow> (dl, Some b)
      | None \<Rightarrow>
          (let b = \<lparr>tb_rate = real_of_int mph / 3600, tb_burst = real_of_int burst,
                    tb_tokens = real_of_int burst, tb_last = now\<rparr>
           in (dl\<lparr>dl_buckets := (dl_buckets dl)(domain \<mapsto> b)\<rparr>, Some b)))"

definition tb_allow :: "real \<Rightarrow> nat \<Rightarrow> tokenBucket \<Rightarrow> tokenBucket \<times> bool" where
  "tb_allow now n b =
     (let filled = min (tb_tokens b + (now - tb_last b) * tb_rate b) (tb_burst b) in
      if real n > filled then (b\<lparr>tb_tokens := filled, tb_last := now\<rparr>, False)
      else (b\<lparr>tb_tokens := filled - real n, tb_last := now\<rparr>, True))"

definition dl_allow :: "real \<Rightarrow> string \<Rightarrow> nat \<Rightarrow> domainLimiter \<Rightarrow> domainLimiter \<times> bool" where
  "dl_allow now domain n dl = (case bucket now domain dl of
       (dl', None) \<Rightarrow> (dl', True)
     | (dl', Some b) \<Rightarrow> (case tb_allow now n b of
         (b', ok) \<Rightarrow> (dl'\<lparr>dl_buckets := (dl_buckets dl')(domain \<mapsto> b')\<rparr>, ok)))"

text \<open>The domain of an envelope directory, from the last two components of its path.\<close>

definition domainFromPath :: "qpath \<Rightarrow> string" where
  "domainFromPath p = last p @ ''.'' @ last (butlast p)"

section \<open>Transports (outbound.go, resolveOutbound)\<close>

record OutboundConfig =
  o_Strategy :: string
  o_Smarthost :: string
  o_SmarthostUser :: string
  o_SmarthostUserFile :: string
  o_PasswordFile :: string
  o_password :: string

definition zero_outbound :: OutboundConfig where
  "zero_outbound = \<lparr>o_Strategy = [], o_Smarthost = [], o_SmarthostUser = [], o_SmarthostUserFile = [],
     o_PasswordFile = [], o_password = []\<rparr>"

text \<open>The configuration files, parsed (\<open>None\<close> for a file that cannot be read or parsed), and the
  contents of secret files.\<close>

record out_env =
  oe_section :: "string \<Rightarrow> OutboundConfig option"
  oe_read :: "string \<Rightarrow> string option"
  oe_global :: OutboundConfig
  oe_base :: string

definition senderDomainFromBodyPath :: "qpath \<Rightarrow> string" where
  "senderDomainFromBodyPath p = (case p of
       m # tld # dname # rest \<Rightarrow> if m = ''msg'' \<and> rest \<noteq> [] then dname @ ''.'' @ tld else []
     | _ \<Rightarrow> [])"

definition pick :: "string \<Rightarrow> string \<Rightarrow> string" where
  "pick d s = (if d \<noteq> [] then d else s)"

definition loadOutboundConfig :: "out_env \<Rightarrow> string \<Rightarrow> OutboundConfig option" where
  "loadOutboundConfig env senderDomain =
     (case oe_section env (Join [oe_base env, ''config.toml'']) of
        None \<Rightarrow> None
      | Some sys \<Rightarrow> (case oe_section env (Join [oe_base env, senderDomain, ''config.toml'']) of
          None \<Rightarrow> None
        | Some dm \<Rightarrow> Some (sys\<lparr>o_Strategy := pick (o_Strategy dm) (o_Strategy sys),
              o_Smarthost := pick (o_Smarthost dm) (o_Smarthost sys),
              o_SmarthostUser := pick (o_SmarthostUser dm) (o_SmarthostUser sys),
              o_SmarthostUserFile := pick (o_SmarthostUserFile dm) (o_SmarthostUserFile sys),
              o_PasswordFile := pick (o_PasswordFile dm) (o_PasswordFile sys)\<rparr>)))"

definition read_secret :: "out_env \<Rightarrow> string \<Rightarrow> string option" where
  "read_secret env path = map_option TrimSpace (oe_read env path)"

definition readPasswordFile :: "out_env \<Rightarrow> string \<Rightarrow> OutboundConfig \<Rightarrow> string option" where
  "readPasswordFile env senderDomain cfg =
     (if o_PasswordFile cfg = [] then Some []
      else read_secret env (if IsAbs (o_PasswordFile cfg) then o_PasswordFile cfg
                            else Join [oe_base env, senderDomain, o_PasswordFile cfg]))"

definition readSmarthostUserFile :: "out_env \<Rightarrow> string \<Rightarrow> OutboundConfig \<Rightarrow> string option" where
  "readSmarthostUserFile env senderDomain cfg =
     (if o_SmarthostUserFile cfg = [] then Some []
      else read_secret env (if IsAbs (o_SmarthostUserFile cfg) then o_SmarthostUserFile cfg
                            else Join [oe_base env, senderDomain, o_SmarthostUserFile cfg]))"

definition global_path :: "out_env \<Rightarrow> string \<Rightarrow> string" where
  "global_path env path = (if \<not> IsAbs path \<and> oe_base env \<noteq> [] then Join [oe_base env, path] else path)"

definition globalFallbackOutbound :: "out_env \<Rightarrow> OutboundConfig" where
  "globalFallbackOutbound env =
     (let g = oe_global env in
      if o_Smarthost g = [] then zero_outbound\<lparr>o_Strategy := ''direct''\<rparr>
      else
        let cfg = g\<lparr>o_Strategy := (if o_Strategy g = [] then ''smarthost'' else o_Strategy g), o_password := []\<rparr>;
            cfg1 = (if o_PasswordFile cfg = [] then cfg
                    else case read_secret env (global_path env (o_PasswordFile cfg)) of
                      None \<Rightarrow> cfg | Some pw \<Rightarrow> cfg\<lparr>o_password := pw\<rparr>)
        in if o_SmarthostUserFile cfg1 = [] then cfg1
           else case read_secret env (global_path env (o_SmarthostUserFile cfg1)) of
             None \<Rightarrow> cfg1 | Some u \<Rightarrow> cfg1\<lparr>o_SmarthostUser := u\<rparr>)"

definition resolve_domain_outbound :: "out_env \<Rightarrow> string \<Rightarrow> OutboundConfig" where
  "resolve_domain_outbound env domain =
     (case loadOutboundConfig env domain of
        None \<Rightarrow> globalFallbackOutbound env
      | Some cfg \<Rightarrow>
          (if cfg = zero_outbound then globalFallbackOutbound env
           else
             let cfg0 = (if o_Strategy cfg = [] then cfg\<lparr>o_Strategy := ''direct''\<rparr> else cfg);
                 cfg1 = (if o_PasswordFile cfg0 = [] then cfg0
                         else case readPasswordFile env domain cfg0 of
                           None \<Rightarrow> cfg0 | Some pw \<Rightarrow> cfg0\<lparr>o_password := pw\<rparr>)
             in if o_SmarthostUserFile cfg1 = [] then cfg1
                else case readSmarthostUserFile env domain cfg1 of
                  None \<Rightarrow> cfg1 | Some u \<Rightarrow> cfg1\<lparr>o_SmarthostUser := u\<rparr>))"

definition resolveOutbound ::
  "out_env \<Rightarrow> qpath \<Rightarrow> (string \<rightharpoonup> OutboundConfig) \<Rightarrow> (string \<rightharpoonup> OutboundConfig) \<times> OutboundConfig" where
  "resolveOutbound env bodyPath cache =
     (let domain = senderDomainFromBodyPath bodyPath in
      if oe_base env = [] \<or> domain = [] then (cache, globalFallbackOutbound env)
      else case cache domain of
        Some c \<Rightarrow> (cache, c)
      | None \<Rightarrow> (cache(domain \<mapsto> resolve_domain_outbound env domain), resolve_domain_outbound env domain))"

section \<open>One scan of the queue (scheduler.go)\<close>

datatype delivery_status = Delivered | PermFail | TempFail

record deliveryResult =
  dr_Envelope :: qpath
  dr_Status :: delivery_status
  dr_SMTPCode :: int
  dr_Diagnostic :: string

text \<open>A bounce message: what \<open>generateAndDeliverDSN\<close> hands to the generator.\<close>

record bounce =
  b_Origin :: string
  b_Recipient :: string
  b_Domain :: string
  b_SMTPCode :: int
  b_Diagnostic :: string
  b_ExpiredAt :: "int option"

record sched_env =
  se_MessageTTL :: int
  se_dsn :: bool
  se_dsn_ok :: "bounce \<Rightarrow> bool"
  se_out :: out_env
  se_remote :: "qpath \<Rightarrow> qpath list \<Rightarrow> bool \<Rightarrow> OutboundConfig \<Rightarrow> qtree \<Rightarrow> qtree \<times> deliveryResult list"
  se_stuck :: "qpath \<Rightarrow> bool"
  se_order :: "string list \<Rightarrow> string list"

text \<open>The state of a scheduler, with what it has recorded so far: the results of the delivery process and the
  bounces handed over.\<close>

record sched =
  tree :: qtree
  limiter :: "domainLimiter option"
  ocache :: "string \<rightharpoonup> OutboundConfig"
  reports :: "deliveryResult list"
  bounces :: "bounce list"

definition deliveringSuffix :: string where
  "deliveringSuffix = ''.delivering''"

definition extractMsgID :: "string \<Rightarrow> string option" where
  "extractMsgID name =
     (if HasSuffix name deliveringSuffix then None
      else case CutLastByte (CHR ''@'') name of
        None \<Rightarrow> None
      | Some (l, rest) \<Rightarrow> map_option fst (CutLastByte (CHR ''.'') rest))"

text \<open>The interval between attempts, in nanoseconds.\<close>

definition retryInterval :: "int \<Rightarrow> int" where
  "retryInterval age =
     (let base = 300000000000; maxBackoff = 14400000000000; doubling = 3600000000000 in
      if age \<le> 0 then base
      else let interval = \<lfloor>real_of_int base * 2 powr (real_of_int age / real_of_int doubling)\<rfloor>
           in if interval > maxBackoff \<or> interval \<le> 0 then maxBackoff else interval)"

definition isReady :: "sched_env \<Rightarrow> int \<Rightarrow> int \<Rightarrow> int option \<Rightarrow> bool" where
  "isReady env now mtime ttl =
     (let sinceLastAttempt = now - mtime in
      case ttl of
        None \<Rightarrow> sinceLastAttempt \<ge> 300000000000
      | Some x \<Rightarrow>
          (if se_MessageTTL env \<le> 0 then sinceLastAttempt \<ge> 300000000000
           else sinceLastAttempt \<ge> retryInterval (now - (x - se_MessageTTL env))))"

text \<open>The ready envelopes of a domain directory: message id, path, expired or not, envelope.\<close>

type_synonym env_entry = "qpath \<times> bool \<times> queueEnvelope"

definition env_expired :: "int \<Rightarrow> queueEnvelope \<Rightarrow> bool" where
  "env_expired now env = (case TTL env of None \<Rightarrow> False | Some x \<Rightarrow> now > x)"

definition ready_entry :: "sched_env \<Rightarrow> int \<Rightarrow> qtree \<Rightarrow> qpath \<Rightarrow> string \<Rightarrow> (string \<times> env_entry) option" where
  "ready_entry env now t domainPath name = (case extractMsgID name of
       None \<Rightarrow> None
     | Some msgid \<Rightarrow> (case map_of t (domainPath @ [name]) of
         Some (EnvFile e mtime) \<Rightarrow>
           (if env_expired now e \<or> isReady env now mtime (TTL e)
            then Some (msgid, domainPath @ [name], env_expired now e, e) else None)
       | _ \<Rightarrow> None))"

definition resolveBody :: "qtree \<Rightarrow> string \<Rightarrow> qpath option" where
  "resolveBody t msgid = (case filter (\<lambda>p. length p = 4 \<and> hd p = ''msg'' \<and> last p = msgid) (map fst t) of
       [] \<Rightarrow> None | p # ps \<Rightarrow> Some p)"

definition claimed_path :: "qpath \<Rightarrow> qpath" where
  "claimed_path p = butlast p @ [last p @ deliveringSuffix]"

definition claim :: "sched_env \<Rightarrow> qpath \<Rightarrow> qtree \<Rightarrow> qtree option" where
  "claim env p t = (if se_stuck env p then None else rename_file p (claimed_path p) t)"

definition unclaim :: "sched_env \<Rightarrow> qpath \<Rightarrow> qtree \<Rightarrow> qtree option" where
  "unclaim env p t =
     (if se_stuck env p then None
      else rename_file p (butlast p @ [TrimSuffix (last p) deliveringSuffix]) t)"

fun claim_all :: "sched_env \<Rightarrow> env_entry list \<Rightarrow> qtree \<Rightarrow> qtree \<times> env_entry list" where
  "claim_all env [] t = (t, [])"
| "claim_all env ((p, x, e) # es) t = (case claim env p t of
       None \<Rightarrow> claim_all env es t
     | Some t' \<Rightarrow> (case claim_all env es t' of (t'', cs) \<Rightarrow> (t'', (claimed_path p, x, e) # cs)))"

fun unclaim_all :: "sched_env \<Rightarrow> qpath list \<Rightarrow> qtree \<Rightarrow> qtree" where
  "unclaim_all env [] t = t"
| "unclaim_all env (p # ps) t =
     (if map_of t p = None then unclaim_all env ps t
      else case unclaim env p t of None \<Rightarrow> unclaim_all env ps t | Some t' \<Rightarrow> unclaim_all env ps t')"

definition generateAndDeliverDSN ::
  "sched_env \<Rightarrow> (qpath \<rightharpoonup> queueEnvelope) \<Rightarrow> string \<Rightarrow> bool \<Rightarrow> deliveryResult \<Rightarrow> bounce list" where
  "generateAndDeliverDSN env envByPath domain expired r =
     (if \<not> se_dsn env then []
      else case envByPath (dr_Envelope r) of
        None \<Rightarrow> []
      | Some e \<Rightarrow>
          (if Origin e = [] then []
           else let b = \<lparr>b_Origin = Origin e, b_Recipient = Recipient e, b_Domain = domain,
                         b_SMTPCode = dr_SMTPCode r, b_Diagnostic = dr_Diagnostic r,
                         b_ExpiredAt = (if expired then TTL e else None)\<rparr>
                in if se_dsn_ok env b then [b] else []))"

definition generateDSNsForExpired ::
  "sched_env \<Rightarrow> (qpath \<rightharpoonup> queueEnvelope) \<Rightarrow> string \<Rightarrow> deliveryResult list \<Rightarrow> bounce list" where
  "generateDSNsForExpired env envByPath domain results =
     concat (map (generateAndDeliverDSN env envByPath domain True) (filter (\<lambda>r. dr_Status r \<noteq> Delivered) results))"

definition generateDSNsForPermFail ::
  "sched_env \<Rightarrow> (qpath \<rightharpoonup> queueEnvelope) \<Rightarrow> string \<Rightarrow> deliveryResult list \<Rightarrow> bounce list" where
  "generateDSNsForPermFail env envByPath domain results =
     concat (map (generateAndDeliverDSN env envByPath domain False) (filter (\<lambda>r. dr_Status r = PermFail) results))"

fun final_attempts ::
  "sched_env \<Rightarrow> qpath \<Rightarrow> OutboundConfig \<Rightarrow> (qpath \<rightharpoonup> queueEnvelope) \<Rightarrow> string \<Rightarrow> env_entry list \<Rightarrow> sched \<Rightarrow> sched" where
  "final_attempts env bodyPath out envByPath domain [] s = s"
| "final_attempts env bodyPath out envByPath domain ((p, x, e) # cs) s =
     (if x then
        (case se_remote env bodyPath [p] True out (tree s) of
           (t, results) \<Rightarrow> final_attempts env bodyPath out envByPath domain cs
             (s\<lparr>tree := remove_file p t, reports := reports s @ results,
                bounces := bounces s @ generateDSNsForExpired env envByPath domain results\<rparr>))
      else final_attempts env bodyPath out envByPath domain cs s)"

definition deliver_active ::
  "sched_env \<Rightarrow> qpath \<Rightarrow> OutboundConfig \<Rightarrow> (qpath \<rightharpoonup> queueEnvelope) \<Rightarrow> string \<Rightarrow> qpath list \<Rightarrow> sched \<Rightarrow> sched" where
  "deliver_active env bodyPath out envByPath domain activePaths s =
     (if activePaths = [] then s
      else case se_remote env bodyPath activePaths False out (tree s) of
        (t, results) \<Rightarrow> s\<lparr>tree := unclaim_all env activePaths t, reports := reports s @ results,
           bounces := bounces s @ generateDSNsForPermFail env envByPath domain results\<rparr>)"

fun remove_expired :: "env_entry list \<Rightarrow> qtree \<Rightarrow> qtree" where
  "remove_expired [] t = t"
| "remove_expired ((p, x, e) # es) t = remove_expired es (if x then remove_file p t else t)"

definition process_group ::
  "sched_env \<Rightarrow> int \<Rightarrow> string \<Rightarrow> string \<times> env_entry list \<Rightarrow> sched \<Rightarrow> sched" where
  "process_group env now fqdn g s =
     (let (msgid, entries) = g;
          (lim, ok) = (case limiter s of
             None \<Rightarrow> (None, True)
           | Some dl \<Rightarrow> (case dl_allow (real_of_int now / 1000000000) fqdn (length entries) dl of
               (dl', b) \<Rightarrow> (Some dl', b)));
          s1 = s\<lparr>limiter := lim\<rparr>
      in if \<not> ok then s1
         else case resolveBody (tree s1) msgid of
           None \<Rightarrow> s1\<lparr>tree := remove_expired entries (tree s1)\<rparr>
         | Some bodyPath \<Rightarrow>
             (let (oc, out) = resolveOutbound (se_out env) bodyPath (ocache s1);
                  (t, claimed) = claim_all env entries (tree s1);
                  envByPath = map_of (rev (map (\<lambda>(p, x, e). (p, e)) claimed));
                  s2 = final_attempts env bodyPath out envByPath fqdn claimed (s1\<lparr>tree := t, ocache := oc\<rparr>)
              in deliver_active env bodyPath out envByPath fqdn
                   (map fst (filter (\<lambda>(p, x, e). \<not> x) claimed)) s2))"

text \<open>Bodies with no envelope left are removed; an envelope refers to a body when its name contains the
  message id between an at sign and a dot, so envelopes in delivery count as well.\<close>

definition bodyHasEnvelopes :: "qtree \<Rightarrow> string \<Rightarrow> bool" where
  "bodyHasEnvelopes t msgid =
     list_ex (\<lambda>p. length p = 4 \<and> hd p = ''env'' \<and> Contains (last p) (''@'' @ msgid @ ''.'')) (map fst t)"

definition orphan_body :: "qtree \<Rightarrow> qpath \<Rightarrow> bool" where
  "orphan_body t p = (length p = 4 \<and> hd p = ''msg'' \<and> \<not> HasPrefix (last p) ''tmp_'' \<and> \<not> bodyHasEnvelopes t (last p))"

definition cleanOrphanBodies :: "qpath \<Rightarrow> qtree \<Rightarrow> qtree" where
  "cleanOrphanBodies domainPath t = (case readdir t domainPath of
       None \<Rightarrow> t
     | Some remaining \<Rightarrow> filter (\<lambda>e. \<not> orphan_body t (fst e)) t)"

definition group_entries :: "(string \<times> env_entry) list \<Rightarrow> string \<Rightarrow> string \<times> env_entry list" where
  "group_entries rs msgid = (msgid, map snd (filter (\<lambda>r. fst r = msgid) rs))"

definition processDomainDir :: "sched_env \<Rightarrow> int \<Rightarrow> qpath \<Rightarrow> sched \<Rightarrow> sched" where
  "processDomainDir env now domainPath s = (case readdir (tree s) domainPath of
       None \<Rightarrow> s
     | Some entries \<Rightarrow>
         (let ready = List.map_filter (ready_entry env now (tree s) domainPath) entries;
              groups = map (group_entries ready) (se_order env (remdups (map fst ready)));
              s' = fold (process_group env now (domainFromPath domainPath)) groups s
          in s'\<lparr>tree := cleanOrphanBodies domainPath (tree s')\<rparr>))"

definition subdirs :: "qtree \<Rightarrow> qpath \<Rightarrow> qpath list" where
  "subdirs t d = (case readdir t d of None \<Rightarrow> [] | Some ns \<Rightarrow> map (\<lambda>n. d @ [n]) ns)"

definition domain_dirs :: "qtree \<Rightarrow> qpath list" where
  "domain_dirs t = concat (map (subdirs t) (subdirs t [''env'']))"

definition recoverStaleDeliveries :: "sched_env \<Rightarrow> qtree \<Rightarrow> qtree" where
  "recoverStaleDeliveries env t =
     fold (\<lambda>p t. case unclaim env p t of None \<Rightarrow> t | Some t' \<Rightarrow> t')
       (filter (\<lambda>p. HasSuffix (last p) deliveringSuffix) (concat (map (subdirs t) (domain_dirs t)))) t"

definition countEnvelopes :: "qtree \<Rightarrow> nat" where
  "countEnvelopes t =
     length (filter (\<lambda>p. extractMsgID (last p) \<noteq> None) (concat (map (subdirs t) (domain_dirs t))))"

definition RunOnce :: "sched_env \<Rightarrow> int \<Rightarrow> sched \<Rightarrow> sched" where
  "RunOnce env now s =
     (let s1 = s\<lparr>ocache := Map.empty, tree := recoverStaleDeliveries env (tree s)\<rparr>
      in fold (processDomainDir env now) (domain_dirs (tree s1)) s1)"

end
