(* ===== verification/SchedulerProps.thy ===== *)
theory SchedulerProps
  imports Scheduler
begin

text \<open>
  Properties of the queue and its scheduler: what is enqueued is found, envelopes are not lost, bodies
  are kept while an envelope refers to them, and the rates and intervals have the intended bounds.
\<close>

section \<open>Files\<close>

lemma map_of_filter_fst: "map_of (filter (\<lambda>e. P (fst e)) t) q = (if P q then map_of t q else None)"
  by (induction t) auto

lemma map_of_remove_file [simp]: "map_of (remove_file p t) q = (if q = p then None else map_of t q)"
  using map_of_filter_fst[of "\<lambda>x. x \<noteq> p" t q] by (simp add: remove_file_def)

lemma map_of_put_file [simp]: "map_of (put_file p f t) q = (if q = p then Some f else map_of t q)"
  using map_of_filter_fst[of "\<lambda>x. x \<noteq> p" t q] by (simp add: put_file_def map_add_def split: option.split)

lemma map_of_rename_file:
  "rename_file p p' t = Some t' \<Longrightarrow>
   map_of t' q = (if q = p' then map_of t p else if q = p then None else map_of t q)"
  by (auto simp: rename_file_def split: option.split_asm)

lemma rename_file_None [simp]: "rename_file p p' t = None \<longleftrightarrow> map_of t p = None"
  by (auto simp: rename_file_def split: option.split)

section \<open>Claimed names\<close>

lemma extractMsgID_not_claimed: "extractMsgID n \<noteq> None \<Longrightarrow> \<not> HasSuffix n deliveringSuffix"
  by (auto simp: extractMsgID_def)

lemma claimed_path_inject: "p \<noteq> [] \<Longrightarrow> q \<noteq> [] \<Longrightarrow> claimed_path p = claimed_path q \<longleftrightarrow> p = q"
  by (metis append1_eq_conv append_butlast_last_id append_same_eq claimed_path_def)

lemma claimed_path_not_live: "extractMsgID (last p) \<noteq> None \<Longrightarrow> p \<noteq> claimed_path q"
  using extractMsgID_not_claimed by (metis HasSuffix_append claimed_path_def last_snoc)

lemma unclaim_target: "p \<noteq> [] \<Longrightarrow> butlast (claimed_path p) @ [TrimSuffix (last (claimed_path p)) deliveringSuffix] = p"
  by (simp add: claimed_path_def)

lemma hd_claimed_path: "2 \<le> length p \<Longrightarrow> hd (claimed_path p) = hd p"
  by (cases p) (auto simp: claimed_path_def)

section \<open>Envelopes are not lost\<close>

text \<open>What the scheduler relies on of the delivery process: it changes no file but the envelopes it was
  given, and an envelope it was given keeps its contents unless a result reports it delivered or
  permanently failed.\<close>

definition reported :: "deliveryResult list \<Rightarrow> qpath \<Rightarrow> bool" where
  "reported rs q = (\<exists>r \<in> set rs. dr_Envelope r = q \<and> dr_Status r \<noteq> TempFail)"

definition has_env :: "qtree \<Rightarrow> qpath \<Rightarrow> queueEnvelope \<Rightarrow> bool" where
  "has_env t q e = (\<exists>m. map_of t q = Some (EnvFile e m))"

text \<open>The fate of an envelope is settled when it was reported delivered, or permanently failed and then bounced
  to its origin whenever bounces are on.\<close>

definition can_bounce :: "sched_env \<Rightarrow> queueEnvelope \<Rightarrow> bool" where
  "can_bounce env e = (se_dsn env \<and> (\<forall>b. se_dsn_ok env b) \<and> Origin e \<noteq> [])"

definition bounced :: "queueEnvelope \<Rightarrow> sched \<Rightarrow> bool" where
  "bounced e s = (\<exists>b \<in> set (bounces s). b_Origin b = Origin e \<and> b_Recipient b = Recipient e)"

definition settled :: "sched_env \<Rightarrow> qpath \<Rightarrow> queueEnvelope \<Rightarrow> sched \<Rightarrow> bool" where
  "settled env q e s = (\<exists>r \<in> set (reports s). dr_Envelope r = claimed_path q \<and>
     (dr_Status r = Delivered \<or> dr_Status r = PermFail \<and> (can_bounce env e \<longrightarrow> bounced e s)))"

text \<open>An envelope is safe when it is in place, or claimed, or its fate is settled.\<close>

definition env_safe :: "sched_env \<Rightarrow> qpath \<Rightarrow> queueEnvelope \<Rightarrow> sched \<Rightarrow> bool" where
  "env_safe env q e s = (has_env (tree s) q e \<or> map_of (tree s) q = None \<and> has_env (tree s) (claimed_path q) e \<or>
     settled env q e s)"



definition grows :: "sched \<Rightarrow> sched \<Rightarrow> bool" where
  "grows s s' = (set (reports s) \<subseteq> set (reports s') \<and> set (bounces s) \<subseteq> set (bounces s'))"

lemma settled_mono: "settled env q e s \<Longrightarrow> grows s s' \<Longrightarrow> settled env q e s'"
  unfolding settled_def grows_def bounced_def by blast

lemma grows_trans: "grows s s' \<Longrightarrow> grows s' s'' \<Longrightarrow> grows s s''"
  by (auto simp: grows_def)

text \<open>The entries of a group: live names, and the envelope in question is not among the expired ones.\<close>

definition entries_ok :: "qpath \<Rightarrow> env_entry list \<Rightarrow> bool" where
  "entries_ok q es = (\<forall>(p, x, e) \<in> set es. p \<noteq> [] \<and> extractMsgID (last p) \<noteq> None \<and> hd p = ''env'' \<and>
     length p = 4 \<and> (p = q \<longrightarrow> \<not> x))"

definition entries_env :: "qpath \<Rightarrow> queueEnvelope \<Rightarrow> env_entry list \<Rightarrow> bool" where
  "entries_env q e es = (\<forall>(p, x, e') \<in> set es. p = q \<longrightarrow> e' = e)"

lemma claim_step:
  assumes "claim env p t = Some t'" "extractMsgID (last p) \<noteq> None" "p \<noteq> []" "q \<noteq> []"
    and "extractMsgID (last q) \<noteq> None"
  shows "p = q \<Longrightarrow> map_of t' q = None \<and> map_of t' (claimed_path q) = map_of t q"
    and "p \<noteq> q \<Longrightarrow> map_of t' q = map_of t q \<and> map_of t' (claimed_path q) = map_of t (claimed_path q)"
proof -
  have r: "rename_file p (claimed_path p) t = Some t'" using assms(1) by (simp add: claim_def split: if_split_asm)
  note m = map_of_rename_file[OF r]
  show "p = q \<Longrightarrow> map_of t' q = None \<and> map_of t' (claimed_path q) = map_of t q"
    using claimed_path_not_live[OF assms(5)] by (simp add: m)
  show "p \<noteq> q \<Longrightarrow> map_of t' q = map_of t q \<and> map_of t' (claimed_path q) = map_of t (claimed_path q)"
    using claimed_path_not_live[OF assms(5)] claimed_path_not_live[OF assms(2)] assms(3,4)
    by (auto simp: m claimed_path_inject dest: not_sym)
qed

lemma claim_all_absent:
  assumes "entries_ok q es" "q \<noteq> []" "extractMsgID (last q) \<noteq> None" "claim_all env es t = (t', cs)"
    and "map_of t q = None"
  shows "map_of t' q = None"
  using assms(1,4,5)
proof (induction es arbitrary: t cs)
  case (Cons entry es)
  obtain p x e' where entry: "entry = (p, x, e')" by (metis prod_cases3)
  have p: "p \<noteq> []" "extractMsgID (last p) \<noteq> None" and es: "entries_ok q es"
    using Cons.prems(1) by (auto simp: entries_ok_def entry)
  show ?case
  proof (cases "claim env p t")
    case None
    then show ?thesis using Cons.IH[OF es] Cons.prems(2,3) by (simp add: entry)
  next
    case (Some t1)
    obtain cs' where "claim_all env es t1 = (t', cs')"
      using Cons.prems(2) Some by (auto simp: entry split: prod.split_asm)
    moreover have "map_of t1 q = None"
      using claim_step[OF Some p(2,1) assms(2,3)] Cons.prems(3) by (cases "p = q") auto
    ultimately show ?thesis by (rule Cons.IH[OF es])
  qed
qed simp

lemma claim_all_safe:
  assumes "entries_ok q es" "q \<noteq> []" "extractMsgID (last q) \<noteq> None" "claim_all env es t = (t', cs)"
    and "has_env t q e \<or> map_of t q = None \<and> has_env t (claimed_path q) e"
  shows "has_env t' q e \<and> claimed_path q \<notin> fst ` set cs \<or> map_of t' q = None \<and> has_env t' (claimed_path q) e"
  using assms(1,4,5)
proof (induction es arbitrary: t cs)
  case (Cons entry es)
  obtain p x e' where entry: "entry = (p, x, e')" by (metis prod_cases3)
  have p: "p \<noteq> []" "extractMsgID (last p) \<noteq> None" and es: "entries_ok q es"
    using Cons.prems(1) by (auto simp: entries_ok_def entry)
  show ?case
  proof (cases "claim env p t")
    case None
    then show ?thesis using Cons.IH[OF es] Cons.prems(2,3) by (simp add: entry)
  next
    case (Some t1)
    obtain cs' where cs: "claim_all env es t1 = (t', cs')" "cs = (claimed_path p, x, e') # cs'"
      using Cons.prems(2) Some by (auto simp: entry split: prod.split_asm)
    note step = claim_step[OF Some p(2,1) assms(2,3)]
    have ne: "map_of t p \<noteq> None" using Some by (auto simp: claim_def rename_file_def split: if_split_asm option.split_asm)
    have safe: "has_env t1 q e \<or> map_of t1 q = None \<and> has_env t1 (claimed_path q) e"
      using Cons.prems(3) step ne by (cases "p = q") (auto simp: has_env_def)
    show ?thesis
    proof (cases "p = q")
      case True
      then have "map_of t' q = None" using claim_all_absent[OF es assms(2,3) cs(1)] step(1) by simp
      then show ?thesis using Cons.IH[OF es cs(1) safe] by (auto simp: has_env_def)
    next
      case False
      then show ?thesis using Cons.IH[OF es cs(1) safe] p assms(2) by (auto simp: cs claimed_path_inject)
    qed
  qed
qed (simp add: has_env_def)

lemma claim_all_paths:
  "claim_all env es t = (t', cs) \<Longrightarrow> \<forall>(p, x, e) \<in> set cs. \<exists>q. p = claimed_path q \<and> (q, x, e) \<in> set es"
proof (induction es arbitrary: t cs)
  case (Cons entry es)
  obtain p x e where entry: "entry = (p, x, e)" by (metis prod_cases3)
  then show ?case using Cons by (fastforce split: option.split_asm prod.split_asm)
qed simp

lemma claim_all_other:
  assumes "claim_all env es t = (t', cs)" "\<forall>(p, x, e) \<in> set es. p \<noteq> f \<and> claimed_path p \<noteq> f"
  shows "map_of t' f = map_of t f"
  using assms
proof (induction es arbitrary: t cs)
  case (Cons entry es)
  obtain p x e where entry: "entry = (p, x, e)" by (metis prod_cases3)
  show ?case
  proof (cases "claim env p t")
    case None
    then show ?thesis using Cons by (simp add: entry)
  next
    case (Some t1)
    then have "map_of t1 f = map_of t f"
      using Cons.prems(2) map_of_rename_file[of p "claimed_path p" t t1 f]
      by (auto simp: entry claim_def split: if_split_asm)
    then show ?thesis using Cons Some by (auto simp: entry split: prod.split_asm)
  qed
qed simp

lemma unclaim_all_other:
  assumes "f \<notin> set ps" "\<forall>p \<in> set ps. butlast p @ [TrimSuffix (last p) deliveringSuffix] \<noteq> f"
  shows "map_of (unclaim_all env ps t) f = map_of t f"
  using assms
proof (induction ps arbitrary: t)
  case (Cons p ps)
  then show ?case using map_of_rename_file[of p "butlast p @ [TrimSuffix (last p) deliveringSuffix]" t]
    by (auto simp: unclaim_def split: option.split)
qed simp

lemma unclaim_all_safe:
  assumes "\<forall>p \<in> set ps. \<exists>r. r \<noteq> [] \<and> extractMsgID (last r) \<noteq> None \<and> p = claimed_path r"
    and "q \<noteq> []" "extractMsgID (last q) \<noteq> None"
    and "has_env t q e \<and> (claimed_path q \<notin> set ps \<or> map_of t (claimed_path q) = None) \<or>
         map_of t q = None \<and> has_env t (claimed_path q) e"
  shows "has_env (unclaim_all env ps t) q e \<or>
         map_of (unclaim_all env ps t) q = None \<and> has_env (unclaim_all env ps t) (claimed_path q) e"
  using assms(1,4)
proof (induction ps arbitrary: t)
  case (Cons p ps)
  obtain r where r: "r \<noteq> []" "extractMsgID (last r) \<noteq> None" "p = claimed_path r" using Cons.prems(1) by auto
  have ps: "\<forall>p \<in> set ps. \<exists>r. r \<noteq> [] \<and> extractMsgID (last r) \<noteq> None \<and> p = claimed_path r"
    using Cons.prems(1) by simp
  show ?case
  proof (cases "map_of t p = None \<or> unclaim env p t = None")
    case True
    then have "unclaim_all env (p # ps) t = unclaim_all env ps t" by auto
    moreover have "has_env t q e \<and> (claimed_path q \<notin> set ps \<or> map_of t (claimed_path q) = None) \<or>
         map_of t q = None \<and> has_env t (claimed_path q) e" using Cons.prems(2) by auto
    ultimately show ?thesis using Cons.IH[OF ps] by simp
  next
    case False
    then obtain t1 where t1: "unclaim env p t = Some t1" "map_of t p \<noteq> None" by auto
    then have rn: "rename_file p r t = Some t1"
      using unclaim_target[OF r(1)] by (simp add: unclaim_def r(3) split: if_split_asm)
    note m = map_of_rename_file[OF rn]
    have "has_env t1 q e \<and> (claimed_path q \<notin> set ps \<or> map_of t1 (claimed_path q) = None) \<or>
         map_of t1 q = None \<and> has_env t1 (claimed_path q) e"
    proof (cases "r = q")
      case True
      then show ?thesis
        using Cons.prems(2) t1(2) r(3) claimed_path_not_live[OF assms(3), of q] by (auto simp: has_env_def m)
    next
      case False
      have "claimed_path q \<noteq> r" "claimed_path q \<noteq> p" "q \<noteq> p"
        using claimed_path_not_live[OF r(2), of q] claimed_path_not_live[OF assms(3), of r] False r assms(2)
        by (auto simp: claimed_path_inject)
      then show ?thesis using Cons.prems(2) False by (auto simp: has_env_def m)
    qed
    then have "has_env (unclaim_all env ps t1) q e \<or>
         map_of (unclaim_all env ps t1) q = None \<and> has_env (unclaim_all env ps t1) (claimed_path q) e"
      by (rule Cons.IH[OF ps])
    then show ?thesis using t1 by auto
  qed
qed (auto simp: has_env_def)

lemma remove_expired_other:
  "\<forall>(p, x, e) \<in> set es. x \<longrightarrow> p \<noteq> f \<Longrightarrow> map_of (remove_expired es t) f = map_of t f"
  by (induction es t rule: remove_expired.induct) auto

lemma entries_okD:
  assumes "entries_ok q es" "(p, x, e) \<in> set es"
  shows "p \<noteq> []" "extractMsgID (last p) \<noteq> None" "hd p = ''env''" "length p = 4" "p = q \<Longrightarrow> \<not> x"
  using assms unfolding entries_ok_def by auto

text \<open>The steps of a group, with the claims and attempts spelled out.\<close>

lemma process_group_cases:
  obtains "tree (process_group env now dn (msgid, es) s) = tree s" "grows s (process_group env now dn (msgid, es) s)"
  | "tree (process_group env now dn (msgid, es) s) = remove_expired es (tree s)"
      "grows s (process_group env now dn (msgid, es) s)"
  | body out s1 t cs ebp where "claim_all env es (tree s) = (t, cs)" "tree s1 = t" "grows s s1"
      "ebp = map_of (rev (map (\<lambda>(p, x, e). (p, e)) cs))"
      "process_group env now dn (msgid, es) s =
       deliver_active env body out ebp dn (map fst (filter (\<lambda>(p, x, e). \<not> x) cs))
         (final_attempts env body out ebp dn cs s1)"
proof -
  obtain lim ok where l: "(case limiter s of
             None \<Rightarrow> (None, True)
           | Some dl \<Rightarrow> (case dl_allow (real_of_int now / 1000000000) dn (length es) dl of
               (dl', b) \<Rightarrow> (Some dl', b))) = (lim, ok)" by force
  obtain t cs where c: "claim_all env es (tree s) = (t, cs)" by force
  consider "\<not> ok" | "ok" "resolveBody (tree s) msgid = None" | body where "ok" "resolveBody (tree s) msgid = Some body"
    by (cases "resolveBody (tree s) msgid") auto
  then show ?thesis
  proof cases
    case 1
    then show ?thesis using that(1) by (simp add: process_group_def l grows_def)
  next
    case 2
    then show ?thesis using that(2) by (simp add: process_group_def l grows_def)
  next
    case 3
    obtain oc out where ro: "resolveOutbound (se_out env) body (ocache s) = (oc, out)" by force
    have "process_group env now dn (msgid, es) s =
       deliver_active env body out (map_of (rev (map (\<lambda>(p, x, e). (p, e)) cs))) dn
         (map fst (filter (\<lambda>(p, x, e). \<not> x) cs))
         (final_attempts env body out (map_of (rev (map (\<lambda>(p, x, e). (p, e)) cs))) dn cs
           (s\<lparr>limiter := lim, tree := t, ocache := oc\<rparr>))"
      using 3 by (simp add: process_group_def l c ro Let_def)
    then show ?thesis
      by (intro that(3)[OF c, of "s\<lparr>limiter := lim, tree := t, ocache := oc\<rparr>"]) (simp_all add: grows_def)
  qed
qed

lemma Contains_append: "Contains (a @ sub @ b) sub"
  unfolding Contains_def list_ex_iff
  by (rule bexI[of _ "sub @ b"]) (simp_all add: suffix_def)

lemma extractMsgID_parts:
  assumes "extractMsgID n = Some h"
  obtains l r where "n = l @ ''@'' @ h @ ''.'' @ r"
proof -
  obtain l rest where r: "CutLastByte (CHR ''@'') n = Some (l, rest)"
    and h: "map_option fst (CutLastByte (CHR ''.'') rest) = Some h"
    using assms by (auto simp: extractMsgID_def split: if_split_asm option.split_asm)
  obtain r' where "CutLastByte (CHR ''.'') rest = Some (h, r')" using h by auto
  then have "rest = h @ CHR ''.'' # r'" by (simp add: CutLastByte_Some_iff)
  moreover have "n = l @ CHR ''@'' # rest" using r by (simp add: CutLastByte_Some_iff)
  ultimately show ?thesis using that[of l r'] by simp
qed

lemma bodyHasEnvelopes_intro:
  assumes "extractMsgID n = Some h" "map_of t [''env'', a, b, n] \<noteq> None \<or> map_of t [''env'', a, b, n @ sfx] \<noteq> None"
  shows "bodyHasEnvelopes t h"
proof -
  obtain l r where n: "n = l @ ''@'' @ h @ ''.'' @ r" using extractMsgID_parts[OF assms(1)] .
  have c: "Contains n (''@'' @ h @ ''.'')" "Contains (n @ sfx) (''@'' @ h @ ''.'')"
    using Contains_append[of l "''@'' @ h @ ''.''" r] Contains_append[of l "''@'' @ h @ ''.''" "r @ sfx"]
    by (simp_all add: n)
  obtain p where "p \<in> fst ` set t" "p = [''env'', a, b, n] \<or> p = [''env'', a, b, n @ sfx]"
    using assms(2) by (metis map_of_eq_None_iff)
  then show ?thesis using c by (force simp: bodyHasEnvelopes_def list_ex_iff)
qed

lemma cleanOrphanBodies_lookup:
  "map_of (cleanOrphanBodies d t) f = (if readdir t d \<noteq> None \<and> orphan_body t f then None else map_of t f)"
  using map_of_filter_fst[of "\<lambda>p. \<not> orphan_body t p" t f] by (simp add: cleanOrphanBodies_def split: option.split)

lemma ready_entries_ok:
  assumes "\<And>e' m. map_of t q = Some (EnvFile e' m) \<Longrightarrow> e' = e \<and> \<not> env_expired now e'"
  shows "entries_ok q (snd (group_entries (List.map_filter (ready_entry env now t [''env'', a, b]) ns) msgid)) \<and>
    entries_env q e (snd (group_entries (List.map_filter (ready_entry env now t [''env'', a, b]) ns) msgid))"
proof -
  have "p \<noteq> [] \<and> extractMsgID (last p) \<noteq> None \<and> hd p = ''env'' \<and> length p = 4 \<and> (p = q \<longrightarrow> \<not> x \<and> e' = e)"
    if "ready_entry env now t [''env'', a, b] n' = Some (i, p, x, e')" for n' i p x e'
    using that assms
    by (auto simp: ready_entry_def split: option.split_asm qfile.split_asm if_split_asm)
  moreover have "\<exists>i n'. ready_entry env now t [''env'', a, b] n' = Some (i, p, x, e')"
    if "(p, x, e') \<in> set (snd (group_entries (List.map_filter (ready_entry env now t [''env'', a, b]) ns) msgid))"
    for p x e'
    using that by (auto simp: group_entries_def List.map_filter_def) blast
  ultimately show ?thesis unfolding entries_ok_def entries_env_def by blast
qed

text \<open>Queued mail is kept: the envelope under its own or its claimed name, together with the body.\<close>

definition kept :: "qpath \<Rightarrow> queueEnvelope \<Rightarrow> qpath \<Rightarrow> qfile \<Rightarrow> qtree \<Rightarrow> bool" where
  "kept q e f body t = ((has_env t q e \<or> map_of t q = None \<and> has_env t (claimed_path q) e) \<and> map_of t f = Some body)"

text \<open>The recovery of stale claims renames claimed envelopes back.  No file is claimed twice over.\<close>

definition once_claimed :: "qtree \<Rightarrow> bool" where
  "once_claimed t = (\<forall>p \<in> fst ` set t. \<not> HasSuffix (last p) (deliveringSuffix @ deliveringSuffix))"

definition recoverable :: "qpath \<Rightarrow> queueEnvelope \<Rightarrow> qpath \<Rightarrow> qfile \<Rightarrow> qtree \<Rightarrow> bool" where
  "recoverable q e f body t = (kept q e f body t \<and> once_claimed t \<and>
     (has_env t q e \<longrightarrow> map_of t (claimed_path q) = None))"

lemma recover_one:
  assumes "recoverable q e f body t" "q \<noteq> []" "extractMsgID (last q) \<noteq> None"
    and "hd p = ''env''" "HasSuffix (last p) deliveringSuffix" "3 \<le> length p" "hd f = ''msg''"
    and "unclaim env p t = Some t'"
  shows "recoverable q e f body t'"
proof -
  let ?r = "butlast p @ [TrimSuffix (last p) deliveringSuffix]"
  obtain u where u: "last p = u @ deliveringSuffix"
    using assms(5) by (auto simp: HasSuffix_iff_suffix suffix_def)
  then have ru: "?r = butlast p @ [u]" by simp
  have "p \<noteq> []" using assms(6) by auto
  then have p: "p = claimed_path ?r"
    using u append_butlast_last_id[of p] by (simp add: claimed_path_def)
  have rn: "rename_file p ?r t = Some t'" using assms(8) by (simp add: unclaim_def split: if_split_asm)
  note m = map_of_rename_file[OF rn]
  have there: "map_of t p \<noteq> None" using rn by (auto simp: rename_file_def split: option.split_asm)
  then have once: "\<not> HasSuffix (last p) (deliveringSuffix @ deliveringSuffix)"
    using assms(1) by (auto simp: recoverable_def once_claimed_def map_of_eq_None_iff)
  have nr: "\<not> HasSuffix u deliveringSuffix"
    using once u by (auto simp: HasSuffix_iff_suffix suffix_def)
  then have cr: "?r \<noteq> claimed_path q" unfolding ru by (auto simp: claimed_path_def)
  have "\<not> HasSuffix u (deliveringSuffix @ deliveringSuffix)"
    using nr by (auto simp: HasSuffix_iff_suffix suffix_def)
  moreover have "fst ` set t' \<subseteq> insert ?r (fst ` set t)"
    using rn by (auto simp: rename_file_def put_file_def remove_file_def split: option.split_asm)
  moreover have "once_claimed t" using assms(1) by (simp add: recoverable_def)
  ultimately have oc: "once_claimed t'" unfolding once_claimed_def ru by fastforce
  have "hd ?r = ''env''" using assms(4,6) by (cases p) auto
  then have f: "f \<noteq> p" "f \<noteq> ?r" using assms(4,7) by auto
  have q: "q \<noteq> p" using claimed_path_not_live[OF assms(3), of ?r] p by metis
  have "kept q e f body t' \<and> (has_env t' q e \<longrightarrow> map_of t' (claimed_path q) = None)"
  proof (cases "?r = q")
    case True
    then have "p = claimed_path q" using p by simp
    then show ?thesis using assms(1) True q f there by (auto simp: recoverable_def kept_def has_env_def m)
  next
    case False
    have "?r \<noteq> []" by simp
    then have "claimed_path q \<noteq> p" using p claimed_path_inject assms(2) False by metis
    then show ?thesis using assms(1) False q f cr[symmetric] by (auto simp: recoverable_def kept_def has_env_def m)
  qed
  then show ?thesis using oc by (simp add: recoverable_def)
qed

lemma recover_kept:
  assumes "recoverable q e f body t" "q \<noteq> []" "extractMsgID (last q) \<noteq> None" "hd f = ''msg''"
  shows "recoverable q e f body (recoverStaleDeliveries env t)"
proof -
  let ?ps = "filter (\<lambda>p. HasSuffix (last p) deliveringSuffix) (concat (map (subdirs t) (domain_dirs t)))"
  have "hd p = ''env'' \<and> 3 \<le> length p \<and> HasSuffix (last p) deliveringSuffix" if "p \<in> set ?ps" for p
    using that by (auto simp: domain_dirs_def subdirs_def split: option.split_asm)
  then have ps: "\<forall>p \<in> set ?ps. hd p = ''env'' \<and> 3 \<le> length p \<and> HasSuffix (last p) deliveringSuffix" by blast
  have "recoverable q e f body (fold (\<lambda>p t. case unclaim env p t of None \<Rightarrow> t | Some t' \<Rightarrow> t') ps t)"
    if "\<forall>p \<in> set ps. hd p = ''env'' \<and> 3 \<le> length p \<and> HasSuffix (last p) deliveringSuffix"
      "recoverable q e f body t" for ps t
    using that
  proof (induction ps arbitrary: t)
    case (Cons p ps)
    have "recoverable q e f body (case unclaim env p t of None \<Rightarrow> t | Some t' \<Rightarrow> t')"
      using recover_one[OF Cons.prems(2) assms(2,3)] Cons.prems assms(4) by (auto split: option.split)
    then show ?case using Cons by simp
  qed simp
  from this[OF ps assms(1)] show ?thesis by (simp add: recoverStaleDeliveries_def)
qed

section \<open>The delivery process as an interface\<close>

text \<open>What the scheduler relies on of the delivery process: it changes no file but the envelopes it was
  given, and an envelope it was given keeps its contents unless a result of that very invocation reports
  it delivered or permanently failed.\<close>

locale delivery_agent =
  fixes env :: sched_env
  assumes remote_other: "f \<notin> set ps \<Longrightarrow> map_of (fst (se_remote env body ps fin out t)) f = map_of t f"
    and remote_keeps: "has_env t f e \<Longrightarrow> has_env (fst (se_remote env body ps fin out t)) f e \<or>
          f \<in> set ps \<and> reported (snd (se_remote env body ps fin out t)) f"
begin

lemma final_grows: "grows s (final_attempts env body out ebp dn cs s)"
proof (induction cs arbitrary: s)
  case (Cons c cs)
  obtain p x e where c: "c = (p, x, e)" by (metis prod_cases3)
  define s1 where "s1 = s\<lparr>tree := remove_file p (fst (se_remote env body [p] True out (tree s))),
        reports := reports s @ snd (se_remote env body [p] True out (tree s)),
        bounces := bounces s @ generateDSNsForExpired env ebp dn (snd (se_remote env body [p] True out (tree s)))\<rparr>"
  have "grows s s1" by (auto simp: grows_def s1_def)
  then have "grows s (final_attempts env body out ebp dn cs s1)" using Cons grows_trans by blast
  moreover have "final_attempts env body out ebp dn (c # cs) s =
      (if x then final_attempts env body out ebp dn cs s1 else final_attempts env body out ebp dn cs s)"
    by (simp add: c case_prod_unfold s1_def)
  ultimately show ?case using Cons[of s] by simp
qed (simp add: grows_def)

text \<open>The deliveries of a group: the file of an unclaimed envelope is left alone, a claimed one keeps its
  contents or is reported.\<close>

lemma final_attempts_other:
  assumes "\<forall>(p, x, e) \<in> set cs. x \<longrightarrow> p \<noteq> f"
  shows "map_of (tree (final_attempts env body out ebp dn cs s)) f = map_of (tree s) f"
  using assms
proof (induction cs arbitrary: s)
  case (Cons c cs)
  obtain p x e where c: "c = (p, x, e)" by (metis prod_cases3)
  show ?case
  proof (cases x)
    case True
    obtain t rs where r: "se_remote env body [p] True out (tree s) = (t, rs)" by force
    have "map_of t f = map_of (tree s) f"
      using remote_other[of f "[p]" body True out "tree s"] Cons.prems True r by (auto simp: c)
    then show ?thesis using Cons True by (auto simp: c r)
  next
    case False
    then show ?thesis using Cons by (simp add: c)
  qed
qed simp

lemma deliver_active_grows: "grows s (deliver_active env body out ebp dn ps s)"
  by (auto simp: deliver_active_def case_prod_unfold grows_def)

lemma permfail_bounced:
  assumes "r \<in> set rs" "dr_Status r = PermFail" "ebp (dr_Envelope r) = Some e" "can_bounce env e"
  shows "\<exists>b \<in> set (generateDSNsForPermFail env ebp dn rs). b_Origin b = Origin e \<and> b_Recipient b = Recipient e"
  using assms by (force simp: generateDSNsForPermFail_def generateAndDeliverDSN_def can_bounce_def Let_def)

lemma deliver_active_safe:
  assumes ps: "\<forall>p \<in> set ps. \<exists>r. r \<noteq> [] \<and> extractMsgID (last r) \<noteq> None \<and> p = claimed_path r"
    and q: "q \<noteq> []" "extractMsgID (last q) \<noteq> None"
    and "has_env (tree s) q e \<and> claimed_path q \<notin> set ps \<or>
         map_of (tree s) q = None \<and> has_env (tree s) (claimed_path q) e"
    and ebp: "claimed_path q \<in> set ps \<Longrightarrow> ebp (claimed_path q) = Some e"
  shows "env_safe env q e (deliver_active env body out ebp dn ps s)"
proof (cases "ps = []")
  case True
  then show ?thesis using assms(4) by (auto simp: deliver_active_def env_safe_def)
next
  case False
  let ?t = "fst (se_remote env body ps False out (tree s))" and ?rs = "snd (se_remote env body ps False out (tree s))"
  let ?s = "deliver_active env body out ebp dn ps s"
  have t: "tree ?s = unclaim_all env ps ?t" "reports ?s = reports s @ ?rs"
    "bounces ?s = bounces s @ generateDSNsForPermFail env ebp dn ?rs"
    using False by (simp_all add: deliver_active_def case_prod_unfold)
  have "q \<notin> set ps" using ps claimed_path_not_live[OF q(2)] by blast
  then have mq: "map_of ?t q = map_of (tree s) q" by (rule remote_other)
  show ?thesis
  proof (cases "claimed_path q \<in> set ps \<and> reported ?rs (claimed_path q)")
    case False
    have "has_env ?t q e \<and> (claimed_path q \<notin> set ps \<or> map_of ?t (claimed_path q) = None) \<or>
         map_of ?t q = None \<and> has_env ?t (claimed_path q) e"
      using assms(4) mq False remote_keeps[of "tree s" "claimed_path q" e body ps False out]
      by (auto simp: has_env_def)
    from unclaim_all_safe[OF ps q this] show ?thesis by (auto simp: t env_safe_def)
  next
    case True
    then obtain r where r: "r \<in> set ?rs" "dr_Envelope r = claimed_path q" "dr_Status r \<noteq> TempFail"
      by (auto simp: reported_def)
    have "bounced e ?s" if "dr_Status r = PermFail" "can_bounce env e"
      using permfail_bounced[of r ?rs ebp e dn] r True ebp that by (auto simp: bounced_def t)
    then show ?thesis using r by (cases "dr_Status r") (auto simp: env_safe_def settled_def t)
  qed
qed

lemma process_group_grows: "grows s (process_group env now dn (msgid, es) s)"
proof (rule process_group_cases[of env now dn msgid es s])
  fix body out s1 t cs ebp
  assume s1: "grows s s1"
    and eq: "process_group env now dn (msgid, es) s =
         deliver_active env body out ebp dn (map fst (filter (\<lambda>(p, x, e). \<not> x) cs))
           (final_attempts env body out ebp dn cs s1)"
  show ?thesis unfolding eq by (rule grows_trans[OF grows_trans[OF s1 final_grows] deliver_active_grows])
qed simp_all

lemma process_group_safe:
  assumes "entries_ok q es" "q \<noteq> []" "extractMsgID (last q) \<noteq> None" "env_safe env q e s"
    and "entries_env q e es"
  shows "env_safe env q e (process_group env now dn (msgid, es) s)"
proof (cases "settled env q e s")
  case False
  then have safe: "has_env (tree s) q e \<or> map_of (tree s) q = None \<and> has_env (tree s) (claimed_path q) e"
    using assms(4) by (simp add: env_safe_def)
  have live: "p \<noteq> claimed_path r" if "(p, x, e') \<in> set es" for p x e' r
    using claimed_path_not_live entries_okD(2)[OF assms(1) that] by blast
  show ?thesis
  proof (rule process_group_cases[of env now dn msgid es s])
    assume "tree (process_group env now dn (msgid, es) s) = tree s"
    then show ?thesis using safe by (auto simp: env_safe_def)
  next
    assume t: "tree (process_group env now dn (msgid, es) s) = remove_expired es (tree s)"
    have "map_of (remove_expired es (tree s)) f = map_of (tree s) f" if "f \<in> {q, claimed_path q}" for f
      by (rule remove_expired_other) (use that live entries_okD(5)[OF assms(1)] in fastforce)
    then show ?thesis using safe by (auto simp: t env_safe_def has_env_def)
  next
    fix body out s1 t cs ebp
    assume c: "claim_all env es (tree s) = (t, cs)" and s1: "tree s1 = t" and ebp: "ebp = map_of (rev (map (\<lambda>(p, x, e). (p, e)) cs))"
      and eq: "process_group env now dn (msgid, es) s =
         deliver_active env body out ebp dn (map fst (filter (\<lambda>(p, x, e). \<not> x) cs))
           (final_attempts env body out ebp dn cs s1)"
    note paths = claim_all_paths[OF c]
    have f: "map_of (tree (final_attempts env body out ebp dn cs s1)) f = map_of t f" if "f \<in> {q, claimed_path q}" for f
    proof -
      have "p \<noteq> f" if c': "(p, x, e') \<in> set cs" "x" for p x e'
      proof
        assume "p = f"
        then obtain r where r: "f = claimed_path r" "(r, x, e') \<in> set es" using paths c'(1) by fastforce
        then have "r = q" using \<open>f \<in> {q, claimed_path q}\<close> claimed_path_not_live[OF assms(3)] assms(2)
            entries_okD(1)[OF assms(1)] by (auto simp: claimed_path_inject)
        then show False using entries_okD(5)[OF assms(1)] r c'(2) by blast
      qed
      then have "\<forall>(p, x, e) \<in> set cs. x \<longrightarrow> p \<noteq> f" by blast
      then show ?thesis using final_attempts_other s1 by simp
    qed
    have "\<forall>p \<in> set (map fst (filter (\<lambda>(p, x, e). \<not> x) cs)).
        \<exists>r. r \<noteq> [] \<and> extractMsgID (last r) \<noteq> None \<and> p = claimed_path r"
      using paths entries_okD(1,2)[OF assms(1)] by fastforce
    moreover have "has_env t q e \<and> claimed_path q \<notin> set (map fst (filter (\<lambda>(p, x, e). \<not> x) cs)) \<or>
        map_of t q = None \<and> has_env t (claimed_path q) e"
      using claim_all_safe[OF assms(1-3) c safe] by auto
    moreover have "ebp (claimed_path q) = Some e" if "claimed_path q \<in> set (map fst (filter (\<lambda>(p, x, e). \<not> x) cs))"
    proof -
      have "e' = e" if "(claimed_path q, x, e') \<in> set cs" for x e'
        using paths that assms(2,5) entries_okD(1)[OF assms(1)] by (fastforce simp: claimed_path_inject entries_env_def)
      then have "e' = e" if "(claimed_path q, e') \<in> set (rev (map (\<lambda>(p, x, e). (p, e)) cs))" for e' using that by auto
      moreover have "map_of (rev (map (\<lambda>(p, x, e). (p, e)) cs)) (claimed_path q) \<noteq> None"
        using that unfolding map_of_eq_None_iff set_rev set_map image_image by (force simp: image_iff case_prod_unfold)
      ultimately show ?thesis unfolding ebp by (metis map_of_SomeD not_None_eq)
    qed
    ultimately show ?thesis
      unfolding eq by (intro deliver_active_safe assms) (simp_all add: has_env_def f)
  qed
next
  case True
  then have "settled env q e (process_group env now dn (msgid, es) s)" by (rule settled_mono[OF _ process_group_grows])
  then show ?thesis by (simp add: env_safe_def)
qed

lemma process_group_bodies:
  assumes "entries_ok q es" "hd f = ''msg''"
  shows "map_of (tree (process_group env now dn (msgid, es) s)) f = map_of (tree s) f"
proof -
  have neq: "p \<noteq> f" "claimed_path p \<noteq> f" if "(p, x, e) \<in> set es" for p x e
    using entries_okD[OF assms(1) that] hd_claimed_path[of p] assms(2) by auto
  show ?thesis
  proof (rule process_group_cases[of env now dn msgid es s])
    assume t: "tree (process_group env now dn (msgid, es) s) = remove_expired es (tree s)"
    show ?thesis unfolding t by (rule remove_expired_other) (use neq(1) in blast)
  next
    fix body out s1 t cs ebp
    assume c: "claim_all env es (tree s) = (t, cs)" and s1: "tree s1 = t"
      and eq: "process_group env now dn (msgid, es) s =
         deliver_active env body out ebp dn (map fst (filter (\<lambda>(p, x, e). \<not> x) cs))
           (final_attempts env body out ebp dn cs s1)"
    let ?ps = "map fst (filter (\<lambda>(p, x, e). \<not> x) cs)"
    have cs: "p \<noteq> f \<and> butlast p @ [TrimSuffix (last p) deliveringSuffix] \<noteq> f" if "(p, x, e) \<in> set cs" for p x e
      using claim_all_paths[OF c] that neq unclaim_target entries_okD(1)[OF assms(1)] by fastforce
    have "map_of t f = map_of (tree s) f" by (rule claim_all_other[OF c]) (use neq in fastforce)
    moreover have "map_of (tree (final_attempts env body out ebp dn cs s1)) f = map_of t f"
      using final_attempts_other[of cs f body out ebp dn s1] cs s1 by fastforce
    moreover have "map_of (unclaim_all env ?ps t') f = map_of t' f" for t'
      by (rule unclaim_all_other) (use cs in fastforce)+
    moreover have "f \<notin> set ?ps" using cs by fastforce
    ultimately show ?thesis
      unfolding eq using remote_other by (simp add: deliver_active_def case_prod_unfold)
  qed simp
qed

lemma fold_groups:
  assumes "\<forall>g \<in> set gs. entries_ok q (snd g) \<and> entries_env q e (snd g)" "q \<noteq> []" "extractMsgID (last q) \<noteq> None"
    and "env_safe env q e s" "hd f = ''msg''"
  shows "env_safe env q e (fold (process_group env now dn) gs s) \<and>
         map_of (tree (fold (process_group env now dn) gs s)) f = map_of (tree s) f"
  using assms(1,4)
proof (induction gs arbitrary: s)
  case (Cons g gs)
  obtain msgid es where g: "g = (msgid, es)" by force
  have es: "entries_ok q es" "entries_env q e es" using Cons.prems(1) g by simp_all
  have "env_safe env q e (process_group env now dn g s)"
    unfolding g by (rule process_group_safe[OF es(1) assms(2,3) Cons.prems(2) es(2)])
  then show ?case
    using Cons.IH[of "process_group env now dn g s"] Cons.prems(1) process_group_bodies[OF es(1) assms(5)]
    by (simp add: g)
qed simp

lemma fold_groups_grow: "grows s (fold (process_group env now dn) gs s)"
proof (induction gs arbitrary: s)
  case (Cons g gs)
  obtain msgid es where g: "g = (msgid, es)" by force
  from grows_trans[OF process_group_grows Cons] show ?case by (simp add: g)
qed (simp add: grows_def)

text \<open>Processing any directory of the queue keeps an envelope that has not expired, together with the body
  of its message, unless the envelope was reported delivered or permanently failed.  So does a whole scan.\<close>

lemma domain_scan_keeps_mail:
  assumes "kept [''env'', a, b, n] e [''msg'', c, d, h] body (tree s) \<or> settled env [''env'', a, b, n] e s"
    and "extractMsgID n = Some h" "\<not> env_expired now e"
    and "s' = processDomainDir env now [''env'', a', b'] s"
  shows "kept [''env'', a, b, n] e [''msg'', c, d, h] body (tree s') \<or> settled env [''env'', a, b, n] e s'"
proof -
  let ?q = "[''env'', a, b, n]" and ?f = "[''msg'', c, d, h]" and ?dn = "domainFromPath [''env'', a', b']"
  have cq: "claimed_path ?q = [''env'', a, b, n @ deliveringSuffix]" by (simp add: claimed_path_def)
  show ?thesis
  proof (cases "readdir (tree s) [''env'', a', b']")
    case None
    then have "s' = s" using assms(4) by (simp add: processDomainDir_def)
    then show ?thesis using assms(1) by blast
  next
    case (Some ns)
    define ready where "ready = List.map_filter (ready_entry env now (tree s) [''env'', a', b']) ns"
    define gs where "gs = map (group_entries ready) (se_order env (remdups (map fst ready)))"
    define s1 where "s1 = fold (process_group env now ?dn) gs s"
    have s': "tree s' = cleanOrphanBodies [''env'', a', b'] (tree s1)" "grows s1 s'"
      using Some assms(4) by (simp_all add: processDomainDir_def ready_def gs_def s1_def Let_def grows_def)
    show ?thesis
    proof (cases "settled env ?q e s")
      case True
      have "grows s s1" unfolding s1_def by (rule fold_groups_grow)
      then have "grows s s'" using s'(2) grows_trans by blast
      then show ?thesis using settled_mono[OF True] by blast
    next
      case False
      then have k: "kept ?q e ?f body (tree s)" using assms(1) by simp
      then have "e' = e \<and> \<not> env_expired now e'" if "map_of (tree s) ?q = Some (EnvFile e' m)" for e' m
        using that assms(3) by (auto simp: kept_def has_env_def)
      from ready_entries_ok[OF this, where ?env = env and ?a = a' and ?b = b']
      have gs: "\<forall>g \<in> set gs. entries_ok ?q (snd g) \<and> entries_env ?q e (snd g)" by (auto simp: gs_def ready_def)
      have "env_safe env ?q e s" using k by (auto simp: env_safe_def kept_def)
      from fold_groups[OF gs _ _ this, of ?f now ?dn] k assms(2)
      have s1: "env_safe env ?q e s1" "map_of (tree s1) ?f = Some body" by (auto simp: s1_def kept_def)
      have "\<not> orphan_body t ?q" "\<not> orphan_body t (claimed_path ?q)" for t
        by (simp_all add: orphan_body_def cq)
      moreover have "\<not> orphan_body (tree s1) ?f"
        if "has_env (tree s1) ?q e \<or> has_env (tree s1) (claimed_path ?q) e"
        using bodyHasEnvelopes_intro[OF assms(2), of "tree s1" a b deliveringSuffix] that
        by (auto simp: orphan_body_def has_env_def cq)
      ultimately show ?thesis using s1 settled_mono[OF _ s'(2), of env ?q e]
        by (auto simp: s'(1) cleanOrphanBodies_lookup env_safe_def kept_def has_env_def cq)
    qed
  qed
qed

lemma run_keeps_mail:
  assumes "recoverable [''env'', a, b, n] e [''msg'', c, d, h] body (tree s)"
    and "extractMsgID n = Some h" "\<not> env_expired now e"
  shows "kept [''env'', a, b, n] e [''msg'', c, d, h] body (tree (RunOnce env now s)) \<or>
    settled env [''env'', a, b, n] e (RunOnce env now s)"
proof -
  let ?P = "\<lambda>s. kept [''env'', a, b, n] e [''msg'', c, d, h] body (tree s) \<or>
    settled env [''env'', a, b, n] e s"
  define s1 where "s1 = s\<lparr>ocache := Map.empty, tree := recoverStaleDeliveries env (tree s)\<rparr>"
  have start: "?P s1" using recover_kept[OF assms(1), of env] assms(2) by (simp add: s1_def recoverable_def)
  have "\<exists>a' b'. p = [''env'', a', b']" if "p \<in> set (domain_dirs (tree s1))" for p
    using that by (auto simp: domain_dirs_def subdirs_def split: option.split_asm)
  then have ps: "\<forall>p \<in> set (domain_dirs (tree s1)). \<exists>a' b'. p = [''env'', a', b']" by blast
  have "?P (fold (processDomainDir env now) ps s)" if "\<forall>p \<in> set ps. \<exists>a' b'. p = [''env'', a', b']" "?P s" for ps s
    using that
  proof (induction ps arbitrary: s)
    case (Cons p ps)
    obtain a' b' where p: "p = [''env'', a', b']" using Cons.prems(1) by auto
    have "?P (processDomainDir env now p s)"
      unfolding p by (rule domain_scan_keeps_mail[OF Cons.prems(2) assms(2,3) refl])
    then show ?case using Cons by simp
  qed simp
  from this[OF ps start] show ?thesis by (simp add: RunOnce_def s1_def)
qed

end

end
