(* ===== verification/QueueProps.thy ===== *)
theory QueueProps
  imports SchedulerProps
begin

text \<open>What the two halves of the outbound queue promise together: a message that \<open>Write\<close> accepts is found by
  the scheduler under the same identifier, except where the clean-up of bodies runs between the writing of a
  body and of its first envelope, and except for recipient domains whose labels do not give three directory
  levels.  It also holds the bounds of the retry back-off and of the token bucket.\<close>

section \<open>What is enqueued is found\<close>

lemma is_hex_plain: "is_hex c \<Longrightarrow> c \<noteq> CHR ''@'' \<and> c \<noteq> CHR ''.''"
  by (auto simp: is_hex_def Let_def)

lemma is_hex_digit: "n < 16 \<Longrightarrow> is_hex (hex_digit n)"
  by (auto simp: is_hex_def hex_digit_def Let_def of_char_of take_bit_eq_mod)

lemma hex_encode_hex: "list_all is_hex (hex_encode b)"
proof -
  have "(of_char c :: nat) < 256" for c by simp
  then have "(of_char c :: nat) div 16 < 16" for c by (simp add: less_mult_imp_div_less)
  then show ?thesis by (auto simp: hex_encode_def list_all_iff Let_def is_hex_digit)
qed

lemma extractMsgID_env_name:
  assumes "list_all is_hex h" "h \<noteq> []"
  shows "extractMsgID (env_name l h n) = Some h"
proof -
  have h: "CHR ''@'' \<notin> set h" "CHR ''.'' \<notin> set h" using assms(1) is_hex_plain by (auto simp: list_all_iff)
  have "\<not> is_digit (CHR ''@'')" "\<not> is_digit (CHR ''.'')" "\<not> is_digit (CHR ''g'')" by (simp_all add: is_digit_def)
  then have i: "CHR ''@'' \<notin> set (itoa n)" "CHR ''.'' \<notin> set (itoa n)" "last (itoa n) \<noteq> CHR ''g''"
    using itoa_set_digit last_in_set[OF itoa_not_Nil] by (blast, blast, metis)
  have "last (env_name l h n) = last (itoa n)" by (simp add: env_name_def)
  moreover have "last s = CHR ''g''" if sfx: "HasSuffix s deliveringSuffix" for s
  proof -
    obtain u where "s = u @ deliveringSuffix" using sfx by (auto simp: HasSuffix_iff_suffix suffix_def)
    then show ?thesis by (simp add: deliveringSuffix_def)
  qed
  ultimately have "\<not> HasSuffix (env_name l h n) deliveringSuffix" using i(3) by metis
  moreover have "CutLastByte (CHR ''@'') (l @ CHR ''@'' # h @ CHR ''.'' # itoa n) = Some (l, h @ CHR ''.'' # itoa n)"
    using h i by simp
  moreover have "CutLastByte (CHR ''.'') (h @ CHR ''.'' # itoa n) = Some (h, itoa n)" using i by simp
  ultimately show ?thesis by (simp add: extractMsgID_def env_name_def)
qed

lemma write_envelopes_shape:
  "write_envelopes fail cfg now from msgid h k rcpts = (es, None) \<Longrightarrow>
   es = map (\<lambda>(n, rcpt). Put (env_path rcpt h n) (EnvFile \<lparr>TTL = Some (now + q_TTL cfg), Created = now,
          Sender = verpAddress rcpt (q_Hostname cfg), Recipient = rcpt, MsgID = msgid, Origin = from\<rparr> now))
        (enumerate k rcpts)"
  by (induction rcpts arbitrary: k es)
     (auto simp: Let_def split: prod.split_asm if_split_asm)

lemma hex_encode_ne: "b \<noteq> [] \<Longrightarrow> hex_encode b \<noteq> []"
  by (cases b) (auto simp: hex_encode_def Let_def)

lemma Write_shape:
  assumes "Write fail cfg now rnd from rcpts preset body = (effs, Inr msgid)"
    and "\<forall>b. rnd = Some b \<longrightarrow> length b = 16"
  obtains h out where "list_all is_hex h" "h \<noteq> []" "msgid = h @ ''@'' @ extractDomain from"
    "effs = Put (body_path (extractDomain from) h) (BodyFile out) #
       map (\<lambda>(n, rcpt). Put (env_path rcpt h n) (EnvFile \<lparr>TTL = Some (now + q_TTL cfg), Created = now,
          Sender = verpAddress rcpt (q_Hostname cfg), Recipient = rcpt, MsgID = msgid, Origin = from\<rparr> now))
        (enumerate 0 rcpts)"
proof -
  define pick_id where "pick_id = (if preset \<noteq> [] then
                   (if validMsgIDHex preset then Inr (preset @ ''@'' @ extractDomain from, preset)
                    else Inl ErrPresetMsgID)
                 else case newMsgID rnd (extractDomain from) of None \<Rightarrow> Inl ErrGenerate | Some p \<Rightarrow> Inr p)"
  have ok: "\<exists>p. pick_id = Inr p"
    using assms(1) unfolding pick_id_def[symmetric] Write_def Let_def
    by (cases pick_id) (auto split: if_split_asm)
  have "\<exists>h. pick_id = Inr (h @ ''@'' @ extractDomain from, h) \<and> list_all is_hex h \<and> h \<noteq> []"
  proof (cases "preset = []")
    case True
    then obtain b where b: "rnd = Some b" using ok by (cases rnd) (auto simp: pick_id_def newMsgID_def)
    then have "b \<noteq> []" using assms(2) by auto
    then show ?thesis using True b hex_encode_hex hex_encode_ne by (auto simp: pick_id_def newMsgID_def)
  next
    case False
    then show ?thesis using ok by (auto simp: pick_id_def validMsgIDHex_def split: if_split_asm)
  qed
  then obtain h where h: "pick_id = Inr (h @ ''@'' @ extractDomain from, h)"
    and hex: "list_all is_hex h" "h \<noteq> []" by blast
  obtain out es where effs: "effs = Put (body_path (extractDomain from) h) (BodyFile out) # es"
    and es: "write_envelopes fail cfg now from (h @ ''@'' @ extractDomain from) h 0 rcpts = (es, None)"
    and msgid: "msgid = h @ ''@'' @ extractDomain from"
    using assms(1) unfolding Write_def Let_def pick_id_def[symmetric] h
    by (auto split: if_split_asm option.split_asm prod.split_asm)
  show ?thesis
    by (rule that[OF hex msgid]) (simp_all add: effs write_envelopes_shape[OF es] msgid)
qed

lemma fold_apply_paths:
  "fst ` set (fold apply_effect effs t) \<subseteq> (\<lambda>e. case e of Put p f \<Rightarrow> p) ` set effs \<union> fst ` set t"
proof (induction effs arbitrary: t)
  case (Cons e effs)
  obtain p f where e: "e = Put p f" by (cases e)
  have "fst ` set (put_file p f t) \<subseteq> insert p (fst ` set t)" by (auto simp: put_file_def)
  moreover have "fst ` set (fold apply_effect effs (put_file p f t)) \<subseteq>
      (\<lambda>e. case e of Put p f \<Rightarrow> p) ` set effs \<union> fst ` set (put_file p f t)" by (rule Cons)
  ultimately show ?case by (simp add: e) blast
qed simp

lemma resolveBody_unique:
  assumes "map_of t p \<noteq> None" "length p = 4" "hd p = ''msg''" "last p = h"
    and "\<And>q. q \<in> fst ` set t \<Longrightarrow> length q = 4 \<Longrightarrow> hd q = ''msg'' \<Longrightarrow> last q = h \<Longrightarrow> q = p"
  shows "resolveBody t h = Some p"
proof -
  let ?xs = "filter (\<lambda>p. length p = 4 \<and> hd p = ''msg'' \<and> last p = h) (map fst t)"
  have "p \<in> fst ` set t" using assms(1) by (simp add: map_of_eq_None_iff)
  then have "p \<in> set ?xs" using assms(2-4) by (simp add: image_iff)
  moreover have "set ?xs \<subseteq> {p}" using assms(5) by auto
  ultimately show ?thesis by (cases ?xs) (auto simp: resolveBody_def)
qed

lemma last_env_path [simp]: "last (env_path rcpt h n) = env_name (fst (splitAddress rcpt)) h n"
  by (simp add: env_path_def join_path_def env_name_def case_prod_unfold Let_def)

lemma hd_env_path [simp]: "hd (env_path rcpt h n) = ''env''"
  by (simp add: env_path_def join_path_def case_prod_unfold Let_def)

lemma hd_body_path [simp]: "hd (body_path d h) = ''msg''"
  by (simp add: body_path_def join_path_def case_prod_unfold Let_def)

lemma last_body_path [simp]: "h \<noteq> [] \<Longrightarrow> last (body_path d h) = h"
  by (simp add: body_path_def join_path_def case_prod_unfold Let_def)

lemma env_name_inject:
  assumes "env_name l h n = env_name l' h' n'"
  shows "n = n'"
proof -
  have "\<not> is_digit (CHR ''.'')" by (simp add: is_digit_def)
  then have i: "CHR ''.'' \<notin> set (itoa k)" for k using itoa_set_digit by blast
  have "CutLastByte (CHR ''.'') (env_name l h n) = Some (l @ ''@'' @ h, itoa n)" for l h n
    using i by (simp add: env_name_def CutLastByte_Some_iff)
  from this[of l h n] this[of l' h' n'] show ?thesis unfolding assms by simp
qed

lemma env_path_inject: "env_path r h n = env_path r' h' n' \<Longrightarrow> n = n'"
  by (metis env_name_inject last_env_path)

lemma body_not_env: "body_path d h \<noteq> env_path r h' n"
proof
  assume "body_path d h = env_path r h' n"
  then have "hd (body_path d h) = hd (env_path r h' n)" by simp
  then show False by simp
qed

lemma fold_apply_put:
  assumes "distinct (map (\<lambda>e. case e of Put p f \<Rightarrow> p) effs)" "Put p f \<in> set effs"
  shows "map_of (fold apply_effect effs t) p = Some f"
  using assms
proof (induction effs arbitrary: t)
  case (Cons e effs)
  obtain p' f' where e: "e = Put p' f'" by (cases e)
  have other: "p \<notin> (\<lambda>e. case e of Put p f \<Rightarrow> p) ` set effs \<Longrightarrow> map_of (fold apply_effect effs t) p = map_of t p" for t
  proof (induction effs arbitrary: t)
    case (Cons x xs)
    then show ?case by (cases x) auto
  qed simp
  show ?case
  proof (cases "Put p f \<in> set effs")
    case True
    then show ?thesis using Cons by (simp add: e)
  next
    case False
    then have "p' = p" "f' = f" using Cons.prems(2) by (auto simp: e)
    then show ?thesis using Cons.prems(1) other by (simp add: e)
  qed
qed simp

lemma env_effects_distinct:
  "distinct (map (\<lambda>e. case e of Put p f \<Rightarrow> p) (map (\<lambda>(n, rcpt). Put (env_path rcpt h n) (g n rcpt)) (enumerate k rcpts)))"
proof -
  have "distinct (map (\<lambda>(n, rcpt). env_path rcpt h n) (enumerate k rcpts))"
    unfolding distinct_map
  proof
    show "inj_on (\<lambda>(n, rcpt). env_path rcpt h n) (set (enumerate k rcpts))"
      by (rule inj_onI) (auto simp: in_set_enumerate_eq dest: env_path_inject)
  qed (rule distinct_enumerate)
  then show ?thesis by (simp add: comp_def case_prod_unfold)
qed


definition demo_id :: string where
  "demo_id = ''0123456789abcdef0123456789abcdef''"

definition demo_qcfg :: queue_cfg where
  "demo_qcfg = \<lparr>q_TTL = 100, q_Hostname = ''mx'', q_DKIMSign = None\<rparr>"

lemmas address_eval = extractDomain_def splitAddress_def strip_angle_def validAddressComponent_def go_eval

lemma demo_addresses:
  "extractDomain ''al@y.org'' = ''y.org''" "splitAddress ''bob@x.com'' = (''bob'', ''x.com'')"
  "validAddressComponent ''y.org''" "validAddressComponent ''bob''" "validAddressComponent ''x.com''"
  by (simp_all add: address_eval)

lemma demo_id_valid: "validMsgIDHex demo_id" "demo_id \<noteq> []"
  by (simp_all add: validMsgIDHex_def demo_id_def is_hex_def)

definition demo_write :: "queue_effect list \<times> (queue_error + string)" where
  "demo_write = Write {} demo_qcfg 5 None ''al@y.org'' [''bob@x.com''] demo_id ''hi''"

lemma demo_write_ok: "\<exists>effs. demo_write = (effs, Inr (demo_id @ ''@y.org''))"
  by (simp add: demo_write_def Write_def demo_addresses demo_id_valid demo_qcfg_def Let_def)

lemma demo_body_path: "body_path ''y.org'' demo_id = [''msg'', ''org'', ''y'', demo_id]"
  using demo_id_valid by (simp add: body_path_def splitDomainLabels_def join_path_def go_eval)


text \<open>The clean-up of bodies races with the enqueuing of a message.  \<open>Write\<close> puts the body in place before
  the first envelope.  A clean-up that runs in between removes the body as an orphan, and although
  \<open>Write\<close> then puts the envelopes in place and reports success, the scheduler finds no body for them.\<close>

theorem enqueue_race_loses_body:
  assumes "Write fail cfg now rnd from rcpts preset body = (eff # effs, Inr (h @ ''@'' @ extractDomain from))"
    and "\<forall>b. rnd = Some b \<longrightarrow> length b = 16"
    and "length (body_path (extractDomain from) h) = 4"
    and "\<forall>p \<in> fst ` set t. last p \<noteq> h" "\<not> bodyHasEnvelopes t h"
    and "readdir (apply_effect eff t) dir \<noteq> None"
    and "t' = fold apply_effect effs (cleanOrphanBodies dir (apply_effect eff t))"
  shows "resolveBody t' h = None \<and>
    (\<forall>n < length rcpts. \<exists>env. map_of t' (env_path (rcpts ! n) h n) = Some (EnvFile env now))"
proof -
  obtain g out where g: "list_all is_hex g" "g \<noteq> []" "h @ ''@'' @ extractDomain from = g @ ''@'' @ extractDomain from"
    and shape: "eff # effs = Put (body_path (extractDomain from) g) (BodyFile out) #
       map (\<lambda>(n, rcpt). Put (env_path rcpt g n) (EnvFile \<lparr>TTL = Some (now + q_TTL cfg), Created = now,
          Sender = verpAddress rcpt (q_Hostname cfg), Recipient = rcpt, MsgID = h @ ''@'' @ extractDomain from,
          Origin = from\<rparr> now)) (enumerate 0 rcpts)"
    using Write_shape[OF assms(1,2)] .
  have gh: "g = h" using g(3) by simp
  note h = g(1,2)[unfolded gh] and effs = shape[unfolded gh]
  let ?b = "body_path (extractDomain from) h"
  have eff: "eff = Put ?b (BodyFile out)" and es: "\<And>p. p \<in> (\<lambda>e. case e of Put p f \<Rightarrow> p) ` set effs \<Longrightarrow> hd p = ''env''"
    using effs by auto
  have "\<not> HasPrefix h ''tmp_''"
  proof (cases h)
    case (Cons c u)
    have "is_hex c" using h(1) Cons by simp
    moreover have "\<not> is_hex (CHR ''t'')" by (simp add: is_hex_def)
    ultimately show ?thesis by (auto simp: Cons HasPrefix_def)
  qed (use h in simp)
  moreover have "\<not> bodyHasEnvelopes (put_file ?b (BodyFile out) t) h"
    using assms(5) by (auto simp: bodyHasEnvelopes_def put_file_def list_ex_iff)
  ultimately have orphan: "orphan_body (put_file ?b (BodyFile out) t) ?b"
    using assms(3) h by (simp add: orphan_body_def)
  have "\<not> (length q = 4 \<and> hd q = ''msg'' \<and> last q = h)" if q: "q \<in> fst ` set t'" for q
  proof
    assume m: "length q = 4 \<and> hd q = ''msg'' \<and> last q = h"
    then have "q \<notin> (\<lambda>e. case e of Put p f \<Rightarrow> p) ` set effs" using es[of q] by auto
    then have "q \<in> fst ` set (cleanOrphanBodies dir (put_file ?b (BodyFile out) t))"
      using fold_apply_paths[of effs "cleanOrphanBodies dir (apply_effect eff t)"] q unfolding assms(7) eff by auto
    then have "map_of (cleanOrphanBodies dir (put_file ?b (BodyFile out) t)) q \<noteq> None"
      by (simp add: map_of_eq_None_iff)
    then have "q \<noteq> ?b" "map_of (put_file ?b (BodyFile out) t) q \<noteq> None"
      using orphan assms(6) eff by (auto simp: cleanOrphanBodies_lookup split: if_split_asm)
    then have "q \<in> fst ` set t" by (auto simp: map_of_eq_None_iff split: if_split_asm)
    then show False using assms(4) m by blast
  qed
  then have "filter (\<lambda>p. length p = 4 \<and> hd p = ''msg'' \<and> last p = h) (map fst t') = []"
    by (auto simp: filter_empty_conv)
  then have none: "resolveBody t' h = None" by (simp add: resolveBody_def)
  have dist: "distinct (map (\<lambda>e. case e of Put p f \<Rightarrow> p) effs)"
    using env_effects_distinct effs by simp
  have put: "\<exists>env. Put (env_path (rcpts ! n) h n) (EnvFile env now) \<in> set effs" if "n < length rcpts" for n
  proof -
    have "(n, rcpts ! n) \<in> set (enumerate 0 rcpts)" using that by (simp add: in_set_enumerate_eq)
    then show ?thesis using effs by force
  qed
  have "\<exists>env. map_of t' (env_path (rcpts ! n) h n) = Some (EnvFile env now)" if "n < length rcpts" for n
    using put[OF that] fold_apply_put[OF dist] unfolding assms(7) by blast
  then show ?thesis using none by blast
qed

definition demo_other :: qtree where
  "demo_other = [([''env'', ''com'', ''x'', ''eve@77.0''], BadEnv 3)]"

lemma demo_no_envelopes: "\<not> bodyHasEnvelopes demo_other demo_id"
  by (simp add: bodyHasEnvelopes_def demo_other_def demo_id_def go_eval)

lemma demo_effects: "\<exists>eff effs. demo_write = (eff # effs, Inr (demo_id @ ''@'' @ extractDomain ''al@y.org'')) \<and>
    (\<exists>out. eff = Put (body_path ''y.org'' demo_id) (BodyFile out))"
  by (simp add: demo_write_def Write_def demo_addresses demo_id_valid demo_qcfg_def Let_def)

theorem enqueue_race_loses_body_witness:
  "\<exists>eff effs. demo_write = (eff # effs, Inr (demo_id @ ''@'' @ extractDomain ''al@y.org'')) \<and>
     resolveBody (fold apply_effect effs (cleanOrphanBodies [''env'', ''com'', ''x''] (apply_effect eff demo_other))) demo_id = None"
proof -
  obtain eff effs out where w: "demo_write = (eff # effs, Inr (demo_id @ ''@'' @ extractDomain ''al@y.org''))"
    and eff: "eff = Put (body_path ''y.org'' demo_id) (BodyFile out)" using demo_effects by blast
  have rnd: "\<forall>b. (None :: string option) = Some b \<longrightarrow> length b = 16" by simp
  have len: "length (body_path (extractDomain ''al@y.org'') demo_id) = 4" by (simp add: demo_body_path demo_addresses)
  have fresh: "\<forall>p \<in> fst ` set demo_other. last p \<noteq> demo_id" by (simp add: demo_other_def demo_id_def)
  have dir: "readdir (apply_effect eff demo_other) [''env'', ''com'', ''x''] \<noteq> None"
    by (simp add: eff readdir_def demo_other_def demo_body_path put_file_def)
  show ?thesis
    using enqueue_race_loses_body[OF w[unfolded demo_write_def] rnd len fresh demo_no_envelopes dir refl] w by blast
qed

section \<open>The retry back-off and the rate limit\<close>

lemma retryInterval_eq:
  assumes "0 < age"
  shows "retryInterval age =
    min \<lfloor>300000000000 * 2 powr (real_of_int age / 3600000000000)\<rfloor> 14400000000000"
proof -
  have "(1::real) \<le> 2 powr (real_of_int age / 3600000000000)" using assms by (intro ge_one_powr_ge_zero) auto
  then have "(300000000000 :: real) \<le> 300000000000 * 2 powr (real_of_int age / 3600000000000)" by simp
  then have "300000000000 \<le> \<lfloor>300000000000 * 2 powr (real_of_int age / 3600000000000)\<rfloor>" by (simp add: le_floor_iff)
  then show ?thesis using assms by (simp add: retryInterval_def Let_def)
qed

lemma retryInterval_floor_ge:
  "0 \<le> age \<Longrightarrow> 300000000000 \<le> \<lfloor>300000000000 * 2 powr (real_of_int age / 3600000000000)\<rfloor>"
  using ge_one_powr_ge_zero[of 2 "real_of_int age / 3600000000000"] by (simp add: le_floor_iff)

text \<open>The back-off of the scheduler.  The wait before a retry is never below five minutes nor above four
  hours, never shrinks as the message ages, and doubles with every whole hour up to the cap: after five
  hours it is 160 minutes, and the cap is reached only in the sixth hour.\<close>

theorem retry_backoff_bounds:
  "300000000000 \<le> retryInterval age \<and> retryInterval age \<le> 14400000000000 \<and>
   (age \<le> later \<longrightarrow> retryInterval age \<le> retryInterval later) \<and>
   retryInterval (int k * 3600000000000) = min (300000000000 * 2 ^ k) 14400000000000"
proof (intro conjI impI)
  have lo: "300000000000 \<le> retryInterval a" for a
    using retryInterval_floor_ge[of a] by (cases "0 < a") (simp_all add: retryInterval_eq, simp add: retryInterval_def)
  then show "300000000000 \<le> retryInterval age" .
  show "retryInterval age \<le> 14400000000000"
    by (cases "0 < age") (simp_all add: retryInterval_eq, simp add: retryInterval_def)
  show "retryInterval age \<le> retryInterval later" if "age \<le> later"
  proof (cases "0 < age")
    case True
    have "2 powr (real_of_int age / 3600000000000) \<le> (2::real) powr (real_of_int later / 3600000000000)"
      using that by (intro powr_mono) auto
    then have "\<lfloor>300000000000 * 2 powr (real_of_int age / 3600000000000)\<rfloor> \<le>
        \<lfloor>300000000000 * 2 powr (real_of_int later / 3600000000000) :: real\<rfloor>" by (intro floor_mono) simp
    then show ?thesis using True that by (simp add: retryInterval_eq)
  next
    case False
    then have "retryInterval age = 300000000000" by (simp add: retryInterval_def)
    then show ?thesis using lo by simp
  qed
  have "\<lfloor>300000000000 * (2::real) powr real k\<rfloor> = 300000000000 * 2 ^ k"
  proof -
    have "300000000000 * (2::real) powr real k = real_of_int (300000000000 * 2 ^ k)" by (simp add: powr_realpow)
    then show ?thesis by (metis floor_of_int)
  qed
  then show "retryInterval (int k * 3600000000000) = min (300000000000 * 2 ^ k) 14400000000000"
    by (cases "k = 0") (simp add: retryInterval_def, simp add: retryInterval_eq)
qed

theorem retry_backoff_bounds_witness: "retryInterval (5 * 3600000000000) = 9600000000000"
  using retry_backoff_bounds[of 0 0 5] by simp

text \<open>A run of requests against the limiter, each with its time, domain and batch size: how many messages
  to one domain it lets through.\<close>

fun granted :: "string \<Rightarrow> (real \<times> string \<times> nat) list \<Rightarrow> domainLimiter \<Rightarrow> nat" where
  "granted d [] dl = 0"
| "granted d ((now, d', n) # rs) dl =
     (if snd (dl_allow now d' n dl) \<and> d' = d then n else 0) + granted d rs (fst (dl_allow now d' n dl))"

fun times_from :: "real \<Rightarrow> (real \<times> string \<times> nat) list \<Rightarrow> bool" where
  "times_from t [] = True"
| "times_from t ((now, d, n) # rs) = (t \<le> now \<and> times_from now rs)"

text \<open>The refill rate of a domain in messages per second.\<close>

definition rate_of :: "limit_cfg \<Rightarrow> string \<Rightarrow> real" where
  "rate_of cfg d = real_of_int (fst (limits_of cfg d)) / 3600"

lemma rate_of_pos: "0 < fst (limits_of cfg d) \<Longrightarrow> 0 < rate_of cfg d"
  by (simp add: rate_of_def)

text \<open>The credit of a domain at a time: what its bucket would hold if it had no ceiling.\<close>

definition bucket_ok :: "limit_cfg \<Rightarrow> string \<Rightarrow> real \<Rightarrow> domainLimiter \<Rightarrow> bool" where
  "bucket_ok cfg d t dl \<longleftrightarrow> dl_cfg dl = cfg \<and> (\<forall>b. dl_buckets dl d = Some b \<longrightarrow>
     tb_rate b = rate_of cfg d \<and> tb_burst b = real_of_int (snd (limits_of cfg d)) \<and>
     0 \<le> tb_tokens b \<and> tb_last b \<le> t)"

definition credit :: "limit_cfg \<Rightarrow> string \<Rightarrow> real \<Rightarrow> domainLimiter \<Rightarrow> real" where
  "credit cfg d t dl = (case dl_buckets dl d of
       None \<Rightarrow> real_of_int (snd (limits_of cfg d))
     | Some b \<Rightarrow> tb_tokens b + (t - tb_last b) * tb_rate b)"

lemma refill_split: "(a :: real) + (now - l) * r = a + (t - l) * r + r * (now - t)"
  by (simp add: algebra_simps)

lemma refill_chain: "(r :: real) * (stop - t) = r * (now - t) + r * (stop - now)"
  by (simp add: algebra_simps)

lemma dl_allow_other:
  assumes "d' \<noteq> d"
  shows "dl_buckets (fst (dl_allow now d' n dl)) d = dl_buckets dl d"
    and "dl_cfg (fst (dl_allow now d' n dl)) = dl_cfg dl"
  using assms by (auto simp: dl_allow_def bucket_def tb_allow_def Let_def split: prod.split option.split)

lemma dl_allow_step:
  assumes ok: "bucket_ok cfg d t dl" and t: "t \<le> now" and rate: "0 < fst (limits_of cfg d)"
    and burst: "0 \<le> snd (limits_of cfg d)"
  shows "bucket_ok cfg d now (fst (dl_allow now d n dl))"
    and "credit cfg d now (fst (dl_allow now d n dl)) + (if snd (dl_allow now d n dl) then real n else 0)
      \<le> credit cfg d t dl + rate_of cfg d * (now - t)"
    and "snd (dl_allow now d n dl) \<Longrightarrow> int n \<le> snd (limits_of cfg d)"
proof -
  let ?r = "rate_of cfg d" and ?B = "real_of_int (snd (limits_of cfg d))"
  have cfg: "dl_cfg dl = cfg" using ok by (simp add: bucket_ok_def)
  obtain b where b: "snd (bucket now d dl) = Some b" "tb_rate b = ?r" "tb_burst b = ?B" "tb_last b \<le> now" "0 \<le> tb_tokens b"
    and cr: "tb_tokens b + (now - tb_last b) * ?r \<le> credit cfg d t dl + ?r * (now - t)"
    and keep: "dl_cfg (fst (bucket now d dl)) = cfg"
  proof (cases "dl_buckets dl d")
    case None
    have "0 \<le> ?r * (now - t)" using rate_of_pos[OF rate] t by simp
    then show ?thesis using None cfg rate burst that
      by (simp add: bucket_def credit_def rate_of_def case_prod_unfold Let_def)
  next
    case (Some b)
    then have "tb_rate b = ?r" "tb_burst b = ?B" "tb_last b \<le> t" "0 \<le> tb_tokens b" using ok by (auto simp: bucket_ok_def)
    moreover from this have "credit cfg d t dl = tb_tokens b + (t - tb_last b) * ?r" using Some by (simp add: credit_def)
    ultimately show ?thesis using Some cfg rate t that[of b] refill_split[of "tb_tokens b" now "tb_last b" ?r t]
      by (simp add: bucket_def case_prod_unfold Let_def)
  qed
  define r where "r = tb_allow now n b"
  have step: "dl_allow now d n dl = ((fst (bucket now d dl))\<lparr>dl_buckets := (dl_buckets (fst (bucket now d dl)))(d \<mapsto> fst r)\<rparr>, snd r)"
    using b(1) by (simp add: dl_allow_def r_def case_prod_unfold split: prod.split option.split)
  have r: "tb_rate (fst r) = ?r" "tb_burst (fst r) = ?B" "tb_last (fst r) = now"
    "tb_tokens (fst r) + (if snd r then real n else 0) \<le> tb_tokens b + (now - tb_last b) * ?r"
    "snd r \<Longrightarrow> real n \<le> ?B"
    using b(2-5) by (auto simp: r_def tb_allow_def Let_def split: if_split_asm)
  have "0 \<le> (now - tb_last b) * ?r" using b(4) rate_of_pos[OF rate] by simp
  then have pos: "0 \<le> tb_tokens (fst r)" using b(2-5) burst by (auto simp: r_def tb_allow_def Let_def)
  show "bucket_ok cfg d now (fst (dl_allow now d n dl))" using r keep pos by (simp add: step bucket_ok_def)
  show "credit cfg d now (fst (dl_allow now d n dl)) + (if snd (dl_allow now d n dl) then real n else 0)
      \<le> credit cfg d t dl + ?r * (now - t)" using r cr by (simp add: step credit_def)
  show "snd (dl_allow now d n dl) \<Longrightarrow> int n \<le> snd (limits_of cfg d)" using r(5) by (simp add: step)
qed

lemma credit_other:
  assumes "bucket_ok cfg d t dl" "t \<le> now" "d' \<noteq> d" "0 < fst (limits_of cfg d)"
  shows "bucket_ok cfg d now (fst (dl_allow now d' n dl))"
    and "credit cfg d now (fst (dl_allow now d' n dl)) \<le>
      credit cfg d t dl + rate_of cfg d * (now - t)"
proof -
  show "bucket_ok cfg d now (fst (dl_allow now d' n dl))"
    using assms by (auto simp: bucket_ok_def dl_allow_other)
  show "credit cfg d now (fst (dl_allow now d' n dl)) \<le>
      credit cfg d t dl + rate_of cfg d * (now - t)"
  proof (cases "dl_buckets dl d")
    case None
    then show ?thesis using assms rate_of_pos[OF assms(4)] by (simp add: credit_def dl_allow_other)
  next
    case (Some b)
    then have r: "tb_rate b = rate_of cfg d" using assms(1) by (simp add: bucket_ok_def)
    show ?thesis unfolding r[symmetric]
      using Some assms(3) refill_split[of "tb_tokens b" now "tb_last b" "tb_rate b" t] by (simp add: credit_def dl_allow_other)
  qed
qed

lemma granted_bound:
  assumes "bucket_ok cfg d t dl" "times_from t rs" "\<forall>r \<in> set rs. fst r \<le> stop" "t \<le> stop"
    and rate: "0 < fst (limits_of cfg d)" and burst: "0 \<le> snd (limits_of cfg d)"
  shows "real (granted d rs dl) \<le> credit cfg d t dl + rate_of cfg d * (stop - t)"
  using assms(1-4)
proof (induction rs arbitrary: t dl)
  case Nil
  have "0 \<le> credit cfg d t dl" using Nil rate_of_pos[OF rate] burst by (auto simp: bucket_ok_def credit_def split: option.split)
  then show ?case using Nil rate_of_pos[OF rate] by simp
next
  case (Cons req rs)
  obtain now d' n where req: "req = (now, d', n)" by (cases req)
  let ?r = "rate_of cfg d" and ?dl = "fst (dl_allow now d' n dl)"
  have now: "t \<le> now" "now \<le> stop" "times_from now rs" "\<forall>r \<in> set rs. fst r \<le> stop"
    using Cons.prems by (auto simp: req)
  have "bucket_ok cfg d now ?dl" and
    cr: "credit cfg d now ?dl + (if snd (dl_allow now d' n dl) \<and> d' = d then real n else 0) \<le>
       credit cfg d t dl + ?r * (now - t)"
    using dl_allow_step(1,2)[OF Cons.prems(1) now(1) rate burst] credit_other[OF Cons.prems(1) now(1) _ rate]
    by (cases "d' = d"; simp)+
  from Cons.IH[OF this(1) now(3,4,2)] cr refill_chain[of ?r stop t now]
  show ?case unfolding req granted.simps of_nat_add by (cases "snd (dl_allow now d' n dl) \<and> d' = d") auto
qed

text \<open>C26: the rate limit holds over every run.  Whatever requests reach a fresh limiter, in time order and for any
  mix of domains, the messages let through to one domain never exceed its burst plus its hourly rate times
  the time passed.  A batch larger than the burst is refused however long the bucket has been filling.\<close>

theorem rate_limit_holds:
  assumes "newDomainLimiter cfg = Some dl" "times_from start rs" "\<forall>r \<in> set rs. fst r \<le> stop" "start \<le> stop"
    and "limits_of cfg d = (mph, burst)" "0 < mph" "0 \<le> burst"
  shows "real (granted d rs dl) \<le> real_of_int burst + real_of_int mph / 3600 * (stop - start) \<and>
    ((\<forall>r \<in> set rs. fst (snd r) = d \<longrightarrow> burst < int (snd (snd r))) \<longrightarrow> granted d rs dl = 0)"
proof
  have fresh: "dl_cfg dl = cfg" "dl_buckets dl d = None" using assms(1) by (auto simp: newDomainLimiter_def split: if_split_asm)
  then have ok: "bucket_ok cfg d start dl" by (simp add: bucket_ok_def)
  show "real (granted d rs dl) \<le> real_of_int burst + real_of_int mph / 3600 * (stop - start)"
    using granted_bound[OF ok assms(2-4)] assms(5-7) fresh by (simp add: credit_def rate_of_def)
  have "granted d rs dl = 0" if "bucket_ok cfg d t dl" "times_from t rs"
    "\<forall>r \<in> set rs. fst (snd r) = d \<longrightarrow> burst < int (snd (snd r))" for t rs dl
    using that
  proof (induction rs arbitrary: t dl)
    case (Cons req rs)
    obtain now d' n where req: "req = (now, d', n)" by (cases req)
    have rate: "0 < fst (limits_of cfg d)" "0 \<le> snd (limits_of cfg d)" and now: "t \<le> now" using assms(5-7) Cons.prems by (simp_all add: req)
    have "bucket_ok cfg d now (fst (dl_allow now d' n dl))"
      using dl_allow_step(1)[OF Cons.prems(1) now rate] credit_other(1)[OF Cons.prems(1) now _ rate(1)]
      by (cases "d' = d") simp_all
    moreover have "\<not> (snd (dl_allow now d' n dl) \<and> d' = d)"
      using dl_allow_step(3)[OF Cons.prems(1) now rate, of n] Cons.prems(3) assms(5) by (auto simp: req)
    ultimately show ?case using Cons by (auto simp: req)
  qed simp
  from this[OF ok assms(2)] show "(\<forall>r \<in> set rs. fst (snd r) = d \<longrightarrow> burst < int (snd (snd r))) \<longrightarrow> granted d rs dl = 0"
    by blast
qed

definition demo_limits :: limit_cfg where
  "demo_limits = \<lparr>MessagesPerHour = 3600, Burst = 2, Overrides = Map.empty\<rparr>"

theorem rate_limit_holds_witness:
  "real (granted ''x.com'' [(0, ''x.com'', 2), (1, ''x.com'', 1), (1, ''x.com'', 1)]
     \<lparr>dl_cfg = demo_limits, dl_buckets = Map.empty\<rparr>) \<le> 3"
proof -
  have "newDomainLimiter demo_limits = Some \<lparr>dl_cfg = demo_limits, dl_buckets = Map.empty\<rparr>"
    by (simp add: newDomainLimiter_def demo_limits_def)
  from rate_limit_holds[OF this, of 0 "[(0, ''x.com'', 2), (1, ''x.com'', 1), (1, ''x.com'', 1)]" 1 "''x.com''" 3600 2]
  show ?thesis by (simp add: limits_of_def demo_limits_def del: granted.simps)
qed

end
