(* ===== verification/MailRemote.thy ===== *)
theory MailRemote
  imports Queue MtaSts
begin

text \<open>The remote delivery agent (\<open>cmd/mail-remote\<close>, \<open>internal/mail-remote\<close>): errors and their classification,
  MX lookup, STARTTLS negotiation and dialling, the transactions of a connection, delivery through a
  smarthost or through the MX hosts with failover, and the run of the command over the queue tree.  The SMTP
  client library, DNS and the network are parameters: a connection is what its peer sends and answers.  Every
  delivery also returns the messages it put on the wire, each with the host and the protection of the
  connection.\<close>

section \<open>Errors (smtp.go)\<close>

text \<open>An error value with the chain of errors it wraps.\<close>

datatype err =
  SMTPError int string | OpError string | EOF | ErrUnexpectedEOF | ErrClosed | OtherError string
| Wrap string err | PermanentError err | AmbiguousError err | MXPermanentError err

fun err_chain :: "err \<Rightarrow> err list" where
  "err_chain (Wrap s e) = Wrap s e # err_chain e"
| "err_chain (PermanentError e) = PermanentError e # err_chain e"
| "err_chain (AmbiguousError e) = AmbiguousError e # err_chain e"
| "err_chain (MXPermanentError e) = MXPermanentError e # err_chain e"
| "err_chain e = [e]"

definition IsPermanent :: "err \<Rightarrow> bool" where
  "IsPermanent e = list_ex (\<lambda>x. case x of PermanentError _ \<Rightarrow> True | _ \<Rightarrow> False) (err_chain e)"

definition isAmbiguous :: "err \<Rightarrow> bool" where
  "isAmbiguous e = list_ex (\<lambda>x. case x of AmbiguousError _ \<Rightarrow> True | _ \<Rightarrow> False) (err_chain e)"

text \<open>\<open>errors.As\<close> for the SMTP error of a chain: its reply code.\<close>

definition smtp_reply :: "err \<Rightarrow> int option" where
  "smtp_reply e = (case List.find (\<lambda>x. case x of SMTPError _ _ \<Rightarrow> True | _ \<Rightarrow> False) (err_chain e) of
       Some (SMTPError code _) \<Rightarrow> Some code | _ \<Rightarrow> None)"

definition SMTPCode :: "err \<Rightarrow> int" where
  "SMTPCode e = (case smtp_reply e of Some code \<Rightarrow> code | None \<Rightarrow> 0)"

definition classifyError :: "err \<Rightarrow> err" where
  "classifyError e = (case smtp_reply e of
       Some code \<Rightarrow> if code \<ge> 500 then PermanentError e else e
     | None \<Rightarrow> e)"

definition isConnectionError :: "err \<Rightarrow> bool" where
  "isConnectionError e =
     (if smtp_reply e \<noteq> None then False
      else list_ex (\<lambda>x. case x of OpError _ \<Rightarrow> True | EOF \<Rightarrow> True | ErrUnexpectedEOF \<Rightarrow> True
                              | ErrClosed \<Rightarrow> True | _ \<Rightarrow> False) (err_chain e))"

text \<open>\<open>err.Error()\<close>: the text of an error.\<close>

fun err_text :: "err \<Rightarrow> string" where
  "err_text (SMTPError code s) = s"
| "err_text (OpError s) = s"
| "err_text EOF = ''EOF''"
| "err_text ErrUnexpectedEOF = ''unexpected EOF''"
| "err_text ErrClosed = ''use of closed network connection''"
| "err_text (OtherError s) = s"
| "err_text (Wrap s e) = s @ '': '' @ err_text e"
| "err_text (PermanentError e) = err_text e"
| "err_text (AmbiguousError e) = err_text e"
| "err_text (MXPermanentError e) = err_text e"

section \<open>MX lookup (mx.go)\<close>

record Host =
  h_Name :: string
  h_Port :: string

text \<open>DNS, and the order \<open>sort.Slice\<close> gives (which is free among equal preferences).\<close>

record resolver =
  LookupMX :: "string \<Rightarrow> err + (string \<times> nat) list"
  LookupHost :: "string \<Rightarrow> err + string list"
  SortMX :: "(string \<times> nat) list \<Rightarrow> (string \<times> nat) list"

definition host_addr :: "Host \<Rightarrow> string" where
  "host_addr h = (if Contains (h_Name h) '':'' then ''['' @ h_Name h @ '']:'' @ h_Port h
     else h_Name h @ '':'' @ h_Port h)"

definition mx_hosts :: "(string \<times> nat) list \<Rightarrow> Host list" where
  "mx_hosts mxs = map (\<lambda>n. \<lparr>h_Name = n, h_Port = ''25''\<rparr>)
     (filter (\<lambda>n. n \<noteq> []) (map (\<lambda>m. TrimSuffix (fst m) ''.'') mxs))"

definition null_mx :: "(string \<times> nat) list \<Rightarrow> bool" where
  "null_mx mxs = (case mxs of [(h, pref)] \<Rightarrow> pref = 0 \<and> (h = ''.'' \<or> h = []) | _ \<Rightarrow> False)"

definition lookup_host :: "resolver \<Rightarrow> string \<Rightarrow> err + Host list" where
  "lookup_host r domain = (case LookupHost r domain of
       Inl e \<Rightarrow> Inl (MXPermanentError (OtherError (''no MX or A/AAAA records for '' @ domain)))
     | Inr [] \<Rightarrow> Inl (MXPermanentError (OtherError (''no MX or A/AAAA records for '' @ domain)))
     | Inr (a # as) \<Rightarrow> Inr [\<lparr>h_Name = domain, h_Port = ''25''\<rparr>])"

definition Lookup :: "resolver \<Rightarrow> string \<Rightarrow> err + Host list" where
  "Lookup r domain = (case LookupMX r domain of
       Inl e \<Rightarrow> lookup_host r domain
     | Inr mxs \<Rightarrow>
         (if mxs = [] then lookup_host r domain
          else if null_mx mxs then
            Inl (MXPermanentError (OtherError (''domain '' @ domain @ '' publishes null MX (RFC 7505)'')))
          else if mx_hosts (SortMX r mxs) \<noteq> [] then Inr (mx_hosts (SortMX r mxs))
          else lookup_host r domain))"

definition classifyMXError :: "err \<Rightarrow> err" where
  "classifyMXError e =
     (if list_ex (\<lambda>x. case x of MXPermanentError _ \<Rightarrow> True | _ \<Rightarrow> False) (err_chain e)
      then PermanentError e else e)"

section \<open>Connections (dial.go)\<close>

text \<open>A connected SMTP client: what the calls of the client library return, by the number of the transaction
  on the connection.\<close>

record client =
  cl_Auth :: "string \<Rightarrow> string \<Rightarrow> err option"
  cl_MaxMessageSize :: "nat option"
  cl_Mail :: "nat \<Rightarrow> string \<Rightarrow> err option"
  cl_Rcpt :: "nat \<Rightarrow> string \<Rightarrow> err option"
  cl_Data :: "nat \<Rightarrow> err option"
  cl_Copy :: "nat \<Rightarrow> err option"
  cl_Close :: "nat \<Rightarrow> err option"
  cl_Reset :: "nat \<Rightarrow> err option"

text \<open>A TCP connection: the bytes the peer sends in the clear, how many writes succeed, whether the TLS
  handshake succeeds with the certificate checked and without, the answer to the greeting of the
  library and the client on top.\<close>

record tcp_conn =
  c_input :: string
  c_writes :: nat
  c_handshake :: "bool \<Rightarrow> err option"
  c_Hello :: "err option"
  c_client :: client

datatype protection = Plaintext | Unverified | Verified

definition TrimRightCRLF :: "string \<Rightarrow> string" where
  "TrimRightCRLF s = rev (dropWhile (\<lambda>c. c = CHR 13 \<or> c = CHR 10) (rev s))"

lemma CutByte_shorter: "CutByte c s = Some (a, b) \<Longrightarrow> length b < length s"
  by (induction s arbitrary: a) (auto split: if_split_asm)

function readReply :: "int \<Rightarrow> string list \<Rightarrow> string \<Rightarrow> (string list \<times> string) option" where
  "readReply wantCode ls inp = (case CutByte (CHR 10) inp of
       None \<Rightarrow> None
     | Some (raw, rest) \<Rightarrow>
         (let line = TrimRightCRLF raw in
          if length line < 3 then None
          else case Atoi (take 3 line) of
            None \<Rightarrow> None
          | Some code \<Rightarrow>
              (if code \<noteq> wantCode then None
               else let ls' = (if length line > 4 then ls @ [drop 4 line] else ls) in
                 if length line < 4 \<or> line ! 3 \<noteq> CHR ''-'' then Some (ls', rest)
                 else readReply wantCode ls' rest)))"
  by pat_completeness auto
termination
  by (relation "measure (\<lambda>(w, ls, inp). length inp)") (auto dest: CutByte_shorter)

declare readReply.simps [simp del]

definition EqualFold :: "string \<Rightarrow> string \<Rightarrow> bool" where
  "EqualFold a b = (ToLower a = ToLower b)"

definition negotiateSTARTTLS :: "tcp_conn \<Rightarrow> bool \<Rightarrow> err option" where
  "negotiateSTARTTLS conn insecure = (case readReply 220 [] (c_input conn) of
       None \<Rightarrow> Some (OtherError ''greeting'')
     | Some (_, inp) \<Rightarrow>
         (if c_writes conn < 1 then Some (OpError ''send ehlo'')
          else case readReply 250 [] inp of
            None \<Rightarrow> Some (OtherError ''ehlo'')
          | Some (ehloReply, inp2) \<Rightarrow>
              (if \<not> list_ex (\<lambda>l. EqualFold (TrimSpace l) ''STARTTLS'') ehloReply
               then Some (OtherError ''server does not advertise STARTTLS'')
               else if c_writes conn < 2 then Some (OpError ''send starttls'')
               else case readReply 220 [] inp2 of
                 None \<Rightarrow> Some (OtherError ''starttls reply'')
               | Some _ \<Rightarrow> map_option (Wrap ''tls handshake'') (c_handshake conn insecure))))"

text \<open>The network: the outcome of the n-th TCP connection to an address.\<close>

type_synonym dialer = "string \<Rightarrow> nat \<Rightarrow> err + tcp_conn"

definition dialTCP :: "dialer \<Rightarrow> string \<Rightarrow> nat \<Rightarrow> err + tcp_conn" where
  "dialTCP d addr n = (case d addr n of Inl e \<Rightarrow> Inl (Wrap (''dial '' @ addr) e) | Inr c \<Rightarrow> Inr c)"

definition post_hello :: "string \<Rightarrow> protection \<Rightarrow> tcp_conn \<Rightarrow> err + protection \<times> client" where
  "post_hello what prot conn = (case c_Hello conn of
       Some e \<Rightarrow> Inl (Wrap what e) | None \<Rightarrow> Inr (prot, c_client conn))"

definition DialMX :: "dialer \<Rightarrow> string \<Rightarrow> err + protection \<times> client" where
  "DialMX d addr = (case dialTCP d addr 0 of
       Inl e \<Rightarrow> Inl e
     | Inr conn \<Rightarrow>
         (if negotiateSTARTTLS conn False = None then post_hello (''post-tls ehlo '' @ addr) Verified conn
          else case dialTCP d addr 1 of
            Inl e \<Rightarrow> Inl e
          | Inr conn2 \<Rightarrow>
              (if negotiateSTARTTLS conn2 True = None then post_hello (''post-tls ehlo '' @ addr) Unverified conn2
               else case dialTCP d addr 2 of
                 Inl e \<Rightarrow> Inl e
               | Inr conn3 \<Rightarrow> post_hello (''ehlo '' @ addr) Plaintext conn3)))"

definition DialMXStrict :: "dialer \<Rightarrow> string \<Rightarrow> err + protection \<times> client" where
  "DialMXStrict d addr = (case dialTCP d addr 0 of
       Inl e \<Rightarrow> Inl e
     | Inr conn \<Rightarrow> (case negotiateSTARTTLS conn False of
         Some e \<Rightarrow> Inl (Wrap (''mta-sts enforce requires verified TLS to '' @ addr) e)
       | None \<Rightarrow> post_hello (''post-tls ehlo '' @ addr) Verified conn))"

section \<open>Transactions (smtp.go)\<close>

text \<open>A message put on the wire: its end was sent to a host, so that host may have taken it.\<close>

record wire =
  w_Host :: string
  w_Protection :: protection
  w_Path :: qpath

type_synonym remote_env = "qpath \<times> queueEnvelope"

type_synonym results = "qpath \<rightharpoonup> err option"

text \<open>One transaction: its error, and whether the end of the message was sent.\<close>

definition deliver :: "client \<Rightarrow> nat \<Rightarrow> string option \<Rightarrow> queueEnvelope \<Rightarrow> err option \<times> bool" where
  "deliver c i body env =
     (if body = None then (Some (OtherError ''open body''), False)
      else case cl_Mail c i (Sender env) of
        Some e \<Rightarrow> (Some (classifyError (Wrap (''MAIL FROM <'' @ Sender env @ ''>'') e)), False)
      | None \<Rightarrow> (case cl_Rcpt c i (Recipient env) of
          Some e \<Rightarrow> (Some (classifyError (Wrap (''RCPT TO <'' @ Recipient env @ ''>'') e)), False)
        | None \<Rightarrow> (case cl_Data c i of
            Some e \<Rightarrow> (Some (classifyError (Wrap ''DATA'' e)), False)
          | None \<Rightarrow> (case cl_Copy c i of
              Some e \<Rightarrow> (Some (Wrap ''write body'' e), False)
            | None \<Rightarrow> (case cl_Close c i of
                Some e \<Rightarrow> (Some (if isConnectionError e then AmbiguousError (Wrap ''DATA close'' e)
                                 else classifyError (Wrap ''DATA close'' e)), True)
              | None \<Rightarrow> (None, True))))))"

definition limit_error :: "int \<Rightarrow> err" where
  "limit_error maxTxn = OtherError (''transaction limit ('' @ fmt_int maxTxn @ '') reached; deferring'')"

definition put_results :: "err option \<Rightarrow> remote_env list \<Rightarrow> results \<Rightarrow> results" where
  "put_results e envs rs = fold (\<lambda>env rs. rs(fst env \<mapsto> e)) envs rs"

text \<open>The envelopes of a connection from the i-th transaction on.  The result is the recorded outcomes, the
  wire, and the envelopes left without an outcome with the error that ended the session.\<close>

fun deliverAll ::
  "client \<Rightarrow> string \<Rightarrow> protection \<Rightarrow> string option \<Rightarrow> int \<Rightarrow> nat \<Rightarrow> remote_env list \<Rightarrow> results \<times> wire list \<Rightarrow>
   (results \<times> wire list) \<times> remote_env list \<times> err option" where
  "deliverAll c host prot body maxTxn i [] st = (st, [], None)"
| "deliverAll c host prot body maxTxn i (env # envs) (rs, w) =
     (if maxTxn > 0 \<and> int i \<ge> maxTxn
      then ((put_results (Some (limit_error maxTxn)) (env # envs) rs, w), [], None)
      else
        let (e, sent) = deliver c i body (snd env);
            w' = (if sent then w @ [\<lparr>w_Host = host, w_Protection = prot, w_Path = fst env\<rparr>] else w)
        in if (case e of Some x \<Rightarrow> isConnectionError x | None \<Rightarrow> False) then
             (if isAmbiguous (the e) then ((rs(fst env \<mapsto> e), w'), envs, e)
              else ((rs, w'), env # envs, e))
           else
             (case (if envs \<noteq> [] then cl_Reset c i else None) of
                Some re \<Rightarrow>
                  (if isConnectionError re
                   then ((rs(fst env \<mapsto> e), w'), envs, Some (Wrap ''connection lost during RSET'' re))
                   else deliverAll c host prot body maxTxn (Suc i) envs (rs(fst env \<mapsto> e), w'))
              | None \<Rightarrow> deliverAll c host prot body maxTxn (Suc i) envs (rs(fst env \<mapsto> e), w')))"

definition checkSize :: "client \<Rightarrow> nat \<Rightarrow> err option" where
  "checkSize c bodyBytes = (case cl_MaxMessageSize c of
       None \<Rightarrow> None
     | Some maxSize \<Rightarrow>
         (if maxSize = 0 then None
          else if bodyBytes > maxSize then
            Some (PermanentError (OtherError (''message size '' @ itoa bodyBytes @ '' exceeds server limit '' @ itoa maxSize)))
          else None))"

record Smarthost =
  sh_Addr :: string
  sh_Username :: string
  sh_Password :: string

definition DeliverViaSmarthost ::
  "(string \<Rightarrow> err + client) \<Rightarrow> Smarthost \<Rightarrow> string option \<Rightarrow> remote_env list \<Rightarrow> int \<Rightarrow> results \<times> wire list" where
  "DeliverViaSmarthost dialFunc sh body envs maxTxn =
     (let all = (\<lambda>e. (put_results (Some e) envs Map.empty, [])) in
      case dialFunc (sh_Addr sh) of
        Inl e \<Rightarrow> all (Wrap (''dial '' @ sh_Addr sh) e)
      | Inr c \<Rightarrow>
          (case (if sh_Username sh \<noteq> [] then cl_Auth c (sh_Username sh) (sh_Password sh) else None) of
             Some e \<Rightarrow> all (Wrap ''smtp auth'' e)
           | None \<Rightarrow> (case body of
               None \<Rightarrow> all (OtherError ''stat body'')
             | Some b \<Rightarrow> (case checkSize c (length b) of
                 Some e \<Rightarrow> all e
               | None \<Rightarrow>
                   (case deliverAll c (sh_Addr sh) Verified body maxTxn 0 envs (Map.empty, []) of
                      ((rs, w), retryable, cause) \<Rightarrow>
                        (put_results (map_option (Wrap ''connection lost'') cause) retryable rs, w))))))"

section \<open>Delivery through MX hosts (mx.go)\<close>

definition maxMXAttempts :: nat where
  "maxMXAttempts = 5"

fun try_hosts ::
  "(string \<Rightarrow> err + protection \<times> client) \<Rightarrow> string option \<Rightarrow> nat \<Rightarrow> int \<Rightarrow> Host list \<Rightarrow> nat \<Rightarrow>
   remote_env list \<Rightarrow> err option \<Rightarrow> results \<times> wire list \<Rightarrow>
   (results \<times> wire list) \<times> remote_env list \<times> err option" where
  "try_hosts dial body bodySize maxTxn [] attempts pending lastErr st = (st, pending, lastErr)"
| "try_hosts dial body bodySize maxTxn (h # hs) attempts pending lastErr st =
     (if pending = [] \<or> attempts \<ge> maxMXAttempts then (st, pending, lastErr)
      else case dial (host_addr h) of
        Inl e \<Rightarrow> try_hosts dial body bodySize maxTxn hs (Suc attempts) pending (Some e) st
      | Inr (prot, c) \<Rightarrow> (case checkSize c bodySize of
          Some e \<Rightarrow> try_hosts dial body bodySize maxTxn hs (Suc attempts) pending (Some e) st
        | None \<Rightarrow> (case deliverAll c (h_Name h) prot body maxTxn 0 pending st of
            (st', retryable, cause) \<Rightarrow>
              (if retryable = [] then (st', [], lastErr)
               else try_hosts dial body bodySize maxTxn hs (Suc attempts) retryable cause st'))))"

definition DeliverViaMX ::
  "resolver \<Rightarrow> dialer \<Rightarrow> string \<Rightarrow> string option \<Rightarrow> remote_env list \<Rightarrow> int \<Rightarrow> Policy option \<Rightarrow> results \<times> wire list" where
  "DeliverViaMX r net domain body envs maxTxn policy =
     (case Lookup r domain of
        Inl e \<Rightarrow> (put_results (Some (classifyMXError e)) envs Map.empty, [])
      | Inr hosts \<Rightarrow>
          (let enforce = (case policy of Some p \<Rightarrow> p_Mode p = ModeEnforce | None \<Rightarrow> False);
               hosts' = (if enforce then filter (\<lambda>h. MXMatches (the policy) (h_Name h)) hosts else hosts);
               dial = (if enforce then DialMXStrict net else DialMX net)
           in if enforce \<and> hosts' = [] then
                (put_results (Some (OtherError (''mta-sts: no MX host for '' @ domain @ '' matches its enforce policy'')))
                   envs Map.empty, [])
              else case body of
                None \<Rightarrow> (put_results (Some (OtherError ''stat body'')) envs Map.empty, [])
              | Some b \<Rightarrow>
                  (case try_hosts dial body (length b) maxTxn hosts' 0 envs None (Map.empty, []) of
                     ((rs, w), pending, lastErr) \<Rightarrow>
                       (put_results (Some (Wrap (''all usable MX hosts failed for '' @ domain)
                          (case lastErr of Some e \<Rightarrow> e | None \<Rightarrow> OtherError ''no MX hosts to try''))) pending rs, w))))"

section \<open>Envelopes and configuration (envelope.go, config.go)\<close>

definition RecipientDomain :: "queueEnvelope \<Rightarrow> string option" where
  "RecipientDomain e = map_option snd (CutByte (CHR ''@'') (Recipient e))"

definition validate :: "queueEnvelope \<Rightarrow> bool" where
  "validate e = (TTL e \<noteq> None \<and> Sender e \<noteq> [] \<and> Recipient e \<noteq> [] \<and> MsgID e \<noteq> [])"

definition Parse :: "qtree \<Rightarrow> qpath \<Rightarrow> remote_env option" where
  "Parse t p = (case map_of t p of
       Some (EnvFile e m) \<Rightarrow> if validate e then Some (p, e) else None
     | _ \<Rightarrow> None)"

fun parse_all :: "qtree \<Rightarrow> qpath list \<Rightarrow> remote_env list option" where
  "parse_all t [] = Some []"
| "parse_all t (p # ps) = (case Parse t p of
       None \<Rightarrow> None | Some env \<Rightarrow> map_option ((#) env) (parse_all t ps))"

record RemoteMXConfig =
  MaxTransactionsPerConn :: int
  MTASTSCache :: string

record remote_cfg =
  r_Hostname :: string
  r_Smarthost :: string
  r_User :: string
  SmarthostMaxTransactionsPerConn :: int
  RemoteMX :: RemoteMXConfig

definition remote_Default :: remote_cfg where
  "remote_Default = \<lparr>r_Hostname = [], r_Smarthost = [], r_User = [], SmarthostMaxTransactionsPerConn = 100,
     RemoteMX = \<lparr>MaxTransactionsPerConn = 25, MTASTSCache = []\<rparr>\<rparr>"

text \<open>The configuration file: missing, unreadable, unparsable, or the server host name and the section of the
  agent it holds.\<close>

datatype toml_file = TomlMissing | TomlUnreadable | TomlInvalid | TomlConfig string remote_cfg

definition config_Load :: "toml_file \<Rightarrow> remote_cfg option" where
  "config_Load file = (case file of
       TomlMissing \<Rightarrow> Some remote_Default
     | TomlUnreadable \<Rightarrow> None
     | TomlInvalid \<Rightarrow> None
     | TomlConfig server mr \<Rightarrow>
         (let cfg = remote_Default;
              cfg = (if server \<noteq> [] then cfg\<lparr>r_Hostname := server\<rparr> else cfg);
              cfg = (if r_Hostname mr \<noteq> [] then cfg\<lparr>r_Hostname := r_Hostname mr\<rparr> else cfg);
              cfg = (if SmarthostMaxTransactionsPerConn mr > 0
                     then cfg\<lparr>SmarthostMaxTransactionsPerConn := SmarthostMaxTransactionsPerConn mr\<rparr> else cfg);
              mx = RemoteMX cfg;
              mx = (if MaxTransactionsPerConn (RemoteMX mr) > 0
                    then mx\<lparr>MaxTransactionsPerConn := MaxTransactionsPerConn (RemoteMX mr)\<rparr> else mx);
              mx = (if MTASTSCache (RemoteMX mr) \<noteq> [] then mx\<lparr>MTASTSCache := MTASTSCache (RemoteMX mr)\<rparr> else mx)
          in Some (cfg\<lparr>RemoteMX := mx\<rparr>)))"

definition ApplyEnv :: "string \<Rightarrow> remote_cfg \<Rightarrow> remote_cfg" where
  "ApplyEnv v cfg = (if v \<noteq> [] then cfg\<lparr>r_Hostname := v\<rparr> else cfg)"

section \<open>The command (cmd/mail-remote/main.go)\<close>

record outboundConfig =
  oc_Strategy :: string
  oc_Hostname :: string
  oc_Smarthost :: string
  oc_Username :: string
  oc_Password :: string

text \<open>The flags: empty when not given; the password descriptor as what reading it gives, with \<open>None\<close> for an
  unset flag and \<open>Some None\<close> for a failed read.\<close>

record remote_flags =
  f_config :: "toml_file option"
  f_smarthost :: string
  f_user :: string
  f_password_fd :: "string option option"
  f_hostname :: string

text \<open>The surroundings of a run: standard input (\<open>None\<close> when it holds no configuration), two environment
  variables, the host name, the clock, DNS and the network, the MTA-STS surroundings with the cache, the
  order in which a map is visited, whether standard output can be written, and which files resist being
  touched or removed.\<close>

record remote_io =
  io_stdin :: "outboundConfig option"
  io_env_hostname :: string
  io_env_password :: string
  io_os_hostname :: "string option"
  io_now :: int
  io_resolver :: resolver
  io_net :: dialer
  io_smarthost :: "string \<Rightarrow> err + client"
  io_sts :: sts_env
  io_cache :: sts_cache
  io_order :: "qpath list \<Rightarrow> qpath list"
  io_stdout_ok :: bool
  io_touch_fails :: "qpath \<Rightarrow> bool"
  io_remove_fails :: "qpath \<Rightarrow> bool"

datatype status = StDelivered | StPermFail | StTempFail

record recipientResult =
  rr_Envelope :: qpath
  rr_Status :: status
  rr_SMTPCode :: int
  rr_Diagnostic :: string

definition exOK :: int where "exOK = 0"

definition exUsage :: int where "exUsage = 1"

definition exUnavailable :: int where "exUnavailable = 69"

definition exTempFail :: int where "exTempFail = 75"

definition strip_newline :: "string \<Rightarrow> string" where
  "strip_newline s = TrimSuffix (TrimSuffix s [CHR 10]) [CHR 13]"

text \<open>The settings of a run from the file, standard input and the flags, with strategy and password;
  \<open>None\<close> is a usage error.\<close>

definition settings :: "remote_io \<Rightarrow> remote_flags \<Rightarrow> (remote_cfg \<times> string \<times> string) option" where
  "settings io fl =
     (case (case f_config fl of None \<Rightarrow> Some remote_Default | Some file \<Rightarrow> config_Load file) of
        None \<Rightarrow> None
      | Some cfg0 \<Rightarrow>
          (let cfg = ApplyEnv (io_env_hostname io) cfg0;
               (cfg, strategy, password) = (case io_stdin io of
                  None \<Rightarrow> (cfg, [], [])
                | Some c \<Rightarrow>
                    (let cfg = (if oc_Hostname c \<noteq> [] then cfg\<lparr>r_Hostname := oc_Hostname c\<rparr> else cfg);
                         cfg = (if oc_Smarthost c \<noteq> [] then cfg\<lparr>r_Smarthost := oc_Smarthost c\<rparr> else cfg);
                         cfg = (if oc_Username c \<noteq> [] then cfg\<lparr>r_User := oc_Username c\<rparr> else cfg)
                     in (cfg, oc_Strategy c, oc_Password c)));
               cfg = (if f_smarthost fl \<noteq> [] then cfg\<lparr>r_Smarthost := f_smarthost fl\<rparr> else cfg);
               cfg = (if f_user fl \<noteq> [] then cfg\<lparr>r_User := f_user fl\<rparr> else cfg);
               cfg = (if f_hostname fl \<noteq> [] then cfg\<lparr>r_Hostname := f_hostname fl\<rparr> else cfg)
           in case (if password = [] then f_password_fd fl else None) of
                Some None \<Rightarrow> None
              | Some (Some pw) \<Rightarrow>
                  (let pw = strip_newline pw
                   in Some (cfg, strategy, if pw = [] then io_env_password io else pw))
              | None \<Rightarrow> Some (cfg, strategy, if password = [] then io_env_password io else password)))"

definition use_smarthost :: "remote_cfg \<Rightarrow> string \<Rightarrow> bool option" where
  "use_smarthost cfg strategy =
     (if strategy = ''smarthost'' then (if r_Smarthost cfg = [] then None else Some True)
      else if strategy = ''direct'' then Some False
      else if strategy = [] then Some (r_Smarthost cfg \<noteq> [])
      else None)"

text \<open>The delivery of a run: the outcomes, the wire and the policy cache, or \<open>None\<close> for a usage error.\<close>

definition run_delivery ::
  "remote_io \<Rightarrow> remote_cfg \<Rightarrow> string \<Rightarrow> string \<Rightarrow> string option \<Rightarrow> remote_env list \<Rightarrow>
   (results \<times> wire list \<times> sts_cache) option" where
  "run_delivery io cfg strategy password body envs = (case use_smarthost cfg strategy of
       None \<Rightarrow> None
     | Some True \<Rightarrow>
         (case DeliverViaSmarthost (io_smarthost io)
                 \<lparr>sh_Addr = r_Smarthost cfg, sh_Username = r_User cfg, sh_Password = password\<rparr>
                 body envs (SmarthostMaxTransactionsPerConn cfg) of
            (rs, w) \<Rightarrow> Some (rs, w, io_cache io))
     | Some False \<Rightarrow>
         (if r_Hostname cfg = [] \<and> io_os_hostname io = None then None
          else case RecipientDomain (snd (hd envs)) of
            None \<Rightarrow> None
          | Some domain \<Rightarrow>
              (case PolicyFor ((io_sts io)\<lparr>CacheDir := MTASTSCache (RemoteMX cfg)\<rparr>) domain (io_cache io) of
                 (cache, pol) \<Rightarrow>
                   (case DeliverViaMX (io_resolver io) (io_net io) domain body envs
                           (MaxTransactionsPerConn (RemoteMX cfg)) (case pol of Inr p \<Rightarrow> p | Inl e \<Rightarrow> None) of
                      (rs, w) \<Rightarrow> Some (rs, w, cache)))))"

definition result_of :: "qpath \<Rightarrow> err option \<Rightarrow> recipientResult" where
  "result_of p e = (case e of
       None \<Rightarrow> \<lparr>rr_Envelope = p, rr_Status = StDelivered, rr_SMTPCode = 250, rr_Diagnostic = []\<rparr>
     | Some x \<Rightarrow> \<lparr>rr_Envelope = p, rr_Status = (if IsPermanent x then StPermFail else StTempFail),
                  rr_SMTPCode = SMTPCode x, rr_Diagnostic = err_text x\<rparr>)"

definition touch :: "int \<Rightarrow> qpath \<Rightarrow> qtree \<Rightarrow> qtree" where
  "touch now p t = map (\<lambda>(q, f). (q, if q = p then (case f of EnvFile e m \<Rightarrow> EnvFile e now | BadEnv m \<Rightarrow> BadEnv now
     | BodyFile b \<Rightarrow> BodyFile b) else f)) t"

definition touch_failed :: "remote_io \<Rightarrow> recipientResult list \<Rightarrow> qtree \<Rightarrow> qtree" where
  "touch_failed io out t = fold (\<lambda>r t. if rr_Status r = StTempFail \<and> \<not> io_touch_fails io (rr_Envelope r)
     then touch (io_now io) (rr_Envelope r) t else t) out t"

definition writeResultsAndCleanup :: "remote_io \<Rightarrow> qpath list \<Rightarrow> qtree \<Rightarrow> qtree option" where
  "writeResultsAndCleanup io toDelete t =
     (if \<not> io_stdout_ok io then None
      else Some (fold (\<lambda>p t. if io_remove_fails io p then t else remove_file p t) toDelete t))"

definition exit_code :: "recipientResult list \<Rightarrow> int" where
  "exit_code out =
     (let permFail = list_ex (\<lambda>r. rr_Status r = StPermFail) out;
          tempFail = list_ex (\<lambda>r. rr_Status r = StTempFail) out
      in if permFail \<and> \<not> tempFail then exUnavailable else if tempFail then exTempFail else exOK)"

record remote_outcome =
  ro_exit :: int
  ro_results :: "recipientResult list"
  ro_wire :: "wire list"
  ro_tree :: qtree
  ro_cache :: sts_cache

definition usage_error :: "remote_io \<Rightarrow> qtree \<Rightarrow> remote_outcome" where
  "usage_error io t = \<lparr>ro_exit = exUsage, ro_results = [], ro_wire = [], ro_tree = t, ro_cache = io_cache io\<rparr>"

definition run :: "remote_io \<Rightarrow> remote_flags \<Rightarrow> qpath \<Rightarrow> qpath list \<Rightarrow> qtree \<Rightarrow> remote_outcome" where
  "run io fl bodyPath envPaths t =
     (if envPaths = [] then usage_error io t
      else case settings io fl of
        None \<Rightarrow> usage_error io t
      | Some (cfg, strategy, password) \<Rightarrow> (case map_of t bodyPath of
          None \<Rightarrow> usage_error io t
        | Some f \<Rightarrow> (case parse_all t envPaths of
            None \<Rightarrow> usage_error io t
          | Some envs \<Rightarrow>
              (case run_delivery io cfg strategy password (case f of BodyFile b \<Rightarrow> Some b | _ \<Rightarrow> Some []) envs of
                 None \<Rightarrow> usage_error io t
               | Some (rs, w, cache) \<Rightarrow>
                   (let out = List.map_filter (\<lambda>p. map_option (result_of p) (rs p)) (io_order io (map fst envs));
                        t1 = touch_failed io out t;
                        toDelete = map rr_Envelope (filter (\<lambda>r. rr_Status r \<noteq> StTempFail) out)
                    in case writeResultsAndCleanup io toDelete t1 of
                         None \<Rightarrow> \<lparr>ro_exit = exTempFail, ro_results = [], ro_wire = w, ro_tree = t1, ro_cache = cache\<rparr>
                       | Some t2 \<Rightarrow> \<lparr>ro_exit = exit_code out, ro_results = out, ro_wire = w, ro_tree = t2,
                                     ro_cache = cache\<rparr>)))))"

end
