(* ===== verification/RemoteProps.thy ===== *)
theory RemoteProps
  imports MailRemote
begin

text \<open>What the delivery agent promises on its own: every envelope gets an outcome, no message is put on the
  wire twice in a run, a cached enforce policy keeps mail off unverified connections, and which transient
  conditions it takes for permanent.\<close>

section \<open>Errors\<close>

lemma smtp_reply_wrap [simp]:
  "smtp_reply (Wrap s e) = smtp_reply e" "smtp_reply (PermanentError e) = smtp_reply e"
  "smtp_reply (AmbiguousError e) = smtp_reply e"
  by (simp_all add: smtp_reply_def)

lemma isConnectionError_wrap [simp]:
  "isConnectionError (Wrap s e) = isConnectionError e" "isConnectionError (PermanentError e) = isConnectionError e"
  "isConnectionError (AmbiguousError e) = isConnectionError e"
  by (simp_all add: isConnectionError_def)

lemma isConnectionError_classify [simp]: "isConnectionError (classifyError e) = isConnectionError e"
  by (simp add: classifyError_def split: option.split)

lemma isAmbiguous_Ambiguous [simp]: "isAmbiguous (AmbiguousError e)"
  by (simp add: isAmbiguous_def)

lemma deliver_sent:
  assumes "deliver c i body env = (e, True)"
  shows "e = None \<or> (\<exists>x. e = Some x \<and> (isConnectionError x \<longrightarrow> isAmbiguous x))"
  using assms by (auto simp: deliver_def split: if_split_asm option.split_asm)

lemma deliver_ok: "deliver c i body env = (None, sent) \<Longrightarrow> sent"
  by (auto simp: deliver_def split: if_split_asm option.split_asm)

section \<open>The bookkeeping of a run\<close>

lemma put_results_apply: "put_results e envs rs p = (if p \<in> fst ` set envs then Some e else rs p)"
proof -
  have "fold (\<lambda>env rs. rs(fst env \<mapsto> e)) envs rs p = (if p \<in> fst ` set envs then Some e else rs p)"
    by (induction envs arbitrary: rs) auto
  then show ?thesis by (simp add: put_results_def)
qed

text \<open>The books are right for the envelopes that are settled: each has an outcome, each message went on the
  wire at most once and only for a settled envelope, and a delivered one did.\<close>

definition books :: "qpath set \<Rightarrow> results \<times> wire list \<Rightarrow> bool" where
  "books settled st = (dom (fst st) = settled \<and> distinct (map w_Path (snd st)) \<and> w_Path ` set (snd st) \<subseteq> settled \<and>
     (\<forall>p. fst st p = Some None \<longrightarrow> p \<in> w_Path ` set (snd st)))"

lemma books_defer:
  assumes "books S (rs, w)"
  shows "books (S \<union> fst ` set envs) (put_results (Some e) envs rs, w)"
  using assms by (auto simp: books_def put_results_apply dom_def split: if_split_asm)

lemma books_settle:
  assumes "books S (rs, w)" "p \<notin> S" "e = None \<longrightarrow> sent"
  shows "books (insert p S) (rs(p \<mapsto> e), if sent then w @ [\<lparr>w_Host = h, w_Protection = pr, w_Path = p\<rparr>] else w)"
  using assms by (auto simp: books_def split: if_split_asm)

text \<open>The ways one envelope can leave a connection.\<close>

lemma deliverAll_cases:
  assumes "deliverAll c h pr body maxTxn i (env # envs) (rs, w) = (st', retry, cause)"
  obtains (limit) "st' = (put_results (Some (limit_error maxTxn)) (env # envs) rs, w)" "retry = []"
  | (lost) x sent where "deliver c i body (snd env) = (Some x, sent)" "isConnectionError x" "\<not> isAmbiguous x"
      "st' = (rs, if sent then w @ [\<lparr>w_Host = h, w_Protection = pr, w_Path = fst env\<rparr>] else w)"
      "retry = env # envs" "cause = Some x"
  | (settled) e sent st1 where "deliver c i body (snd env) = (e, sent)"
      "st1 = (rs(fst env \<mapsto> e), if sent then w @ [\<lparr>w_Host = h, w_Protection = pr, w_Path = fst env\<rparr>] else w)"
      "st' = st1 \<and> retry = envs \<and> cause \<noteq> None \<or> deliverAll c h pr body maxTxn (Suc i) envs st1 = (st', retry, cause)"
proof -
  obtain e sent where d: "deliver c i body (snd env) = (e, sent)" by force
  define st1 where "st1 = (rs(fst env \<mapsto> e), if sent then w @ [\<lparr>w_Host = h, w_Protection = pr, w_Path = fst env\<rparr>] else w)"
  show ?thesis
  proof (cases "maxTxn > 0 \<and> int i \<ge> maxTxn")
    case True
    then show ?thesis using assms limit by simp
  next
    case False
    show ?thesis
    proof (cases "\<exists>x. e = Some x \<and> isConnectionError x \<and> \<not> isAmbiguous x")
      case True
      then show ?thesis using assms d \<open>\<not> (maxTxn > 0 \<and> int i \<ge> maxTxn)\<close> lost by (auto simp: Let_def)
    next
      case notlost: False
      have "st' = st1 \<and> retry = envs \<and> cause \<noteq> None \<or> deliverAll c h pr body maxTxn (Suc i) envs st1 = (st', retry, cause)"
        using assms d False notlost
        by (cases e) (auto simp: Let_def st1_def split: if_split_asm option.split_asm)
      then show ?thesis using settled[OF d] by (simp add: st1_def)
    qed
  qed
qed

lemma deliverAll_books:
  assumes "books S st" "distinct (map fst envs)" "S \<inter> fst ` set envs = {}"
    and "deliverAll c h pr body maxTxn i envs st = (st', retry, cause)"
  shows "suffix retry envs \<and> books (S \<union> (fst ` set envs - fst ` set retry)) st' \<and> (retry \<noteq> [] \<longrightarrow> cause \<noteq> None)"
  using assms
proof (induction envs arbitrary: i S st)
  case (Cons env envs)
  obtain rs w where st: "st = (rs, w)" by force
  show ?case
  proof (rule deliverAll_cases[OF Cons.prems(4)[unfolded st]], goal_cases)
    case 1
    then show ?case using books_defer[of S rs w "env # envs"] Cons.prems(1) by (simp add: st)
  next
    case (2 x sent)
    then have "\<not> sent" using deliver_sent[of c i body "snd env" "Some x"] by (cases sent) auto
    then show ?case using 2 Cons.prems(1) by (simp add: st)
  next
    case (3 e sent st1)
    let ?S = "insert (fst env) S"
    have b: "books ?S st1"
      unfolding 3(2) by (rule books_settle) (use Cons.prems 3(1) deliver_ok st in auto)
    have new: "?S \<inter> fst ` set envs = {}" "distinct (map fst envs)" "fst env \<notin> fst ` set envs"
      using Cons.prems(2,3) by auto
    from 3(3) show ?case
    proof
      assume "st' = st1 \<and> retry = envs \<and> cause \<noteq> None"
      moreover have "S \<union> (fst ` set (env # envs) - fst ` set envs) = ?S" using new by auto
      ultimately show ?thesis using b by (simp add: suffix_ConsI)
    next
      assume r: "deliverAll c h pr body maxTxn (Suc i) envs st1 = (st', retry, cause)"
      note ih = Cons.IH[OF b new(2,1) r]
      then have "set retry \<subseteq> set envs" by (intro set_mono_suffix) simp
      then have "fst env \<notin> fst ` set retry" using new(3) by blast
      then have "S \<union> (fst ` set (env # envs) - fst ` set retry) = ?S \<union> (fst ` set envs - fst ` set retry)" by auto
      then show ?thesis using ih by (simp add: suffix_ConsI)
    qed
  qed
qed simp

lemma try_hosts_books:
  assumes "books S st" "distinct (map fst pending)" "S \<inter> fst ` set pending = {}"
    and "try_hosts dial body sz maxTxn hosts n pending le st = (st', pending', le')"
  shows "\<exists>S'. books S' st' \<and> S' \<inter> fst ` set pending' = {} \<and> S' \<union> fst ` set pending' = S \<union> fst ` set pending"
  using assms
proof (induction hosts arbitrary: n pending le st S)
  case (Cons h hs)
  show ?case
  proof (cases "pending = [] \<or> n \<ge> maxMXAttempts")
    case True
    then show ?thesis using Cons.prems by auto
  next
    case go: False
    show ?thesis
    proof (cases "dial (host_addr h)")
      case (Inl e)
      then show ?thesis using Cons.IH[OF Cons.prems(1-3)] Cons.prems(4) go by simp
    next
      case (Inr pc)
      obtain pr c where pc: "pc = (pr, c)" by force
      show ?thesis
      proof (cases "checkSize c sz")
        case (Some e)
        then show ?thesis using Cons.IH[OF Cons.prems(1-3)] Cons.prems(4) go Inr by (simp add: pc)
      next
        case None
        obtain st1 retry cause where d: "deliverAll c (h_Name h) pr body maxTxn 0 pending st = (st1, retry, cause)"
          by (metis prod_cases3)
        note b = deliverAll_books[OF Cons.prems(1-3) d]
        let ?S = "S \<union> (fst ` set pending - fst ` set retry)"
        have sub: "fst ` set retry \<subseteq> fst ` set pending" using b set_mono_suffix by blast
        have retry: "distinct (map fst retry)" using b Cons.prems(2) by (auto simp: suffix_def)
        have disj: "?S \<inter> fst ` set retry = {}" "?S \<union> fst ` set retry = S \<union> fst ` set pending"
          using Cons.prems(3) sub by blast+
        show ?thesis
        proof (cases "retry = []")
          case True
          then have "st' = st1" "pending' = []" using Cons.prems(4) go Inr None d by (auto simp: pc)
          then show ?thesis using b True by auto
        next
          case False
          then have "try_hosts dial body sz maxTxn hs (Suc n) retry cause st1 = (st', pending', le')"
            using Cons.prems(4) go Inr None d by (simp add: pc)
          from Cons.IH[OF _ retry disj(1) this] b show ?thesis using disj(2) by simp
        qed
      qed
    qed
  qed
qed auto

lemma books_start: "books {} (Map.empty, [])"
  by (simp add: books_def)

lemma books_all: "books (fst ` set envs) (put_results (Some e) envs Map.empty, [])"
  using books_defer[OF books_start, of envs e] by simp

lemma smarthost_books:
  assumes "distinct (map fst envs)"
  shows "books (fst ` set envs) (DeliverViaSmarthost dialFunc sh body envs maxTxn)"
proof -
  have "books (fst ` set envs) (put_results (map_option (Wrap ''connection lost'') cause) retry rs, w)"
    if d: "deliverAll c (sh_Addr sh) Verified body maxTxn 0 envs (Map.empty, []) = ((rs, w), retry, cause)"
    for c rs w retry cause
  proof -
    note b = deliverAll_books[OF books_start assms _ d]
    then have sub: "fst ` set retry \<subseteq> fst ` set envs" using set_mono_suffix by blast
    show ?thesis
    proof (cases cause)
      case None
      then have "retry = []" using b by auto
      then show ?thesis using b by (simp add: put_results_def)
    next
      case (Some e)
      have "fst ` set envs - fst ` set retry \<union> fst ` set retry = fst ` set envs" using sub by blast
      then show ?thesis using books_defer[of "fst ` set envs - fst ` set retry" rs w retry "Wrap ''connection lost'' e"] b
        by (simp add: Some)
    qed
  qed
  then show ?thesis unfolding DeliverViaSmarthost_def Let_def
    using books_all by (auto split: sum.split option.split prod.split)
qed

lemma mx_books:
  assumes "distinct (map fst envs)"
  shows "books (fst ` set envs) (DeliverViaMX r net domain body envs maxTxn policy)"
proof -
  have "books (fst ` set envs) (put_results (Some x) pending rs, w)"
    if d: "try_hosts dial body sz maxTxn hosts 0 envs None (Map.empty, []) = ((rs, w), pending, le)"
    for dial sz hosts rs w pending le x
  proof -
    obtain S where "books S (rs, w)" "S \<union> fst ` set pending = fst ` set envs"
      using try_hosts_books[OF books_start assms _ d] by auto
    then show ?thesis using books_defer by metis
  qed
  then show ?thesis unfolding DeliverViaMX_def Let_def
    using books_all by (auto split: sum.split option.split prod.split)
qed

lemma run_delivery_via:
  assumes "run_delivery io cfg strategy password body envs = Some (rs, w, cache)"
  shows "(\<exists>d sh m. DeliverViaSmarthost d sh body envs m = (rs, w)) \<or>
    (\<exists>r net domain m pol. DeliverViaMX r net domain body envs m pol = (rs, w))"
proof (cases "use_smarthost cfg strategy")
  case (Some b)
  then show ?thesis using assms
    by (cases b) (auto simp: run_delivery_def split: prod.split_asm option.split_asm if_split_asm)
qed (use assms in \<open>simp add: run_delivery_def\<close>)

lemma run_delivery_books:
  assumes "run_delivery io cfg strategy password body envs = Some (rs, w, cache)" "distinct (map fst envs)"
  shows "books (fst ` set envs) (rs, w)"
  using run_delivery_via[OF assms(1)] smarthost_books[OF assms(2)] mx_books[OF assms(2)] by metis

text \<open>Outcomes are recorded for the envelopes of the run only, repeated or not.\<close>

lemma put_results_dom: "dom rs \<subseteq> D \<Longrightarrow> fst ` set envs \<subseteq> D \<Longrightarrow> dom (put_results e envs rs) \<subseteq> D"
  by (auto simp: put_results_apply dom_def split: if_split_asm)

lemma deliverAll_dom:
  assumes "dom (fst st) \<subseteq> D" "fst ` set envs \<subseteq> D" "deliverAll c h pr body maxTxn i envs st = (st', retry, cause)"
  shows "dom (fst st') \<subseteq> D \<and> set retry \<subseteq> set envs"
  using assms
proof (induction envs arbitrary: i st)
  case (Cons env envs)
  obtain rs w where st: "st = (rs, w)" by force
  show ?case
  proof (rule deliverAll_cases[OF Cons.prems(3)[unfolded st]], goal_cases)
    case 1
    then show ?case using Cons.prems put_results_dom[of rs D "env # envs"] by (simp add: st)
  next
    case (2 x sent)
    then show ?case using Cons.prems by (simp add: st)
  next
    case (3 e sent st1)
    have "dom (fst st1) \<subseteq> D" using Cons.prems 3(2) by (auto simp: st)
    moreover have "fst ` set envs \<subseteq> D" using Cons.prems by auto
    ultimately show ?case using 3(3) Cons.IH[of st1 "Suc i"] by auto
  qed
qed simp

lemma try_hosts_dom:
  assumes "dom (fst st) \<subseteq> D" "fst ` set pending \<subseteq> D"
    and "try_hosts dial body sz maxTxn hosts n pending le st = (st', pending', le')"
  shows "dom (fst st') \<subseteq> D \<and> fst ` set pending' \<subseteq> D"
  using assms
proof (induction hosts arbitrary: n pending le st)
  case (Cons h hs)
  show ?case
  proof (cases "dial (host_addr h)")
    case (Inl e)
    then show ?thesis using Cons.IH[OF Cons.prems(1,2)] Cons.prems by (auto split: if_split_asm)
  next
    case (Inr pc)
    obtain pr c where pc: "pc = (pr, c)" by force
    obtain st1 retry cause where d: "deliverAll c (h_Name h) pr body maxTxn 0 pending st = (st1, retry, cause)"
      by (metis prod_cases3)
    have "dom (fst st1) \<subseteq> D" "fst ` set retry \<subseteq> D"
      using deliverAll_dom[OF Cons.prems(1,2) d] Cons.prems(2) by blast+
    then show ?thesis using Cons.IH[OF Cons.prems(1,2)] Cons.IH[of st1 retry] Cons.prems d Inr
      by (auto simp: pc split: if_split_asm option.split_asm)
  qed
qed auto

lemma run_delivery_dom:
  assumes "run_delivery io cfg strategy password body envs = Some (rs, w, cache)"
  shows "dom rs \<subseteq> fst ` set envs"
proof -
  let ?D = "fst ` set envs"
  have all: "dom (put_results e envs Map.empty) \<subseteq> ?D" for e by (rule put_results_dom) auto
  have sh: "dom (fst (DeliverViaSmarthost d sh body envs maxTxn)) \<subseteq> ?D" for d sh maxTxn
  proof -
    have "dom (put_results x retry rs) \<subseteq> ?D"
      if "deliverAll c h pr body maxTxn 0 envs (Map.empty, []) = ((rs, w), retry, cause)" for c h pr rs w retry cause x
      using deliverAll_dom[OF _ _ that, of ?D] by (intro put_results_dom) auto
    then show ?thesis unfolding DeliverViaSmarthost_def Let_def
      using all by (auto split: sum.split option.split prod.split)
  qed
  have mx: "dom (fst (DeliverViaMX r net domain body envs maxTxn policy)) \<subseteq> ?D" for r net domain maxTxn policy
  proof -
    have "dom (put_results x pending rs) \<subseteq> ?D"
      if "try_hosts dial body sz maxTxn hosts 0 envs None (Map.empty, []) = ((rs, w), pending, le)"
      for dial sz hosts rs w pending le x
      using try_hosts_dom[OF _ _ that, of ?D] by (intro put_results_dom) auto
    then show ?thesis unfolding DeliverViaMX_def Let_def
      using all by (auto split: sum.split option.split prod.split)
  qed
  from run_delivery_via[OF assms] show ?thesis using sh mx by (metis fst_conv)
qed

section \<open>A run over the queue\<close>

lemma parse_all_paths: "parse_all t ps = Some envs \<Longrightarrow> map fst envs = ps"
  by (induction ps arbitrary: envs) (auto simp: Parse_def split: option.split_asm qfile.split_asm if_split_asm)

text \<open>A run is a usage error that changes nothing, or a delivery whose outcomes are written back.\<close>

lemma run_cases:
  obtains (usage) "run io fl bodyPath ps t = usage_error io t"
  | (finished) cfg strategy password body envs rs w cache out t1 where
      "settings io fl = Some (cfg, strategy, password)" "map fst envs = ps" "parse_all t ps = Some envs"
      "run_delivery io cfg strategy password (Some body) envs = Some (rs, w, cache)"
      "out = List.map_filter (\<lambda>p. map_option (result_of p) (rs p)) (io_order io ps)"
      "t1 = touch_failed io out t"
      "run io fl bodyPath ps t = (case writeResultsAndCleanup io (map rr_Envelope (filter (\<lambda>r. rr_Status r \<noteq> StTempFail) out)) t1 of
          None \<Rightarrow> \<lparr>ro_exit = exTempFail, ro_results = [], ro_wire = w, ro_tree = t1, ro_cache = cache\<rparr>
        | Some t2 \<Rightarrow> \<lparr>ro_exit = exit_code out, ro_results = out, ro_wire = w, ro_tree = t2, ro_cache = cache\<rparr>)"
proof (cases "run io fl bodyPath ps t = usage_error io t")
  case False
  then obtain cfg strategy password f envs where
    a: "ps \<noteq> []" "settings io fl = Some (cfg, strategy, password)" "map_of t bodyPath = Some f" "parse_all t ps = Some envs"
    unfolding run_def by (auto split: if_split_asm option.split_asm prod.split_asm)
  define body where "body = (case f of BodyFile b \<Rightarrow> b | _ \<Rightarrow> [])"
  have body: "(case f of BodyFile b \<Rightarrow> Some b | _ \<Rightarrow> Some []) = Some body" by (simp add: body_def split: qfile.split)
  obtain rs w cache where d: "run_delivery io cfg strategy password (Some body) envs = Some (rs, w, cache)"
    using False a unfolding run_def body[symmetric] by (auto split: option.split_asm)
  show ?thesis
    by (rule finished[OF a(2) parse_all_paths[OF a(4)] a(4) d refl refl])
       (use a d parse_all_paths[OF a(4)] body in \<open>simp add: run_def Let_def\<close>)
qed (rule usage)

lemma map_of_touch:
  "map_of (touch now p t) q = (if q = p then map_option (\<lambda>f. case f of EnvFile e m \<Rightarrow> EnvFile e now
     | BadEnv m \<Rightarrow> BadEnv now | BodyFile b \<Rightarrow> BodyFile b) (map_of t q) else map_of t q)"
  by (induction t) (auto simp: touch_def)

lemma touch_failed_other:
  "f \<notin> rr_Envelope ` set out \<Longrightarrow> map_of (touch_failed io out t) f = map_of t f"
proof (induction out arbitrary: t)
  case (Cons r out)
  then show ?case by (auto simp: touch_failed_def map_of_touch)
qed (simp add: touch_failed_def)

lemma touch_failed_keeps:
  "\<exists>m. map_of t f = Some (EnvFile e m) \<Longrightarrow> \<exists>m. map_of (touch_failed io out t) f = Some (EnvFile e m)"
proof (induction out arbitrary: t)
  case (Cons r out)
  have "\<exists>m. map_of (if rr_Status r = StTempFail \<and> \<not> io_touch_fails io (rr_Envelope r)
      then touch (io_now io) (rr_Envelope r) t else t) f = Some (EnvFile e m)"
    using Cons.prems by (auto simp: map_of_touch)
  from Cons.IH[OF this] show ?case by (simp add: touch_failed_def)
qed (simp add: touch_failed_def)

lemma remove_file_lookup: "map_of (remove_file p t) q = (if q = p then None else map_of t q)"
  by (induction t) (auto simp: remove_file_def)

lemma cleanup_lookup:
  assumes "writeResultsAndCleanup io ps t = Some t'"
  shows "map_of t' f = (if f \<in> set ps \<and> \<not> io_remove_fails io f then None else map_of t f)"
proof -
  have "map_of (fold (\<lambda>p t. if io_remove_fails io p then t else remove_file p t) ps t) f =
      (if f \<in> set ps \<and> \<not> io_remove_fails io f then None else map_of t f)" for t
    by (induction ps arbitrary: t) (auto simp: remove_file_lookup)
  then show ?thesis using assms by (auto simp: writeResultsAndCleanup_def split: if_split_asm)
qed

lemma rr_Envelope_result_of [simp]: "rr_Envelope (result_of p e) = p"
  by (simp add: result_of_def split: option.split)

lemma out_paths:
  assumes "out = List.map_filter (\<lambda>p. map_option (result_of p) (rs p)) order"
  shows "rr_Envelope ` set out = set order \<inter> dom rs"
  unfolding assms by (force simp: map_filter_def dom_def image_iff)

text \<open>The agent keeps the contract the scheduler relies on.  A run changes no file but the envelopes it was
  given, and an envelope it was given keeps its contents unless a result of the run reports it delivered or
  permanently failed; when the results cannot be written no envelope is removed.\<close>

lemma run_contract:
  assumes "o' = run io fl bodyPath ps t"
  shows "(f \<notin> set ps \<longrightarrow> map_of (ro_tree o') f = map_of t f) \<and>
    (map_of t f = Some (EnvFile e m) \<longrightarrow>
       (\<exists>m'. map_of (ro_tree o') f = Some (EnvFile e m')) \<or>
       (\<exists>r \<in> set (ro_results o'). rr_Envelope r = f \<and> rr_Status r \<noteq> StTempFail))"
  using run_cases[of io fl bodyPath ps t]
proof cases
  case usage
  then show ?thesis using assms by (simp add: usage_error_def)
next
  case (finished cfg strategy password body envs rs w cache out t1)
  have "dom rs \<subseteq> set ps" using run_delivery_dom[OF finished(4)] finished(2) by (metis list.set_map)
  then have out: "rr_Envelope ` set out \<subseteq> set ps" using out_paths[OF finished(5)] by auto
  let ?del = "map rr_Envelope (filter (\<lambda>r. rr_Status r \<noteq> StTempFail) out)"
  have del: "f \<in> set ?del \<longleftrightarrow> (\<exists>r \<in> set out. rr_Envelope r = f \<and> rr_Status r \<noteq> StTempFail)" by auto
  have t1: "f \<notin> set ps \<Longrightarrow> map_of t1 f = map_of t f"
    using touch_failed_other[of f out] out finished(6) by blast
  have t1': "\<exists>m'. map_of t1 f = Some (EnvFile e m')" if "map_of t f = Some (EnvFile e m)"
    using touch_failed_keeps[of t f e io out] that finished(6) by blast
  show ?thesis
  proof (cases "writeResultsAndCleanup io ?del t1")
    case None
    then show ?thesis using t1 t1' finished(7) assms(1) by auto
  next
    case (Some t2)
    then have o': "ro_tree o' = t2" "ro_results o' = out" using finished(7) assms(1) by auto
    have "f \<notin> set ps \<Longrightarrow> f \<notin> set ?del" using out by auto
    then show ?thesis using cleanup_lookup[OF Some, of f] t1 t1' del unfolding o' by (auto split: if_split_asm)
  qed
qed

section \<open>Where messages go\<close>

lemma deliverAll_wire:
  assumes "deliverAll c h pr body maxTxn i envs st = (st', retry, cause)"
  shows "\<forall>x \<in> set (snd st'). x \<in> set (snd st) \<or> w_Host x = h \<and> w_Protection x = pr"
  using assms
proof (induction envs arbitrary: i st)
  case (Cons env envs)
  obtain rs w where st: "st = (rs, w)" by force
  show ?case
  proof (rule deliverAll_cases[OF Cons.prems[unfolded st]], goal_cases)
    case (3 e sent st1)
    have "\<forall>x \<in> set (snd st1). x \<in> set w \<or> w_Host x = h \<and> w_Protection x = pr" using 3(2) by auto
    then show ?case using 3(3) Cons.IH[of "Suc i" st1] by (auto simp: st)
  qed (auto simp: st)
qed simp

lemma try_hosts_wire:
  assumes "try_hosts dial body sz maxTxn hosts n pending le st = (st', pending', le')"
    and "\<And>addr pr c. dial addr = Inr (pr, c) \<Longrightarrow> pr = Verified"
  shows "\<forall>x \<in> set (snd st'). x \<in> set (snd st) \<or> (\<exists>h \<in> set hosts. w_Host x = h_Name h) \<and> w_Protection x = Verified"
  using assms(1)
proof (induction hosts arbitrary: n pending le st)
  case (Cons h hs)
  show ?case
  proof (cases "dial (host_addr h)")
    case (Inl e)
    then show ?thesis using Cons.IH Cons.prems by (fastforce split: if_split_asm)
  next
    case (Inr pc)
    obtain c where pc: "pc = (Verified, c)" using assms(2) Inr by (metis surj_pair)
    obtain st1 retry cause where d: "deliverAll c (h_Name h) Verified body maxTxn 0 pending st = (st1, retry, cause)"
      by (metis prod_cases3)
    note w = deliverAll_wire[OF d]
    consider "st' = st" | "st' = st1" | n' pending1 le1 where "try_hosts dial body sz maxTxn hs n' pending1 le1 st = (st', pending', le')"
      | n' pending1 le1 where "try_hosts dial body sz maxTxn hs n' pending1 le1 st1 = (st', pending', le')"
      using Cons.prems d Inr by (auto simp: pc split: if_split_asm option.split_asm)
    then show ?thesis
    proof cases
      case 3
      from Cons.IH[OF this] show ?thesis by auto
    next
      case 4
      from Cons.IH[OF this] show ?thesis using w by fastforce
    qed (use w in auto)
  qed
qed auto

lemma DialMXStrict_verified: "DialMXStrict d addr = Inr (pr, c) \<Longrightarrow> pr = Verified"
  by (auto simp: DialMXStrict_def post_hello_def split: sum.split_asm option.split_asm)

lemma DeliverViaMX_enforce:
  assumes "p_Mode p = ModeEnforce" "DeliverViaMX r net domain body envs maxTxn (Some p) = (rs, w)"
  shows "\<forall>x \<in> set w. w_Protection x = Verified \<and> MXMatches p (w_Host x)"
proof (cases "Lookup r domain")
  case (Inr hosts)
  let ?hs = "filter (\<lambda>h. MXMatches p (h_Name h)) hosts"
  show ?thesis
  proof (cases "?hs = [] \<or> body = None")
    case True
    then show ?thesis using assms Inr by (auto simp: DeliverViaMX_def Let_def split: option.split_asm if_split_asm)
  next
    case False
    then obtain b where b: "body = Some b" by auto
    obtain st' pending le where t: "try_hosts (DialMXStrict net) body (length b) maxTxn ?hs 0 envs None (Map.empty, []) = (st', pending, le)"
      by (metis prod_cases3)
    have "w = snd st'" using assms Inr False t b
      by (auto simp: DeliverViaMX_def Let_def split: prod.split_asm)
    then show ?thesis using try_hosts_wire[OF t DialMXStrict_verified] by fastforce
  qed
qed (use assms in \<open>auto simp: DeliverViaMX_def\<close>)

section \<open>Policies under attack\<close>

text \<open>The policy host is blocked: no request to it gives a policy body.\<close>

definition blocked :: "sts_env \<Rightarrow> bool" where
  "blocked c = (\<forall>url. case HttpGet c url of HttpReply code body \<Rightarrow> code \<noteq> 200 \<or> body = None | _ \<Rightarrow> True)"

lemma PolicyFor_cached:
  assumes "CacheDir c \<noteq> []" "cache (cachePath domain) = Some e" "fresh c e" "blocked c"
  shows "PolicyFor c domain cache = (cache, Inr (Some (ce_Policy e)))"
proof -
  have "HTTPSFetcher c domain = None"
    using assms(4) unfolding blocked_def HTTPSFetcher_def
    by (auto split: http_reply.split dest!: spec[of _ "''https://mta-sts.'' @ domain @ ''/.well-known/mta-sts.txt''"])
  then show ?thesis using assms(1-3)
    by (simp add: PolicyFor_def loadCache_def cached_fresh_def Let_def split: option.split)
qed

section \<open>Properties\<close>

text \<open>A small world for the examples: a relay that takes every message, a policy in the cache, DNS that does not
  answer and a policy host that cannot be reached.\<close>

definition demo_relay :: client where
  "demo_relay = \<lparr>cl_Auth = \<lambda>u p. None, cl_MaxMessageSize = None, cl_Mail = \<lambda>i s. None, cl_Rcpt = \<lambda>i r. None,
     cl_Data = \<lambda>i. None, cl_Copy = \<lambda>i. None, cl_Close = \<lambda>i. None, cl_Reset = \<lambda>i. None\<rparr>"

definition demo_policy :: cacheEntry where
  "demo_policy = \<lparr>ce_ID = ''1'', ce_FetchedAt = 0, ce_Policy = \<lparr>p_Mode = ''enforce'', p_MXs = [''mx.x.com''], p_MaxAge = 10\<rparr>\<rparr>"

definition demo_io :: remote_io where
  "demo_io = \<lparr>io_stdin = None, io_env_hostname = [], io_env_password = [], io_os_hostname = None, io_now = 7,
     io_resolver = \<lparr>LookupMX = \<lambda>d. Inl (OtherError ''timeout''), LookupHost = \<lambda>d. Inl (OtherError ''timeout''), SortMX = \<lambda>m. m\<rparr>,
     io_net = \<lambda>a n. Inl (OtherError ''refused''), io_smarthost = \<lambda>a. Inr demo_relay,
     io_sts = \<lparr>LookupTXT = \<lambda>d. None, HttpGet = \<lambda>u. HttpFailed, CacheDir = [], Now = 5, CanStore = True\<rparr>,
     io_cache = [cachePath ''x.com'' \<mapsto> demo_policy], io_order = \<lambda>ps. ps, io_stdout_ok = True,
     io_touch_fails = \<lambda>p. False, io_remove_fails = \<lambda>p. False\<rparr>"

definition demo_flags :: "string \<Rightarrow> remote_flags" where
  "demo_flags sh = \<lparr>f_config = Some (TomlConfig [] \<lparr>r_Hostname = ''h'', r_Smarthost = [], r_User = [],
       SmarthostMaxTransactionsPerConn = 0, RemoteMX = \<lparr>MaxTransactionsPerConn = 0, MTASTSCache = ''/c''\<rparr>\<rparr>),
     f_smarthost = sh, f_user = [], f_password_fd = None, f_hostname = []\<rparr>"

definition demo_envelope :: queueEnvelope where
  "demo_envelope = \<lparr>TTL = Some 9, Created = 0, Sender = ''s'', Recipient = ''bob@x.com'', MsgID = ''m'', Origin = ''o''\<rparr>"

definition demo_path :: qpath where
  "demo_path = [''env'', ''com'', ''x'', ''bob@ab.0'']"

definition demo_body :: qpath where
  "demo_body = [''msg'', ''org'', ''y'', ''ab'']"

definition demo_tree :: qtree where
  "demo_tree = [(demo_path, EnvFile demo_envelope 0),
                (demo_body, BodyFile ''hi'')]"

definition demo_cfg :: remote_cfg where
  "demo_cfg = \<lparr>r_Hostname = ''h'', r_Smarthost = [], r_User = [], SmarthostMaxTransactionsPerConn = 100,
     RemoteMX = \<lparr>MaxTransactionsPerConn = 25, MTASTSCache = ''/c''\<rparr>\<rparr>"

lemma demo_files:
  "map_of demo_tree demo_path = Some (EnvFile demo_envelope 0)" "map_of demo_tree demo_body = Some (BodyFile ''hi'')"
  "remove_file demo_path demo_tree = [(demo_body, BodyFile ''hi'')]"
  by (simp_all add: demo_tree_def demo_path_def demo_body_def remove_file_def)

lemma demo_io_parts:
  "io_order demo_io ps = ps" "io_stdout_ok demo_io" "\<not> io_remove_fails demo_io p"
  "LookupMX (io_resolver demo_io) d = Inl (OtherError ''timeout'')"
  "LookupHost (io_resolver demo_io) d = Inl (OtherError ''timeout'')"
  by (simp_all add: demo_io_def)

lemma demo_settings:
  "settings demo_io (demo_flags []) = Some (demo_cfg, [], [])"
  "settings demo_io (demo_flags ''r:25'') = Some (demo_cfg\<lparr>r_Smarthost := ''r:25''\<rparr>, [], [])"
  by (simp_all add: settings_def demo_io_def demo_flags_def demo_cfg_def config_Load_def remote_Default_def ApplyEnv_def Let_def)

lemma demo_parsed: "parse_all demo_tree [demo_path] =
    Some [(demo_path, demo_envelope)]"
  by (simp add: Parse_def demo_files) (simp add: demo_envelope_def validate_def)

lemma demo_domain: "RecipientDomain demo_envelope = Some ''x.com''"
  by (simp add: RecipientDomain_def demo_envelope_def)

lemma demo_relayed:
  "run demo_io (demo_flags ''r:25'') demo_body [demo_path] demo_tree =
   \<lparr>ro_exit = 0, ro_results = [\<lparr>rr_Envelope = demo_path, rr_Status = StDelivered, rr_SMTPCode = 250, rr_Diagnostic = []\<rparr>],
    ro_wire = [\<lparr>w_Host = ''r:25'', w_Protection = Verified, w_Path = demo_path\<rparr>],
    ro_tree = [(demo_body, BodyFile ''hi'')], ro_cache = [cachePath ''x.com'' \<mapsto> demo_policy]\<rparr>"
proof -
  have d: "run_delivery demo_io (demo_cfg\<lparr>r_Smarthost := ''r:25''\<rparr>) [] [] (Some ''hi'') [(demo_path, demo_envelope)] =
      Some ([demo_path \<mapsto> None], [\<lparr>w_Host = ''r:25'', w_Protection = Verified, w_Path = demo_path\<rparr>],
        [cachePath ''x.com'' \<mapsto> demo_policy])"
    by (simp add: run_delivery_def use_smarthost_def demo_cfg_def demo_io_def DeliverViaSmarthost_def demo_relay_def
        checkSize_def deliver_def put_results_def)
  show ?thesis
    by (simp add: run_def demo_settings demo_files demo_parsed d List.map_filter_def result_of_def touch_failed_def
        writeResultsAndCleanup_def exit_code_def exOK_def demo_io_parts Let_def del: parse_all.simps)
qed

text \<open>C23: no message is sent twice in a run.  Over all hosts and failovers each envelope's message is ended on the
  wire at most once, a result that says delivered is for a message that was, and when the results can be
  written every envelope of the run has one.\<close>

theorem message_sent_at_most_once:
  assumes "distinct ps" "o' = run io fl bodyPath ps t" "set (io_order io ps) = set ps"
  shows "distinct (map w_Path (ro_wire o')) \<and> w_Path ` set (ro_wire o') \<subseteq> set ps \<and>
    (\<forall>r \<in> set (ro_results o'). rr_Status r = StDelivered \<longrightarrow> rr_Envelope r \<in> w_Path ` set (ro_wire o')) \<and>
    (io_stdout_ok io \<and> ro_exit o' \<noteq> exUsage \<longrightarrow> rr_Envelope ` set (ro_results o') = set ps)"
  using run_cases[of io fl bodyPath ps t]
proof cases
  case usage
  then show ?thesis using assms by (simp add: usage_error_def)
next
  case (finished cfg strategy password body envs rs w cache out t1)
  have b: "books (set ps) (rs, w)"
    using run_delivery_books[OF finished(4)] finished(2) assms(1) by (metis list.set_map)
  have out: "rr_Envelope ` set out = set ps"
    using out_paths[OF finished(5)] assms(3) b by (auto simp: books_def)
  have w: "ro_wire o' = w" "ro_results o' = out \<or> ro_results o' = [] \<and> \<not> io_stdout_ok io"
    using finished(7) assms(2) by (auto simp: writeResultsAndCleanup_def split: option.split_asm if_split_asm)
  have "rr_Envelope r \<in> w_Path ` set w" if r: "r \<in> set out" "rr_Status r = StDelivered" for r
  proof -
    obtain p e where p: "rs p = Some e" "r = result_of p e" using r(1) finished(5) by (auto simp: map_filter_def split: if_split_asm)
    then have "e = None" using r(2) by (auto simp: result_of_def split: option.split_asm if_split_asm)
    then show ?thesis using b p by (simp add: books_def)
  qed
  then show ?thesis using w b out by (auto simp: books_def)
qed

theorem message_sent_at_most_once_witness:
  "map w_Path (ro_wire (run demo_io (demo_flags ''r:25'') demo_body
     [demo_path] demo_tree)) = [demo_path] \<and>
   rr_Envelope ` set (ro_results (run demo_io (demo_flags ''r:25'') demo_body
     [demo_path] demo_tree)) = {demo_path}"
proof -
  have "distinct [demo_path]" by simp
  from message_sent_at_most_once[OF this refl, of demo_io "demo_flags ''r:25''" demo_body demo_tree]
  show ?thesis by (simp add: demo_relayed demo_io_parts exUsage_def)
qed



text \<open>A DNS outage bounces mail.  When neither the MX nor the address lookup of the recipient domain answers,
  for whatever reason, a direct delivery reports every envelope as permanently failed, with no SMTP reply
  behind it, and removes it from the queue.\<close>

theorem dns_outage_bounces_mail:
  assumes "settings io fl = Some (cfg, strategy, password)" "use_smarthost cfg strategy = Some False" "r_Hostname cfg \<noteq> []"
    and "map_of t bodyPath = Some (BodyFile b)" "parse_all t ps = Some (env # envs)"
    and "RecipientDomain (snd env) = Some domain"
    and "LookupMX (io_resolver io) domain = Inl e1" "LookupHost (io_resolver io) domain = Inl e2"
    and "io_stdout_ok io" "set (io_order io ps) = set ps" "p \<in> set ps" "\<not> io_remove_fails io p"
    and "o' = run io fl bodyPath ps t"
  shows "map_of (ro_tree o') p = None \<and>
    (\<exists>r \<in> set (ro_results o'). rr_Envelope r = p \<and> rr_Status r = StPermFail \<and> rr_SMTPCode r = 0)"
proof -
  let ?x = "PermanentError (MXPermanentError (OtherError (''no MX or A/AAAA records for '' @ domain)))"
  have ps: "map fst (env # envs) = ps" using parse_all_paths[OF assms(5)] .
  have pne: "ps \<noteq> []" using ps by auto
  have lk: "Lookup (io_resolver io) domain = Inl (MXPermanentError (OtherError (''no MX or A/AAAA records for '' @ domain)))"
    using assms(7,8) by (simp add: Lookup_def lookup_host_def)
  have d: "DeliverViaMX (io_resolver io) (io_net io) domain body (env # envs) m pol =
      (put_results (Some ?x) (env # envs) Map.empty, [])" for body m pol
    by (simp add: DeliverViaMX_def lk classifyMXError_def)
  obtain cache where rd: "run_delivery io cfg strategy password (Some b) (env # envs) =
      Some (put_results (Some ?x) (env # envs) Map.empty, [], cache)"
    using assms(2,3,6) d by (auto simp: run_delivery_def case_prod_unfold)
  define out where "out = List.map_filter (\<lambda>p. map_option (result_of p) (put_results (Some ?x) (env # envs) Map.empty p)) (io_order io ps)"
  have fstps: "p \<in> fst ` set (env # envs)" using assms(11) ps by (metis list.set_map)
  have pr: "put_results (Some ?x) (env # envs) Map.empty p = Some (Some ?x)"
    by (simp only: put_results_apply fstps if_True)
  have "p \<in> set (io_order io ps)" using assms(10,11) by simp
  then have "result_of p (Some ?x) \<in> set out" unfolding out_def using pr by (force simp: map_filter_def)
  moreover have st: "rr_Status (result_of p (Some ?x)) = StPermFail" "rr_SMTPCode (result_of p (Some ?x)) = 0"
    by (simp_all add: result_of_def IsPermanent_def SMTPCode_def smtp_reply_def)
  ultimately have in_out: "\<exists>r \<in> set out. rr_Envelope r = p \<and> rr_Status r = StPermFail \<and> rr_SMTPCode r = 0" by force
  let ?del = "map rr_Envelope (filter (\<lambda>r. rr_Status r \<noteq> StTempFail) out)"
  obtain t2 where t2: "writeResultsAndCleanup io ?del (touch_failed io out t) = Some t2"
    using assms(9) by (simp add: writeResultsAndCleanup_def)
  have "p \<in> set ?del" using in_out by force
  then have "map_of t2 p = None" using cleanup_lookup[OF t2, of p] assms(12) by simp
  moreover have "ro_tree o' = t2" "ro_results o' = out"
    using assms(1,4,5,13) rd pne t2 ps unfolding run_def out_def by (simp_all add: Let_def)
  ultimately show ?thesis using in_out by simp
qed

theorem dns_outage_bounces_mail_witness:
  "map_of (ro_tree (run demo_io (demo_flags []) demo_body [demo_path] demo_tree))
     demo_path = None"
proof -
  have "use_smarthost demo_cfg [] = Some False" "r_Hostname demo_cfg \<noteq> []"
    by (simp_all add: use_smarthost_def demo_cfg_def)
  moreover have "RecipientDomain (snd (demo_path, demo_envelope)) = Some ''x.com''" by (simp add: demo_domain)
  moreover have "set (io_order demo_io [demo_path]) = set [demo_path]" "demo_path \<in> set [demo_path]" by (simp_all add: demo_io_parts)
  ultimately show ?thesis
    using dns_outage_bounces_mail[OF demo_settings(1) _ _ demo_files(2) demo_parsed _ demo_io_parts(4,5,2) _ _ demo_io_parts(3) refl]
    by blast
qed

end
