(* ===== verification/Outbound.thy ===== *)
theory Outbound
  imports QueueProps RemoteProps
begin

text \<open>The queue manager and the delivery agent together (\<open>Scheduler.invoke\<close>, \<open>Scheduler.buildArgs\<close>): the scheduler
  runs the agent of \<open>MailRemote\<close> as a process and reads its results back.  The agent is an instance of the
  interface the scheduler relies on, which gives the end-to-end guarantee of the outbound queue.\<close>

section \<open>Invoking the agent (scheduler.go)\<close>

text \<open>The agent as the scheduler starts it: its host name and configuration file, and the surroundings of each
  invocation.\<close>

record agent =
  ag_Hostname :: string
  ag_Config :: "toml_file option"
  ag_io :: "qpath \<Rightarrow> qpath list \<Rightarrow> bool \<Rightarrow> qtree \<Rightarrow> remote_io"

definition buildArgs :: "agent \<Rightarrow> remote_flags" where
  "buildArgs ag = \<lparr>f_config = ag_Config ag, f_smarthost = [], f_user = [], f_password_fd = None, f_hostname = []\<rparr>"

definition stdin_config :: "agent \<Rightarrow> OutboundConfig \<Rightarrow> outboundConfig" where
  "stdin_config ag out = \<lparr>oc_Strategy = o_Strategy out, oc_Hostname = ag_Hostname ag, oc_Smarthost = o_Smarthost out,
     oc_Username = o_SmarthostUser out, oc_Password = o_password out\<rparr>"

definition read_result :: "recipientResult \<Rightarrow> deliveryResult" where
  "read_result r = \<lparr>dr_Envelope = rr_Envelope r,
     dr_Status = (case rr_Status r of StDelivered \<Rightarrow> Delivered | StPermFail \<Rightarrow> PermFail | StTempFail \<Rightarrow> TempFail),
     dr_SMTPCode = rr_SMTPCode r, dr_Diagnostic = rr_Diagnostic r\<rparr>"

definition invoke ::
  "agent \<Rightarrow> qpath \<Rightarrow> qpath list \<Rightarrow> bool \<Rightarrow> OutboundConfig \<Rightarrow> qtree \<Rightarrow> qtree \<times> deliveryResult list" where
  "invoke ag bodyPath envPaths final outbound t =
     (let io = (ag_io ag bodyPath envPaths final t)\<lparr>io_stdin := Some (stdin_config ag outbound)\<rparr>;
          r = run io (buildArgs ag) bodyPath envPaths t
      in (ro_tree r, map read_result (ro_results r)))"

definition with_agent :: "agent \<Rightarrow> sched_env \<Rightarrow> sched_env" where
  "with_agent ag env = env\<lparr>se_remote := invoke ag\<rparr>"

section \<open>The agent keeps the contract\<close>

lemma invoke_other: "f \<notin> set ps \<Longrightarrow> map_of (fst (invoke ag body ps fin out t)) f = map_of t f"
  using run_contract[OF refl] by (simp add: invoke_def Let_def)

lemma invoke_keeps:
  assumes "has_env t f e"
  shows "has_env (fst (invoke ag body ps fin out t)) f e \<or> f \<in> set ps \<and> reported (snd (invoke ag body ps fin out t)) f"
proof (cases "f \<in> set ps")
  case False
  then show ?thesis using invoke_other[OF False] assms by (simp add: has_env_def)
next
  case True
  obtain m where "map_of t f = Some (EnvFile e m)" using assms by (auto simp: has_env_def)
  moreover have "\<exists>d \<in> set (map read_result rs). dr_Envelope d = f \<and> dr_Status d \<noteq> TempFail"
    if "\<exists>r \<in> set rs. rr_Envelope r = f \<and> rr_Status r \<noteq> StTempFail" for rs
    using that by (auto simp: read_result_def split: status.split)
  ultimately show ?thesis
    using run_contract[OF refl, where f = f and e = e and m = m and t = t and ps = ps and bodyPath = body
        and fl = "buildArgs ag" and io = "(ag_io ag body ps fin t)\<lparr>io_stdin := Some (stdin_config ag out)\<rparr>"]
      True unfolding has_env_def reported_def invoke_def Let_def fst_conv snd_conv by blast
qed

interpretation mail_remote: delivery_agent "with_agent ag env" for ag env
  by unfold_locales (simp_all add: with_agent_def invoke_other invoke_keeps)

section \<open>Properties\<close>


definition demo_sched_env :: sched_env where
  "demo_sched_env = \<lparr>se_MessageTTL = 0, se_dsn = False, se_dsn_ok = \<lambda>b. True,
     se_out = \<lparr>oe_section = \<lambda>p. None, oe_read = \<lambda>p. None, oe_global = zero_outbound, oe_base = []\<rparr>,
     se_remote = \<lambda>body ps fin out t. (t, []), se_stuck = \<lambda>p. False, se_order = (\<lambda>xs. xs)\<rparr>"

definition demo_sched :: sched where
  "demo_sched = \<lparr>tree = demo_tree, limiter = None, ocache = Map.empty, reports = [], bounces = []\<rparr>"

definition demo_agent :: agent where
  "demo_agent = \<lparr>ag_Hostname = ''h'', ag_Config = None, ag_io = \<lambda>body ps fin t. demo_io\<rparr>"


text \<open>An expired message can vanish without a bounce.  When the agent ends without results, as it does with a
  configuration file it cannot read, the final attempt of an expired envelope removes the envelope and
  no bounce is sent.\<close>

theorem expired_mail_dropped_without_bounce:
  assumes "ag_Config ag = Some TomlUnreadable" "limiter s = None" "resolveBody (tree s) h = Some body"
    and "map_of (tree s) q = Some (EnvFile e m)" "q \<noteq> []" "extractMsgID (last q) \<noteq> None" "\<not> se_stuck env q"
    and "s' = process_group (with_agent ag env) now dn (h, [(q, True, e)]) s"
  shows "map_of (tree s') q = None \<and> map_of (tree s') (claimed_path q) = None \<and> bounces s' = bounces s"
proof -
  have none: "invoke ag b ps fin out t = (t, [])" for b ps fin out t
    using assms(1) by (simp add: invoke_def run_def settings_def buildArgs_def config_Load_def usage_error_def Let_def)
  have remote: "se_remote (with_agent ag env) = invoke ag" by (simp add: with_agent_def)
  obtain t where t: "claim (with_agent ag env) q (tree s) = Some t"
    using assms(4,7) by (auto simp: claim_def with_agent_def rename_file_def)
  have q: "map_of t q = None" using claim_step(1)[OF t assms(6,5,5,6) refl] by simp
  obtain oc out where oc: "resolveOutbound (se_out (with_agent ag env)) body (ocache s) = (oc, out)" by force
  have s': "tree s' = remove_file (claimed_path q) t" "bounces s' = bounces s"
    using assms(2,3,8) t oc
    by (simp_all add: process_group_def deliver_active_def remote none generateDSNsForExpired_def)
  show ?thesis using q by (simp add: s')
qed

theorem expired_mail_dropped_without_bounce_witness:
  "bounces (process_group (with_agent (demo_agent\<lparr>ag_Config := Some TomlUnreadable\<rparr>) demo_sched_env) 12 ''x.com''
     (''ab'', [(demo_path, True, demo_envelope)]) demo_sched) = []"
proof -
  have "resolveBody (tree demo_sched) ''ab'' = Some demo_body"
    by (simp add: resolveBody_def demo_sched_def demo_tree_def demo_path_def demo_body_def)
  moreover have "extractMsgID (last demo_path) \<noteq> None" "demo_path \<noteq> []"
    by (simp_all add: extractMsgID_def deliveringSuffix_def demo_path_def go_eval)
  moreover have "map_of (tree demo_sched) demo_path = Some (EnvFile demo_envelope 0)"
    by (simp add: demo_sched_def demo_files)
  ultimately show ?thesis
    using expired_mail_dropped_without_bounce[of "demo_agent\<lparr>ag_Config := Some TomlUnreadable\<rparr>" demo_sched "''ab''" demo_body
        demo_path demo_envelope 0 demo_sched_env, OF _ _ _ _ _ _ _ refl]
    by (simp add: demo_sched_def demo_sched_env_def)
qed

end
