(* ===== verification/SpamCheck.thy ===== *)
theory SpamCheck
  imports Prelude Complex_Main
begin

text \<open>Spam verdicts (\<open>internal/smtpd/spamcheck\<close>): the result of a check, the thresholds, and the aggregation of
  several checkers.  A single checker is a function of the message and may fail.  Both kinds of checker read
  the whole message first, so an error of the reader is an error of the check.\<close>

section \<open>Results and thresholds (spamcheck.go)\<close>

datatype Action = ActionAccept | ActionReject | ActionTempFail | ActionFlag

record CheckResult =
  CheckerName :: string
  Score :: real
  CheckAction :: Action
  IsSpam :: bool
  Headers :: "(string \<times> string) list"
  AuthResults :: string
  RejectMessage :: string

definition accept_result :: CheckResult where
  "accept_result = \<lparr>CheckerName = ''multi'', Score = 0, CheckAction = ActionAccept, IsSpam = False, Headers = [],
     AuthResults = [], RejectMessage = []\<rparr>"

definition ShouldReject :: "real \<Rightarrow> CheckResult \<Rightarrow> bool" where
  "ShouldReject threshold r = (CheckAction r = ActionReject \<or> threshold > 0 \<and> Score r \<ge> threshold)"

definition ShouldTempFail :: "real \<Rightarrow> CheckResult \<Rightarrow> bool" where
  "ShouldTempFail threshold r = (CheckAction r = ActionTempFail \<or> threshold > 0 \<and> Score r \<ge> threshold)"

datatype FailMode = FailOpen | FailTempFail | FailReject

definition GetFailMode :: "string \<Rightarrow> FailMode" where
  "GetFailMode m = (if m = ''open'' then FailOpen else if m = ''reject'' then FailReject else FailTempFail)"

section \<open>Several checkers (multi.go)\<close>

record MultiConfig =
  mc_Mode :: string
  mc_RejectThreshold :: real
  mc_TempFailThreshold :: real

text \<open>The result with the highest score above a bound, the first of equals.\<close>

fun highest_above :: "real \<Rightarrow> CheckResult option \<Rightarrow> CheckResult list \<Rightarrow> CheckResult option" where
  "highest_above hi best [] = best"
| "highest_above hi best (r # rs) =
     (if Score r > hi then highest_above (Score r) (Some r) rs else highest_above hi best rs)"

definition aggregateFirstReject :: "MultiConfig \<Rightarrow> CheckResult list \<Rightarrow> CheckResult" where
  "aggregateFirstReject cfg results =
     (case List.find (\<lambda>r. CheckAction r = ActionReject \<or> ShouldReject (mc_RejectThreshold cfg) r) results of
        Some r \<Rightarrow> accept_result\<lparr>Score := Score r, CheckAction := ActionReject, IsSpam := True,
                   RejectMessage := RejectMessage r\<rparr>
      | None \<Rightarrow>
          (case List.find (\<lambda>r. CheckAction r = ActionTempFail \<or> ShouldTempFail (mc_TempFailThreshold cfg) r) results of
             Some r \<Rightarrow> accept_result\<lparr>Score := Score r, CheckAction := ActionTempFail, RejectMessage := RejectMessage r\<rparr>
           | None \<Rightarrow> (case highest_above 0 None results of
               Some r \<Rightarrow> accept_result\<lparr>Score := Score r, IsSpam := IsSpam r\<rparr>
             | None \<Rightarrow> accept_result)))"

definition aggregateAllReject :: "MultiConfig \<Rightarrow> CheckResult list \<Rightarrow> CheckResult" where
  "aggregateAllReject cfg results =
     (let allReject = list_all (\<lambda>r. CheckAction r = ActionReject \<or> ShouldReject (mc_RejectThreshold cfg) r) results;
          avgScore = sum_list (map Score results) / real (length results);
          message = fold (\<lambda>r m. if RejectMessage r \<noteq> [] then RejectMessage r else m) results []
      in if allReject then accept_result\<lparr>Score := avgScore, CheckAction := ActionReject, IsSpam := True,
                             RejectMessage := message\<rparr>
         else accept_result\<lparr>Score := avgScore\<rparr>)"

fun highest_score :: "CheckResult \<Rightarrow> CheckResult list \<Rightarrow> CheckResult" where
  "highest_score best [] = best"
| "highest_score best (r # rs) = highest_score (if Score r > Score best then r else best) rs"

definition aggregateHighestScore :: "MultiConfig \<Rightarrow> CheckResult list \<Rightarrow> CheckResult" where
  "aggregateHighestScore cfg results = (case results of
       [] \<Rightarrow> accept_result
     | r # rs \<Rightarrow>
         (let h = highest_score r rs in
          accept_result\<lparr>Score := Score h,
            CheckAction := (if ShouldReject (mc_RejectThreshold cfg) h then ActionReject
                            else if ShouldTempFail (mc_TempFailThreshold cfg) h then ActionTempFail
                            else ActionAccept),
            IsSpam := IsSpam h, RejectMessage := RejectMessage h\<rparr>))"

definition aggregateResults :: "MultiConfig \<Rightarrow> CheckResult list \<Rightarrow> CheckResult" where
  "aggregateResults cfg results = (case results of
       [] \<Rightarrow> accept_result
     | [r] \<Rightarrow> r
     | _ \<Rightarrow> (if mc_Mode cfg = ''all_reject'' then aggregateAllReject cfg results
            else if mc_Mode cfg = ''highest_score'' then aggregateHighestScore cfg results
            else aggregateFirstReject cfg results))"

definition merge_headers :: "(string \<times> string) list \<Rightarrow> (string \<times> string) list \<Rightarrow> (string \<times> string) list" where
  "merge_headers acc hs = fold (\<lambda>(k, v) acc. filter (\<lambda>e. fst e \<noteq> k) acc @ [(k, v)]) hs acc"

text \<open>A checker: a single backend, or several with their aggregation.\<close>

datatype checker = Single "string \<Rightarrow> CheckResult option" | Multi MultiConfig "(string \<Rightarrow> CheckResult option) list"

text \<open>A message as it is read: its bytes, and whether reading ends with an error instead of the end.\<close>

record data_stream =
  d_bytes :: string
  d_failed :: bool

definition multi_check :: "MultiConfig \<Rightarrow> (string \<Rightarrow> CheckResult option) list \<Rightarrow> string \<Rightarrow> CheckResult option" where
  "multi_check cfg cs msg =
     (let results = List.map_filter (\<lambda>c. c msg) cs in
      if results = [] then None
      else Some ((aggregateResults cfg results)
             \<lparr>Headers := fold (\<lambda>r acc. merge_headers acc (Headers r)) results [],
              AuthResults := (case List.find (\<lambda>r. AuthResults r \<noteq> []) results of Some r \<Rightarrow> AuthResults r | None \<Rightarrow> [])\<rparr>))"

text \<open>A check: the bytes it has read, and its result unless it failed.\<close>

definition Check :: "checker \<Rightarrow> data_stream \<Rightarrow> string \<times> CheckResult option" where
  "Check c d = (case c of
       Single f \<Rightarrow> (d_bytes d, if d_failed d then None else f (d_bytes d))
     | Multi cfg cs \<Rightarrow>
         (if cs = [] then ([], Some accept_result)
          else (d_bytes d, if d_failed d then None else multi_check cfg cs (d_bytes d))))"

section \<open>What the modes promise\<close>

lemma highest_score_max: "Score r \<le> Score (highest_score r rs) \<and> (\<forall>x \<in> set rs. Score x \<le> Score (highest_score r rs))"
proof (induction rs arbitrary: r)
  case (Cons a rs)
  show ?case using Cons[of "if Score a > Score r then a else r"] by (auto split: if_split_asm)
qed simp

lemma highest_score_in: "highest_score r rs \<in> set (r # rs)"
proof (induction rs arbitrary: r)
  case (Cons a rs)
  show ?case using Cons[of "if Score a > Score r then a else r"] by (auto split: if_split_asm)
qed simp

end
