(* ===== verification/SmtpHeaders.thy ===== *)
theory SmtpHeaders
  imports Prelude "HOL-Library.List_Lexorder" "HOL-Library.Char_ord"
begin

text \<open>The headers the SMTP daemon writes and removes (\<open>internal/smtpd/smtp\<close>): trace headers, spam headers, and the
  filter that takes forged authentication results out of incoming messages.  Dates come formatted from the
  clock and the text on the TLS connection from the library.\<close>

section \<open>Trace headers (received.go)\<close>

definition crlf :: string where
  "crlf = [CHR 13, CHR 10]"

definition withHeaders :: "string \<Rightarrow> string \<Rightarrow> string" where
  "withHeaders headers body = headers @ body"

definition receivedProto :: "bool \<Rightarrow> bool \<Rightarrow> string" where
  "receivedProto isTLS authenticated =
     (if isTLS \<and> authenticated then ''ESMTPSA'' else if isTLS then ''ESMTPS''
      else if authenticated then ''ESMTPA'' else ''ESMTP'')"

text \<open>The names of the protocol version and of the cipher suite are those of the TLS library.\<close>

definition tlsComment :: "(string \<times> string) option \<Rightarrow> string" where
  "tlsComment st = (case st of
       None \<Rightarrow> []
     | Some (version, cipher) \<Rightarrow> ''(version='' @ version @ '' cipher='' @ cipher @ '')'')"

record ReceivedInfo =
  ri_Helo :: string
  ri_ClientHostname :: string
  ri_ClientIP :: string
  ri_Hostname :: string
  ri_Proto :: string
  ri_TLSComment :: string
  ri_MsgID :: string
  ri_ForRcpt :: string

definition buildReceivedHeader :: "ReceivedInfo \<Rightarrow> string \<Rightarrow> string" where
  "buildReceivedHeader info date =
     (let helo = (if ri_Helo info = [] then ''unknown'' else ri_Helo info);
          rdns = (if ri_ClientHostname info = [] then ''unknown'' else ri_ClientHostname info);
          ls = [''Received: from '' @ helo @ '' ('' @ rdns @ '' ['' @ ri_ClientIP info @ ''])'',
                [CHR 9] @ ''by '' @ ri_Hostname info @ '' with '' @ ri_Proto info @ '' id '' @ ri_MsgID info]
            @ (if ri_TLSComment info \<noteq> [] then [[CHR 9] @ ri_TLSComment info] else [])
            @ (if ri_ForRcpt info \<noteq> [] then [[CHR 9] @ ''for <'' @ ri_ForRcpt info @ ''>''] else [])
      in JoinBytes crlf ls @ '';'' @ crlf @ [CHR 9] @ date @ crlf)"

definition buildForwardReceivedHeader :: "string \<Rightarrow> string \<Rightarrow> string \<Rightarrow> string \<Rightarrow> string" where
  "buildForwardReceivedHeader hostname original msgid date =
     ''Received: by '' @ hostname @ '' (forwarding for <'' @ original @ ''>)'' @ crlf @ [CHR 9] @ ''id '' @ msgid @ '';''
     @ crlf @ [CHR 9] @ date @ crlf @ ''X-Original-To: '' @ original @ crlf"

section \<open>Spam headers (spamheaders.go)\<close>

definition leadingSpamHeaders :: "string list" where
  "leadingSpamHeaders = [''X-Spam-Flag'', ''X-Spam-Value'', ''X-Spam-Score'', ''X-Spam-Status'', ''X-Spam-Checker'']"

definition sanitizeFieldName :: "string \<Rightarrow> string option" where
  "sanitizeFieldName name =
     (if name = [] \<or> list_ex (\<lambda>c. let n = (of_char c :: nat) in n < 33 \<or> n > 126 \<or> c = CHR '':'') name then None
      else Some name)"

definition sanitizeFieldValue :: "string \<Rightarrow> string" where
  "sanitizeFieldValue value = TrimSpace (concat (map (\<lambda>c. let n = (of_char c :: nat) in
     if n = 13 \<or> n = 10 then '' '' else if n \<noteq> 9 \<and> (n < 32 \<or> n > 126) then [] else [c]) value))"

definition spam_field :: "(string \<times> string) list \<Rightarrow> string \<Rightarrow> string" where
  "spam_field headers name = (case map_of headers name of
       None \<Rightarrow> []
     | Some value \<Rightarrow> (case sanitizeFieldName name of
         None \<Rightarrow> []
       | Some n \<Rightarrow> n @ '': '' @ sanitizeFieldValue value @ crlf))"

definition buildSpamHeaders :: "(string \<times> string) list \<Rightarrow> string" where
  "buildSpamHeaders headers =
     concat (map (spam_field headers) (leadingSpamHeaders @
       sort (filter (\<lambda>n. n \<notin> set leadingSpamHeaders) (remdups (map fst headers)))))"

section \<open>Authentication results (authresults.go)\<close>

definition authResultsFieldName :: string where
  "authResultsFieldName = ''authentication-results:''"

definition authResultsChunk :: nat where
  "authResultsChunk = 8192"

definition buildAuthResultsHeader :: "string \<Rightarrow> string" where
  "buildAuthResultsHeader v = (if v = [] then [] else ''Authentication-Results: '' @ v @ crlf)"

definition ends_token :: "char \<Rightarrow> bool" where
  "ends_token c = (c \<in> {CHR '' '', CHR 9, CHR '';'', CHR 13, CHR 10})"

definition authservIDOf :: "string \<Rightarrow> string" where
  "authservIDOf v = (if list_ex ends_token v then takeWhile (\<lambda>c. \<not> ends_token c) v else TrimSpace v)"

text \<open>\<open>strings.EqualFold\<close> against an ASCII text: besides the letters of ASCII, the long s (bytes C5 BF) folds to s and
  the Kelvin sign (bytes E2 84 AA) to k.\<close>

fun fold_bytes :: "string \<Rightarrow> string" where
  "fold_bytes [] = []"
| "fold_bytes (c # cs) =
     (if c = CHR 0xC5 \<and> take 1 cs = [CHR 0xBF] then CHR ''s'' # fold_bytes (drop 1 cs)
      else if c = CHR 0xE2 \<and> take 2 cs = [CHR 0x84, CHR 0xAA] then CHR ''k'' # fold_bytes (drop 2 cs)
      else byte_lower c # fold_bytes cs)"

definition equal_fold :: "string \<Rightarrow> string \<Rightarrow> bool" where
  "equal_fold s t = (fold_bytes s = fold_bytes t)"

definition isOwnAuthResults :: "string \<Rightarrow> string \<Rightarrow> bool" where
  "isOwnAuthResults authserv line =
     (length authResultsFieldName \<le> length line \<and>
      equal_fold (take (length authResultsFieldName) line) authResultsFieldName \<and>
      equal_fold (authservIDOf (dropWhile (\<lambda>c. c = CHR '' '' \<or> c = CHR 9) (drop (length authResultsFieldName) line)))
        authserv)"

definition isBlankLine :: "string \<Rightarrow> bool" where
  "isBlankLine l = (l = crlf \<or> l = [CHR 10])"

definition isFoldedContinuation :: "string \<Rightarrow> bool" where
  "isFoldedContinuation l = (l \<noteq> [] \<and> (hd l = CHR '' '' \<or> hd l = CHR 9))"

text \<open>\<open>ReadSlice\<close>: the next line with its end, the first bytes of a line longer than the buffer (marked as
  partial), or what is left.\<close>

definition read_slice :: "string \<Rightarrow> string \<times> bool \<times> string" where
  "read_slice s =
     (case CutByte (CHR 10) s of
        Some (l, rest) \<Rightarrow>
          (if length l < authResultsChunk then (l @ [CHR 10], False, rest)
           else (take authResultsChunk s, True, drop authResultsChunk s))
      | None \<Rightarrow>
          (if length s < authResultsChunk then (s, False, [])
           else (take authResultsChunk s, True, drop authResultsChunk s)))"

lemma read_slice_shorter: "s \<noteq> [] \<Longrightarrow> read_slice s = (chunk, partial, rest) \<Longrightarrow> length rest < length s"
  by (auto simp: read_slice_def authResultsChunk_def CutByte_Some_iff split: option.split_asm if_split_asm prod.split_asm)

text \<open>The filter over the header block: whether a line starts, and whether the current field is dropped.\<close>

function auth_filter :: "string \<Rightarrow> bool \<Rightarrow> bool \<Rightarrow> string \<Rightarrow> string" where
  "auth_filter authserv lineStart dropping s =
     (if s = [] then []
      else case read_slice s of (chunk, partial, rest) \<Rightarrow>
        (if lineStart \<and> isBlankLine chunk then chunk @ rest
         else let dropping' = (if lineStart \<and> \<not> isFoldedContinuation chunk then isOwnAuthResults authserv chunk
                               else dropping)
              in (if dropping' then [] else chunk) @ auth_filter authserv (\<not> partial) dropping' rest))"
  by pat_completeness auto
termination
  by (relation "measure (\<lambda>(a, l, d, s). length s)") (auto dest: read_slice_shorter[OF _ sym])

declare auth_filter.simps [simp del]

definition stripAuthResults :: "string \<Rightarrow> string \<Rightarrow> string" where
  "stripAuthResults msg authservID =
     (if authservID = [] then msg else auth_filter (ToLower authservID) True False msg)"

definition messageBody :: "string \<Rightarrow> string \<Rightarrow> string \<Rightarrow> string" where
  "messageBody hostname headers msg = withHeaders headers (stripAuthResults msg hostname)"

section \<open>Facts on the filter\<close>

text \<open>A message as header lines and the rest: one line at a time.\<close>

lemma read_slice_line:
  assumes "CHR 10 \<notin> set l" "length l < authResultsChunk"
  shows "read_slice (l @ CHR 10 # rest) = (l @ [CHR 10], False, rest)"
  using assms by (simp add: read_slice_def)

lemma auth_filter_line:
  assumes "CHR 10 \<notin> set l" "length l < authResultsChunk"
  shows "auth_filter a True d (l @ CHR 10 # rest) =
    (if isBlankLine (l @ [CHR 10]) then l @ CHR 10 # rest
     else let d' = (if isFoldedContinuation (l @ [CHR 10]) then d else isOwnAuthResults a (l @ [CHR 10]))
          in (if d' then [] else l @ [CHR 10]) @ auth_filter a True d' rest)"
  by (subst auth_filter.simps) (simp add: read_slice_line[OF assms] Let_def)

text \<open>A header field as its first line and its continuation lines, without their newlines.\<close>

definition field_ok :: "string \<times> string list \<Rightarrow> bool" where
  "field_ok f = (list_all (\<lambda>l. CHR 10 \<notin> set l \<and> length l < authResultsChunk) (fst f # snd f)
     \<and> fst f \<notin> {[], [CHR 13]} \<and> \<not> isFoldedContinuation (fst f) \<and> list_all isFoldedContinuation (snd f))"

definition render_field :: "string \<times> string list \<Rightarrow> string" where
  "render_field f = concat (map (\<lambda>l. l @ [CHR 10]) (fst f # snd f))"

lemma fold_bytes_Nil_iff [simp]: "fold_bytes s = [] \<longleftrightarrow> s = []" "[] = fold_bytes s \<longleftrightarrow> s = []"
  by (cases s; auto)+

lemma folded_app: "isFoldedContinuation l \<Longrightarrow> isFoldedContinuation (l @ m) \<and> \<not> isBlankLine (l @ m)"
  by (cases l) (auto simp: isFoldedContinuation_def isBlankLine_def crlf_def)

lemma auth_filter_conts:
  "list_all (\<lambda>l. CHR 10 \<notin> set l \<and> length l < authResultsChunk) ls \<Longrightarrow> list_all isFoldedContinuation ls \<Longrightarrow>
   auth_filter a True d (concat (map (\<lambda>l. l @ [CHR 10]) ls) @ rest) =
     (if d then [] else concat (map (\<lambda>l. l @ [CHR 10]) ls)) @ auth_filter a True d rest"
  by (induction ls) (auto simp: auth_filter_line folded_app Let_def)

lemma auth_filter_field:
  assumes "field_ok f"
  shows "auth_filter a True d (render_field f @ rest) =
    (let own = isOwnAuthResults a (fst f @ [CHR 10]) in (if own then [] else render_field f) @ auth_filter a True own rest)"
proof -
  obtain l ls where f: "f = (l, ls)" by (cases f)
  have l: "CHR 10 \<notin> set l" "length l < authResultsChunk" "\<not> isBlankLine (l @ [CHR 10])"
    "\<not> isFoldedContinuation (l @ [CHR 10])"
    using assms by (cases l; auto simp: f field_ok_def isBlankLine_def crlf_def isFoldedContinuation_def)+
  show ?thesis using assms l(3,4)
    by (simp add: f render_field_def field_ok_def auth_filter_line[OF l(1,2)] auth_filter_conts Let_def)
qed

lemma auth_filter_blank: "auth_filter a True d (crlf @ body) = crlf @ body"
  using auth_filter_line[of "[CHR 13]" a d body] by (simp add: crlf_def isBlankLine_def authResultsChunk_def)

lemma auth_filter_fields:
  "list_all field_ok fs \<Longrightarrow> auth_filter a True d (concat (map render_field fs) @ crlf @ body) =
     concat (map render_field (filter (\<lambda>f. \<not> isOwnAuthResults a (fst f @ [CHR 10])) fs)) @ crlf @ body"
  by (induction fs arbitrary: d) (simp_all add: auth_filter_blank auth_filter_field Let_def)

section \<open>Properties\<close>


definition demo_fields :: "(string \<times> string list) list" where
  "demo_fields = [(''Authentication-Results: MX.example; dkim=pass'' @ [CHR 13], ['' header.d=bank.example'' @ [CHR 13]]),
     (''Authentication-Results: other.example; spf=pass'' @ [CHR 13], [])]"


text \<open>A forged field that folds right after its name passes.  The filter looks for the identifier of the server on
  the first line of an authentication-results field only, so a sender who puts it on the next line, as
  folding allows, gets a field with the identifier of the server and any verdict into the stored message.\<close>

theorem folded_auth_results_survive:
  assumes "CHR 10 \<notin> set (host @ verdict)" "length (host @ verdict) < 8000"
  shows "stripAuthResults (''Authentication-Results:'' @ crlf @ '' '' @ host @ ''; '' @ verdict @ crlf @ crlf @ body) host =
    ''Authentication-Results:'' @ crlf @ '' '' @ host @ ''; '' @ verdict @ crlf @ crlf @ body"
proof (cases "host = []")
  case False
  let ?f = "(''Authentication-Results:'' @ [CHR 13], ['' '' @ host @ ''; '' @ verdict @ [CHR 13]])"
  have ok: "list_all field_ok [?f]"
    using assms by (simp add: field_ok_def authResultsChunk_def isFoldedContinuation_def)
  have "authservIDOf [CHR 13, CHR 10] = []" by (simp add: authservIDOf_def ends_token_def)
  then have "\<not> isOwnAuthResults (ToLower host) (fst ?f @ [CHR 10])"
    using False by (auto simp: isOwnAuthResults_def authResultsFieldName_def equal_fold_def ToLower_def)
  then show ?thesis using auth_filter_fields[OF ok, of "ToLower host" False body] False
    by (simp add: stripAuthResults_def render_field_def crlf_def)
qed (simp add: stripAuthResults_def)

theorem folded_auth_results_survive_witness:
  "stripAuthResults (''Authentication-Results:'' @ crlf @ '' '' @ ''mx.example'' @ ''; '' @ ''dkim=pass'' @ crlf @ crlf @ ''hi'')
     ''mx.example'' =
   ''Authentication-Results:'' @ crlf @ '' '' @ ''mx.example'' @ ''; '' @ ''dkim=pass'' @ crlf @ crlf @ ''hi''"
  by (rule folded_auth_results_survive) simp_all

end
