(* ===== verification/Smtp.thy ===== *)
theory Smtp
  imports SpamCheck SmtpHeaders Queue
begin

text \<open>The SMTP session (\<open>internal/smtpd/smtp\<close>: session.go, smdeliver.go, backend.go, ratelimit.go, spamtrap.go,
  msgid.go).  The handlers change the session and append to a trace, newest event first, of the calls that leave the process, each
  with its answer.  What answers them (the session manager, Redis, the clock, the random source) is a record of functions
  that also take the number of calls made so far, so that no answer is tied to an earlier one.  The SMTP library, which parses the
  commands and calls the handlers, is left open: a session is any sequence of handler calls.  Metrics and logging are left
  out.\<close>

section \<open>The session manager as the session sees it (smdeliver.go)\<close>

record LoginResult =
  lr_Token :: string
  lr_Mailbox :: string
  lr_Extension :: string
  lr_MaxSendsPerHour :: int

text \<open>The status codes of a failed login that the session tells apart.\<close>

datatype login_error = ResourceExhausted | Unauthenticated | OtherCode

record ValidateRecipientResult =
  DomainIsLocal :: bool
  UserExists :: bool
  DeferRejection :: bool

type_synonym SpamVerdict = "bool \<times> real \<times> (string \<times> string) list"

record DeliverMetadata =
  dm_Sender :: string
  dm_Recipient :: string
  dm_ClientIp :: string
  dm_ClientHostname :: string
  dm_ReceivedTime :: string
  dm_Forwarded :: bool
  dm_Msgid :: string
  dm_SpamVerdict :: "SpamVerdict option"

text \<open>The answer to a delivery; no answer when the stream fails.\<close>

datatype deliver_response =
    Delivered string
  | Rejected bool string
  | Redirected "string list" bool
  | UnknownResult int

datatype deliver_error = RedirectError "string list" bool | DeliveryError

definition spamVerdictProto :: "CheckResult option \<Rightarrow> SpamVerdict option" where
  "spamVerdictProto r = map_option (\<lambda>c. (IsSpam c, Score c, Headers c)) r"

datatype event =
    ELogin string string string "login_error + LoginResult"
  | EIncr string "int option"
  | EExpire string
  | EValidate string string "ValidateRecipientResult option"
  | EReport string string
  | EDeliver DeliverMetadata string "deliver_response option"
  | EEnqueue string "string list" string string "string option"
  | ELearn string string
  | ENotify string string

record world =
  w_login :: "nat \<Rightarrow> string \<Rightarrow> string \<Rightarrow> string \<Rightarrow> login_error + LoginResult"
  w_incr :: "nat \<Rightarrow> string \<Rightarrow> int option"
  w_validate :: "nat \<Rightarrow> string \<Rightarrow> string \<Rightarrow> ValidateRecipientResult option"
  w_deliver :: "nat \<Rightarrow> DeliverMetadata \<Rightarrow> string \<Rightarrow> deliver_response option"
  w_enqueue :: "nat \<Rightarrow> string \<Rightarrow> string list \<Rightarrow> string \<Rightarrow> string \<Rightarrow> string option"
  w_now :: "nat \<Rightarrow> int"
  w_date :: "nat \<Rightarrow> string"
  w_rfc3339 :: "nat \<Rightarrow> string"
  w_rand :: "nat \<Rightarrow> string option"
  w_header_from :: "string \<Rightarrow> string option"
  w_address_list :: "string \<Rightarrow> string list option"

section \<open>State\<close>

record SpamCheckerConfig =
  ck_Type :: string
  ck_Enabled :: "bool option"
  ck_URL :: string

record SpamCheckConfig =
  sc_Enabled :: bool
  sc_Checkers :: "SpamCheckerConfig list"
  sc_Mode :: string
  sc_FailMode :: string
  sc_RejectThreshold :: real
  sc_TempFailThreshold :: real
  sc_AddHeaders :: bool

definition checker_IsEnabled :: "SpamCheckerConfig \<Rightarrow> bool" where
  "checker_IsEnabled c = (case ck_Enabled c of None \<Rightarrow> True | Some b \<Rightarrow> b)"

definition IsEnabled :: "SpamCheckConfig \<Rightarrow> bool" where
  "IsEnabled c = (sc_Enabled c \<and> list_ex checker_IsEnabled (sc_Checkers c))"

record CheckOptions =
  co_From :: string
  co_Recipients :: "string list"
  co_IP :: string
  co_Helo :: string
  co_Hostname :: string
  co_User :: string

text \<open>The checkers of the configuration; the client of a checker is a function of its address, the options and the
  message.\<close>

type_synonym spam_client = "string \<Rightarrow> CheckOptions \<Rightarrow> string \<Rightarrow> CheckResult option"

definition no_spam_config :: SpamCheckConfig where
  "no_spam_config = \<lparr>sc_Enabled = False, sc_Checkers = [], sc_Mode = [], sc_FailMode = [], sc_RejectThreshold = 0,
     sc_TempFailThreshold = 0, sc_AddHeaders = False\<rparr>"

definition createCheckersFromConfig :: "spam_client \<Rightarrow> SpamCheckConfig \<Rightarrow> (CheckOptions \<Rightarrow> string \<Rightarrow> CheckResult option) list" where
  "createCheckersFromConfig client cfg =
     map (\<lambda>c. client (ck_URL c)) (filter (\<lambda>c. checker_IsEnabled c \<and> ck_Type c = ''rspamd'') (sc_Checkers cfg))"

definition createSpamChecker :: "spam_client \<Rightarrow> SpamCheckConfig \<Rightarrow> (CheckOptions \<Rightarrow> checker) option \<times> SpamCheckConfig" where
  "createSpamChecker client cfg =
     (if \<not> IsEnabled cfg then (None, no_spam_config)
      else case createCheckersFromConfig client cfg of
        [] \<Rightarrow> (None, no_spam_config)
      | [c] \<Rightarrow> (Some (\<lambda>opts. Single (c opts)), cfg)
      | cs \<Rightarrow> (Some (\<lambda>opts. Multi \<lparr>mc_Mode = sc_Mode cfg, mc_RejectThreshold = sc_RejectThreshold cfg,
                  mc_TempFailThreshold = sc_TempFailThreshold cfg\<rparr> (map (\<lambda>c. c opts) cs)), cfg))"

record Backend =
  b_hostname :: string
  b_smDelivery :: bool
  b_spamChecker :: "(CheckOptions \<Rightarrow> checker) option"
  b_spamConfig :: SpamCheckConfig
  b_spamtrapLearner :: bool
  b_spamtrapMaxRate :: int
  b_senderRateLimiter :: bool
  b_maxSendsPerHour :: int
  b_notifier :: bool

record SpamtrapConfig =
  st_Enabled :: bool
  st_ControllerURL :: string
  st_MaxLearnsPerIPPerHour :: int

definition GetMaxLearnsPerIPPerHour :: "SpamtrapConfig \<Rightarrow> int" where
  "GetMaxLearnsPerIPPerHour c = (if st_MaxLearnsPerIPPerHour c \<le> 0 then 10 else st_MaxLearnsPerIPPerHour c)"

definition NewBackend ::
  "string \<Rightarrow> bool \<Rightarrow> (CheckOptions \<Rightarrow> checker) option \<Rightarrow> SpamCheckConfig \<Rightarrow> SpamtrapConfig \<Rightarrow> int \<Rightarrow> bool \<Rightarrow> bool \<Rightarrow> Backend" where
  "NewBackend hostname sm checker spam trap maxSends redis notifier =
     \<lparr>b_hostname = hostname, b_smDelivery = sm, b_spamChecker = checker, b_spamConfig = spam,
      b_spamtrapLearner = (st_Enabled trap \<and> st_ControllerURL trap \<noteq> []),
      b_spamtrapMaxRate = GetMaxLearnsPerIPPerHour trap,
      b_senderRateLimiter = redis, b_maxSendsPerHour = maxSends, b_notifier = notifier\<rparr>"

text \<open>The TLS state of the connection is the names of its version and cipher.\<close>

record Session =
  s_clientIP :: string
  s_clientHostname :: string
  s_helo :: string
  s_tls :: "(string \<times> string) option"
  s_from :: string
  s_mailFromSeen :: bool
  s_recipients :: "string list"
  s_remoteRecipients :: "string list"
  s_authUser :: string
  s_loginResult :: "LoginResult option"
  s_deferredInvalidRecipient :: string

text \<open>The reverse lookup of the address of the client may fail; one trailing dot of the first name is dropped.\<close>

definition reverseDNS :: "(string \<Rightarrow> string list option) \<Rightarrow> string \<Rightarrow> string" where
  "reverseDNS lookup ip =
     (if ip = [] then [] else case lookup ip of
        Some (name # names) \<Rightarrow> TrimSuffix name ''.''
      | _ \<Rightarrow> [])"

definition smtp_NewSession :: "(string \<Rightarrow> string list option) \<Rightarrow> string \<Rightarrow> (string \<times> string) option \<Rightarrow> Session" where
  "smtp_NewSession lookup ip tls =
     \<lparr>s_clientIP = ip, s_clientHostname = reverseDNS lookup ip, s_helo = [], s_tls = tls, s_from = [],
      s_mailFromSeen = False, s_recipients = [], s_remoteRecipients = [], s_authUser = [], s_loginResult = None,
      s_deferredInvalidRecipient = []\<rparr>"

text \<open>A bucket: the count and the time after which it starts anew.\<close>

type_synonym rateBuckets = "string \<Rightarrow> (int \<times> int) option"

record smtp =
  sess :: Session
  trace :: "event list"
  learns :: rateBuckets

datatype reply =
    Accepted
  | SMTPError nat "nat \<times> nat \<times> nat" string
  | ErrAuthUnsupported
  | ErrAuthUnknownMechanism

definition tick :: "smtp \<Rightarrow> nat" where
  "tick st = length (trace st)"

definition logged :: "event \<Rightarrow> smtp \<Rightarrow> smtp" where
  "logged e st = st\<lparr>trace := e # trace st\<rparr>"

definition with_sess :: "(Session \<Rightarrow> Session) \<Rightarrow> smtp \<Rightarrow> smtp" where
  "with_sess f st = st\<lparr>sess := f (sess st)\<rparr>"

section \<open>Calls that leave the process\<close>

definition Login :: "world \<Rightarrow> string \<Rightarrow> string \<Rightarrow> string \<Rightarrow> smtp \<Rightarrow> (login_error + LoginResult) \<times> smtp" where
  "Login w user pass ip st = (let r = w_login w (tick st) user pass ip in (r, logged (ELogin user pass ip r) st))"

definition ValidateRecipient :: "world \<Rightarrow> string \<Rightarrow> string \<Rightarrow> smtp \<Rightarrow> ValidateRecipientResult option \<times> smtp" where
  "ValidateRecipient w addr ip st =
     (let r = w_validate w (tick st) addr ip in (r, logged (EValidate addr ip r) st))"

definition ReportPeer :: "string \<Rightarrow> string \<Rightarrow> smtp \<Rightarrow> smtp" where
  "ReportPeer ip signal st = (if ip = [] \<or> signal = [] then st else logged (EReport ip signal) st)"

definition Deliver :: "world \<Rightarrow> string \<Rightarrow> string \<Rightarrow> string \<Rightarrow> string \<Rightarrow> bool \<Rightarrow> string \<Rightarrow> CheckResult option \<Rightarrow> string \<Rightarrow> smtp
    \<Rightarrow> (deliver_error + string) \<times> smtp" where
  "Deliver w sender recipient ip clientHostname forwarded msgid verdict message st =
     (let meta = \<lparr>dm_Sender = sender, dm_Recipient = recipient, dm_ClientIp = ip, dm_ClientHostname = clientHostname,
                  dm_ReceivedTime = w_rfc3339 w (tick st), dm_Forwarded = forwarded, dm_Msgid = msgid,
                  dm_SpamVerdict = spamVerdictProto verdict\<rparr>;
          r = w_deliver w (tick st) meta message
      in (case r of
            Some (Delivered folder) \<Rightarrow> Inr folder
          | Some (Redirected addrs temp) \<Rightarrow> Inl (RedirectError addrs temp)
          | _ \<Rightarrow> Inl DeliveryError,
          logged (EDeliver meta message r) st))"

definition Enqueue :: "world \<Rightarrow> string \<Rightarrow> string list \<Rightarrow> string \<Rightarrow> string \<Rightarrow> smtp \<Rightarrow> string option \<times> smtp" where
  "Enqueue w sender rcpts msgid message st =
     (let r = w_enqueue w (tick st) sender rcpts msgid message
      in (r, logged (EEnqueue sender rcpts msgid message r) st))"

definition NotifyNewMail :: "Backend \<Rightarrow> string \<Rightarrow> string \<Rightarrow> smtp \<Rightarrow> smtp" where
  "NotifyNewMail b rcpt folder st = (if b_notifier b then logged (ENotify rcpt folder) st else st)"

text \<open>The Redis limiter: it lets the request pass when Redis fails.\<close>

definition sender_allow :: "world \<Rightarrow> string \<Rightarrow> int \<Rightarrow> smtp \<Rightarrow> bool \<times> smtp" where
  "sender_allow w key maxRate st =
     (let k = ''smtpd:sendrate:'' @ key;
          r = w_incr w (tick st) k;
          st' = logged (EIncr k r) st
      in case r of
           None \<Rightarrow> (True, st')
         | Some count \<Rightarrow> (count \<le> maxRate, if count = 1 then logged (EExpire k) st' else st'))"

text \<open>The limiter of spam training, with times in nanoseconds.\<close>

definition hour :: int where
  "hour = 3600 * 1000000000"

definition ip_allow :: "int \<Rightarrow> int \<Rightarrow> string \<Rightarrow> rateBuckets \<Rightarrow> bool \<times> rateBuckets" where
  "ip_allow maxRate now ip counts = (case counts ip of
       None \<Rightarrow> (True, counts(ip \<mapsto> (1, now + hour)))
     | Some (count, resetAt) \<Rightarrow>
         (if now > resetAt then (True, counts(ip \<mapsto> (1, now + hour)))
          else if count \<ge> maxRate then (False, counts)
          else (True, counts(ip \<mapsto> (count + 1, resetAt)))))"

definition ip_cleanup :: "int \<Rightarrow> rateBuckets \<Rightarrow> rateBuckets" where
  "ip_cleanup now counts = (\<lambda>ip. case counts ip of
       None \<Rightarrow> None
     | Some (count, resetAt) \<Rightarrow> if now > resetAt then None else Some (count, resetAt))"

text \<open>The correlation id: 16 random bytes in hexadecimal.\<close>

definition smtp_newMsgID :: "world \<Rightarrow> smtp \<Rightarrow> string option" where
  "smtp_newMsgID w st = map_option hex_encode (w_rand w (tick st))"

section \<open>Authentication\<close>

definition sessionIsLocalhost :: "string \<Rightarrow> bool" where
  "sessionIsLocalhost ip = (ip = ''127.0.0.1'' \<or> ip = ''::1'' \<or> length ip > 4 \<and> take 4 ip = ''127.'' \<or> ip = ''localhost'')"

definition AuthMechanisms :: "Backend \<Rightarrow> Session \<Rightarrow> string list" where
  "AuthMechanisms b s =
     (if s_tls s = None \<and> \<not> sessionIsLocalhost (s_clientIP s) then []
      else if b_smDelivery b then [''PLAIN''] else [])"

definition smtp_auth_error :: "login_error \<Rightarrow> reply" where
  "smtp_auth_error e = (case e of
       ResourceExhausted \<Rightarrow> SMTPError 421 (4, 7, 0) ''Too many failed authentication attempts, try again later''
     | Unauthenticated \<Rightarrow> SMTPError 535 (5, 7, 8) ''Authentication credentials invalid''
     | OtherCode \<Rightarrow> SMTPError 454 (4, 7, 0) ''Temporary authentication failure'')"

definition Auth :: "Backend \<Rightarrow> world \<Rightarrow> string \<Rightarrow> string \<Rightarrow> string \<Rightarrow> smtp \<Rightarrow> reply \<times> smtp" where
  "Auth b w mech username password st =
     (if mech = ''PLAIN'' then
        (if \<not> b_smDelivery b then (ErrAuthUnsupported, st)
         else case Login w username password (s_clientIP (sess st)) st of
           (Inl e, st') \<Rightarrow> (smtp_auth_error e, st')
         | (Inr res, st') \<Rightarrow>
             (Accepted, with_sess (\<lambda>s. s\<lparr>s_authUser := lr_Mailbox res, s_loginResult := Some res\<rparr>) st'))
      else (ErrAuthUnknownMechanism, st))"

section \<open>MAIL and RCPT\<close>

definition norm_sender :: "string \<Rightarrow> string" where
  "norm_sender a = ToLower (strip_angle a)"

definition max_rate :: "Backend \<Rightarrow> Session \<Rightarrow> int" where
  "max_rate b s = (case s_loginResult s of
       Some res \<Rightarrow> if lr_MaxSendsPerHour res > 0 then lr_MaxSendsPerHour res else b_maxSendsPerHour b
     | None \<Rightarrow> b_maxSendsPerHour b)"

definition rate_check :: "Backend \<Rightarrow> world \<Rightarrow> smtp \<Rightarrow> bool \<times> smtp" where
  "rate_check b w st =
     (let s = sess st in
      if s_authUser s \<noteq> [] \<and> b_senderRateLimiter b \<and> max_rate b s > 0
      then sender_allow w (s_authUser s) (max_rate b s) st else (True, st))"

definition Mail :: "Backend \<Rightarrow> world \<Rightarrow> string \<Rightarrow> smtp \<Rightarrow> reply \<times> smtp" where
  "Mail b w from_addr st =
     (case rate_check b w st of (allowed, st') \<Rightarrow>
        if \<not> allowed then (SMTPError 452 (4, 7, 1) ''Too many messages, try again later'', st')
        else if s_authUser (sess st') \<noteq> [] \<and> from_addr \<noteq> [] \<and> norm_sender from_addr \<noteq> ToLower (s_authUser (sess st'))
        then (SMTPError 553 (5, 7, 1) ''Sender address not authorized for this account'', st')
        else (Accepted, with_sess (\<lambda>s. s\<lparr>s_from := from_addr, s_mailFromSeen := True\<rparr>) st'))"

definition smtp_extractDomain :: "string \<Rightarrow> string" where
  "smtp_extractDomain email = (case CutLastByte (CHR ''@'') (strip_angle email) of
       None \<Rightarrow> []
     | Some (l, d) \<Rightarrow> ToLower d)"

definition has_recipient :: "Session \<Rightarrow> bool" where
  "has_recipient s = (length (s_recipients s) + length (s_remoteRecipients s) > 0 \<or> s_deferredInvalidRecipient s \<noteq> [])"

definition rcpt_validated :: "string \<Rightarrow> ValidateRecipientResult \<Rightarrow> smtp \<Rightarrow> reply \<times> smtp" where
  "rcpt_validated addr vr st =
     (if \<not> DomainIsLocal vr then
        (if s_authUser (sess st) = [] then
           (SMTPError 550 (5, 7, 1) ''Relay denied'', ReportPeer (s_clientIP (sess st)) ''relay_denied'' st)
         else (Accepted, with_sess (\<lambda>s. s\<lparr>s_remoteRecipients := s_remoteRecipients s @ [addr]\<rparr>) st))
      else if \<not> UserExists vr then
        (if DeferRejection vr then (Accepted, with_sess (\<lambda>s. s\<lparr>s_deferredInvalidRecipient := addr\<rparr>) st)
         else (SMTPError 550 (5, 1, 1) ''User unknown'', st))
      else (Accepted, with_sess (\<lambda>s. s\<lparr>s_recipients := s_recipients s @ [addr]\<rparr>) st))"

definition Rcpt :: "Backend \<Rightarrow> world \<Rightarrow> string \<Rightarrow> smtp \<Rightarrow> reply \<times> smtp" where
  "Rcpt b w addr st =
     (if has_recipient (sess st) then (SMTPError 452 (4, 5, 3) ''One recipient at a time'', st)
      else if smtp_extractDomain addr = [] then (SMTPError 550 (5, 1, 2) ''Invalid address format'', st)
      else if b_smDelivery b then
        (case ValidateRecipient w addr (s_clientIP (sess st)) st of
           (None, st') \<Rightarrow> (SMTPError 451 (4, 3, 0) ''Temporary lookup failure'', st')
         | (Some vr, st') \<Rightarrow> rcpt_validated addr vr st')
      else (Accepted, with_sess (\<lambda>s. s\<lparr>s_recipients := s_recipients s @ [addr]\<rparr>) st))"

section \<open>DATA\<close>

text \<open>Reading a message and parsing its From header are those of the mail library.\<close>

definition checkFromAlignment :: "world \<Rightarrow> string \<Rightarrow> Session \<Rightarrow> reply option" where
  "checkFromAlignment w msg s = (case w_header_from w msg of
       None \<Rightarrow> Some (SMTPError 550 (5, 6, 0) ''Message headers could not be parsed'')
     | Some fromHeader \<Rightarrow>
         (if fromHeader = [] then Some (SMTPError 550 (5, 6, 0) ''Message must contain a From header'')
          else case w_address_list w fromHeader of
            Some [addr] \<Rightarrow>
              (if ToLower addr \<noteq> norm_sender (s_from s)
               then Some (SMTPError 550 (5, 7, 1) ''From header must match the authenticated sender address'') else None)
          | Some (a # a' # as) \<Rightarrow> Some (SMTPError 550 (5, 6, 0) ''Message must have exactly one From address'')
          | _ \<Rightarrow> Some (SMTPError 550 (5, 6, 0) ''From header address is invalid'')))"

definition data_guard :: "Backend \<Rightarrow> Session \<Rightarrow> reply option" where
  "data_guard b s =
     (if \<not> s_mailFromSeen s then Some (SMTPError 503 (5, 5, 1) ''Bad sequence of commands: MAIL FROM required'')
      else if \<not> has_recipient s then Some (SMTPError 503 (5, 5, 1) ''Bad sequence of commands: RCPT TO required'')
      else if s_recipients s \<noteq> [] \<and> \<not> b_smDelivery b then Some (SMTPError 451 (4, 3, 0) ''Delivery not configured'')
      else if s_recipients s = [] \<and> s_remoteRecipients s \<noteq> [] \<and> \<not> b_smDelivery b
      then Some (SMTPError 451 (4, 3, 0) ''Remote delivery not available, try again later'')
      else None)"

text \<open>Reading and checking the message: the bytes in the buffer, and an error or the verdict if there is one.\<close>

definition spam_decision :: "SpamCheckConfig \<Rightarrow> CheckResult option \<Rightarrow> reply + CheckResult option" where
  "spam_decision cfg res = (case res of
       None \<Rightarrow> (case GetFailMode (sc_FailMode cfg) of
           FailReject \<Rightarrow> Inl (SMTPError 550 (5, 7, 1) ''Spam check failed'')
         | FailTempFail \<Rightarrow> Inl (SMTPError 451 (4, 7, 1) ''Temporary spam check failure, try again later'')
         | FailOpen \<Rightarrow> Inr None)
     | Some r \<Rightarrow>
         (if ShouldReject (sc_RejectThreshold cfg) r then Inl (SMTPError 550 (5, 7, 1) ''Message rejected'')
          else if sc_TempFailThreshold cfg > 0 \<and> ShouldTempFail (sc_TempFailThreshold cfg) r
          then Inl (SMTPError 451 (4, 7, 1) ''Message deferred, please try again later'')
          else Inr (Some r)))"

definition check_options :: "Backend \<Rightarrow> Session \<Rightarrow> CheckOptions" where
  "check_options b s = \<lparr>co_From = s_from s, co_Recipients = s_recipients s, co_IP = s_clientIP s, co_Helo = s_helo s,
     co_Hostname = b_hostname b, co_User = s_authUser s\<rparr>"

definition read_and_check :: "Backend \<Rightarrow> Session \<Rightarrow> data_stream \<Rightarrow> string \<times> (reply + CheckResult option)" where
  "read_and_check b s d = (case b_spamChecker b of
       Some chk \<Rightarrow>
         (if IsEnabled (b_spamConfig b)
          then (case Check (chk (check_options b s)) d of (buf, res) \<Rightarrow> (buf, spam_decision (b_spamConfig b) res))
          else (d_bytes d, if d_failed d then Inl (SMTPError 451 (4, 3, 0) ''Error reading message'') else Inr None))
     | None \<Rightarrow> (d_bytes d, if d_failed d then Inl (SMTPError 451 (4, 3, 0) ''Error reading message'') else Inr None))"

definition deferred_reject :: "Backend \<Rightarrow> world \<Rightarrow> CheckResult option \<Rightarrow> string \<Rightarrow> smtp \<Rightarrow> smtp" where
  "deferred_reject b w res buf st =
     (let s = sess st;
          rejected = (case res of None \<Rightarrow> False | Some r \<Rightarrow> ShouldReject (sc_RejectThreshold (b_spamConfig b)) r)
      in if b_spamtrapLearner b \<and> \<not> rejected then
           (case ip_allow (b_spamtrapMaxRate b) (w_now w (tick st)) (s_clientIP s) (learns st) of (ok, counts) \<Rightarrow>
              (if ok then logged (ELearn (s_deferredInvalidRecipient s) buf) else (\<lambda>x. x)) (st\<lparr>learns := counts\<rparr>))
         else st)"

definition for_rcpt :: "Session \<Rightarrow> string" where
  "for_rcpt s = (case (s_recipients s, s_remoteRecipients s) of ([r], []) \<Rightarrow> r | ([], [r]) \<Rightarrow> r | _ \<Rightarrow> [])"

definition ingress_header :: "Backend \<Rightarrow> Session \<Rightarrow> string \<Rightarrow> string \<Rightarrow> string" where
  "ingress_header b s msgid date = buildReceivedHeader
     \<lparr>ri_Helo = s_helo s, ri_ClientHostname = s_clientHostname s, ri_ClientIP = s_clientIP s, ri_Hostname = b_hostname b,
      ri_Proto = receivedProto (s_tls s \<noteq> None) (s_authUser s \<noteq> []), ri_TLSComment = tlsComment (s_tls s),
      ri_MsgID = msgid, ri_ForRcpt = for_rcpt s\<rparr> date"

text \<open>The targets of a forward, one after the other; the first failure ends it.\<close>

fun forward_targets :: "Backend \<Rightarrow> world \<Rightarrow> string \<Rightarrow> string \<Rightarrow> string \<Rightarrow> CheckResult option \<Rightarrow> string \<Rightarrow> string list \<Rightarrow> smtp
    \<Rightarrow> bool \<times> smtp" where
  "forward_targets b w msgid hdrs authResults res buf [] st = (True, st)"
| "forward_targets b w msgid hdrs authResults res buf (target # targets) st =
     (let s = sess st in
      case ValidateRecipient w target (s_clientIP s) st of
        (None, st1) \<Rightarrow> (False, st1)
      | (Some vr, st1) \<Rightarrow>
          (if \<not> DomainIsLocal vr then
             (case Enqueue w (s_from s) [target] msgid (messageBody (b_hostname b) hdrs buf) st1 of
                (None, st2) \<Rightarrow> (False, st2)
              | (Some i, st2) \<Rightarrow> forward_targets b w msgid hdrs authResults res buf targets st2)
           else
             (case Deliver w (s_from s) target (s_clientIP s) (s_helo s) True msgid res
                     (messageBody (b_hostname b) (hdrs @ authResults) buf) st1 of
                (Inl e, st2) \<Rightarrow> (False, st2)
              | (Inr folder, st2) \<Rightarrow>
                  forward_targets b w msgid hdrs authResults res buf targets (NotifyNewMail b target ''INBOX'' st2))))"

definition followRedirect :: "Backend \<Rightarrow> world \<Rightarrow> string list \<Rightarrow> string \<Rightarrow> string \<Rightarrow> string \<Rightarrow> string \<Rightarrow> CheckResult option \<Rightarrow> smtp
    \<Rightarrow> bool \<times> smtp" where
  "followRedirect b w addrs buf msgid received authResults res st =
     (if addrs = [] then (False, st)
      else forward_targets b w msgid
             (buildForwardReceivedHeader (b_hostname b) (hd (s_recipients (sess st))) msgid (w_date w (tick st)) @ received)
             authResults res buf addrs st)"

definition local_delivery :: "Backend \<Rightarrow> world \<Rightarrow> string \<Rightarrow> string \<Rightarrow> string \<Rightarrow> string \<Rightarrow> CheckResult option \<Rightarrow> string \<Rightarrow> smtp
    \<Rightarrow> bool \<times> smtp" where
  "local_delivery b w msgid received authResults spamHeaders res buf st =
     (let s = sess st in
      case Deliver w (s_from s) (hd (s_recipients s)) (s_clientIP s) (s_helo s) False msgid res
             (messageBody (b_hostname b) (received @ authResults @ spamHeaders) buf) st of
        (Inr folder, st1) \<Rightarrow>
          (True, fold (\<lambda>rcpt. NotifyNewMail b rcpt (if folder = [] then ''INBOX'' else folder)) (s_recipients s) st1)
      | (Inl (RedirectError addrs temp), st1) \<Rightarrow> followRedirect b w addrs buf msgid received authResults res st1
      | (Inl DeliveryError, st1) \<Rightarrow> (False, st1))"

definition queue_failure :: reply where
  "queue_failure = SMTPError 451 (4, 3, 0) ''Temporary queue failure, try again later''"

definition remote_delivery :: "Backend \<Rightarrow> world \<Rightarrow> string \<Rightarrow> string \<Rightarrow> string \<Rightarrow> smtp \<Rightarrow> reply \<times> smtp" where
  "remote_delivery b w msgid received buf st =
     (let s = sess st in
      if s_remoteRecipients s = [] then (Accepted, st)
      else case (if s_authUser s \<noteq> [] \<and> s_from s \<noteq> [] then checkFromAlignment w buf s else None) of
        Some e \<Rightarrow> (e, st)
      | None \<Rightarrow>
          (if \<not> b_smDelivery b then (queue_failure, st)
           else case Enqueue w (s_from s) (s_remoteRecipients s) msgid (messageBody (b_hostname b) received buf) st of
             (None, st1) \<Rightarrow> (queue_failure, st1)
           | (Some i, st1) \<Rightarrow> (Accepted, st1)))"

definition hand_over :: "Backend \<Rightarrow> world \<Rightarrow> CheckResult option \<Rightarrow> string \<Rightarrow> smtp \<Rightarrow> reply \<times> smtp" where
  "hand_over b w res buf st = (case smtp_newMsgID w st of
       None \<Rightarrow> (SMTPError 451 (4, 3, 0) ''Temporary failure, try again later'', st)
     | Some msgid \<Rightarrow>
         (let received = ingress_header b (sess st) msgid (w_date w (tick st));
              authResults = (case res of None \<Rightarrow> [] | Some r \<Rightarrow> buildAuthResultsHeader (AuthResults r));
              spamHeaders = (case res of None \<Rightarrow> [] | Some r \<Rightarrow>
                if sc_AddHeaders (b_spamConfig b) then buildSpamHeaders (Headers r) else [])
          in if s_recipients (sess st) \<noteq> [] then
               (case local_delivery b w msgid received authResults spamHeaders res buf st of
                  (False, st1) \<Rightarrow> (SMTPError 451 (4, 3, 0) ''Delivery failed'', st1)
                | (True, st1) \<Rightarrow> remote_delivery b w msgid received buf st1)
             else remote_delivery b w msgid received buf st))"

definition Data :: "Backend \<Rightarrow> world \<Rightarrow> data_stream \<Rightarrow> smtp \<Rightarrow> reply \<times> smtp" where
  "Data b w d st = (case data_guard b (sess st) of
       Some e \<Rightarrow> (e, st)
     | None \<Rightarrow> (case read_and_check b (sess st) d of
           (buf, Inl e) \<Rightarrow> (e, st)
         | (buf, Inr res) \<Rightarrow>
             (if s_deferredInvalidRecipient (sess st) \<noteq> []
              then (SMTPError 550 (5, 1, 1) ''User unknown'', deferred_reject b w res buf st)
              else hand_over b w res buf st)))"

definition Reset :: "smtp \<Rightarrow> smtp" where
  "Reset st = with_sess (\<lambda>s. s\<lparr>s_from := [], s_mailFromSeen := False, s_recipients := [], s_remoteRecipients := [],
     s_deferredInvalidRecipient := []\<rparr>) st"

section \<open>A session\<close>

datatype smtp_cmd =
    CAuth string string string
  | CMail string
  | CRcpt string
  | CData data_stream
  | CReset

fun smtp_step :: "Backend \<Rightarrow> world \<Rightarrow> smtp_cmd \<Rightarrow> smtp \<Rightarrow> reply \<times> smtp" where
  "smtp_step b w (CAuth mech user pass) st = Auth b w mech user pass st"
| "smtp_step b w (CMail a) st = Mail b w a st"
| "smtp_step b w (CRcpt a) st = Rcpt b w a st"
| "smtp_step b w (CData d) st = Data b w d st"
| "smtp_step b w CReset st = (Accepted, Reset st)"

definition smtp_run :: "Backend \<Rightarrow> world \<Rightarrow> smtp_cmd list \<Rightarrow> smtp \<Rightarrow> smtp" where
  "smtp_run b w cs st = fold (\<lambda>c st. snd (smtp_step b w c st)) cs st"

definition smtp_start :: "Session \<Rightarrow> smtp" where
  "smtp_start s = \<lparr>sess = s, trace = [], learns = Map.empty\<rparr>"

end
