(* ===== verification/SmtpProps.thy ===== *)
theory SmtpProps
  imports Smtp
begin

text \<open>Properties of SMTP sessions: what may leave the process, and what an accepted message means.  A policy judges an event of
  the trace by the events before it; the locale \<open>trace_policy\<close> shows once that every handler keeps a policy that lets
  forwards pass, given what the two direct paths of DATA need.\<close>

section \<open>Policies on traces\<close>

fun log_all :: "(event list \<Rightarrow> event \<Rightarrow> bool) \<Rightarrow> event list \<Rightarrow> bool" where
  "log_all P [] = True"
| "log_all P (e # past) = (P past e \<and> log_all P past)"

lemma log_all_mid: "log_all P (later @ e # past) \<Longrightarrow> P past e"
  by (induction later) auto

definition logged_in :: "event list \<Rightarrow> bool" where
  "logged_in past = list_ex (\<lambda>e. case e of ELogin u p i (Inr res) \<Rightarrow> lr_Mailbox res \<noteq> [] | _ \<Rightarrow> False) past"

definition found_remote :: "string \<Rightarrow> event list \<Rightarrow> bool" where
  "found_remote a past = list_ex (\<lambda>e. case e of EValidate a' i (Some vr) \<Rightarrow> a' = a \<and> \<not> DomainIsLocal vr | _ \<Rightarrow> False) past"

definition found_local :: "string \<Rightarrow> event list \<Rightarrow> bool" where
  "found_local a past = list_ex (\<lambda>e. case e of EValidate a' i (Some vr) \<Rightarrow> a' = a \<and> DomainIsLocal vr \<and> UserExists vr
     | _ \<Rightarrow> False) past"

text \<open>The session manager has answered a direct delivery with a redirect to the address.\<close>

definition forward_of :: "string \<Rightarrow> event list \<Rightarrow> bool" where
  "forward_of a past = list_ex (\<lambda>e. case e of
     EDeliver meta m (Some (Redirected addrs t)) \<Rightarrow> \<not> dm_Forwarded meta \<and> a \<in> set addrs | _ \<Rightarrow> False) past"

lemmas past_defs = logged_in_def found_remote_def found_local_def forward_of_def

lemma past_mono [simp]:
  "logged_in past \<Longrightarrow> logged_in (e # past)"
  "found_remote a past \<Longrightarrow> found_remote a (e # past)"
  "found_local a past \<Longrightarrow> found_local a (e # past)"
  "forward_of a past \<Longrightarrow> forward_of a (e # past)"
  by (simp_all add: past_defs)

definition hands_over :: "event \<Rightarrow> bool" where
  "hands_over e = (case e of EDeliver meta m r \<Rightarrow> True | EEnqueue s rs i m r \<Rightarrow> True | _ \<Rightarrow> False)"

lemma hands_over_simps [simp]:
  "\<not> hands_over (ELogin u p i l)" "\<not> hands_over (EIncr k c)" "\<not> hands_over (EExpire k)"
  "\<not> hands_over (EValidate a i v)" "\<not> hands_over (EReport i sig)" "\<not> hands_over (ELearn a m)"
  "\<not> hands_over (ENotify a f)" "hands_over (EDeliver meta m r)" "hands_over (EEnqueue s rs j m r')"
  by (simp_all add: hands_over_def)

lemmas call_defs = Login_def ValidateRecipient_def ReportPeer_def Deliver_def Enqueue_def NotifyNewMail_def
  logged_def Let_def

lemma trace_simps [simp]:
  "trace (logged e st) = e # trace st" "trace (with_sess f st) = trace st" "trace (Reset st) = trace st"
  "sess (logged e st) = sess st" "sess (with_sess f st) = f (sess st)"
  by (simp_all add: logged_def with_sess_def Reset_def)

lemma NotifyNewMail_sess [simp]: "sess (NotifyNewMail b a f st) = sess st"
  by (simp add: NotifyNewMail_def)

lemma fold_notify_sess [simp]: "sess (fold (\<lambda>a. NotifyNewMail b a f) as st) = sess st"
  by (induction as arbitrary: st) auto

lemma forward_targets_sess [simp]: "sess (snd (forward_targets b w msgid hdrs ar res buf ts st)) = sess st"
  by (induction ts arbitrary: st)
    (auto simp: Let_def ValidateRecipient_def Enqueue_def Deliver_def split: option.split sum.split deliver_response.split)

lemma followRedirect_sess [simp]: "sess (snd (followRedirect b w addrs buf msgid received ar res st)) = sess st"
  by (simp add: followRedirect_def)

lemma local_delivery_sess [simp]: "sess (snd (local_delivery b w msgid rc ar sh res buf st)) = sess st"
  by (auto simp: local_delivery_def Let_def Deliver_def
      split: option.split sum.split deliver_response.split deliver_error.split)

lemma remote_delivery_sess [simp]: "sess (snd (remote_delivery b w msgid rc buf st)) = sess st"
  by (auto simp: remote_delivery_def Let_def Enqueue_def split: option.split)

lemma hand_over_sess [simp]: "sess (snd (hand_over b w res buf st)) = sess st"
proof (cases "smtp_newMsgID w st")
  case (Some msgid)
  have "sess (snd (case local_delivery b w msgid rc ar sh res buf st of (False, st1) \<Rightarrow> (e, st1)
      | (True, st1) \<Rightarrow> remote_delivery b w msgid rc buf st1)) = sess st" for rc ar sh e
  proof (cases "local_delivery b w msgid rc ar sh res buf st")
    case (Pair ok st1)
    then have "sess st1 = sess st" using local_delivery_sess[of b w msgid rc ar sh res buf st] by simp
    then show ?thesis by (cases ok) (simp_all add: Pair)
  qed
  then show ?thesis by (simp add: hand_over_def Some Let_def)
qed (simp add: hand_over_def)

lemma deferred_reject_sess [simp]: "sess (deferred_reject b w res buf st) = sess st"
  by (auto simp: deferred_reject_def Let_def split: prod.split)

lemma Data_sess [simp]: "sess (snd (Data b w d st)) = sess st"
  by (auto simp: Data_def split: option.split prod.split sum.split)

text \<open>A policy that ignores calls which hand no mail over, and allows what a redirect asks for.\<close>

locale trace_policy =
  fixes policy :: "event list \<Rightarrow> event \<Rightarrow> bool"
  assumes quiet: "\<not> hands_over e \<Longrightarrow> policy past e"
    and forward_out: "forward_of a past \<Longrightarrow> policy past (EEnqueue s [a] i m r)"
    and forward_in: "forward_of (dm_Recipient meta) past \<Longrightarrow> dm_Forwarded meta \<Longrightarrow> policy past (EDeliver meta m r')"
begin

lemma quiet_simps [simp]:
  "policy past (ELogin u p i l)" "policy past (EIncr k c)" "policy past (EExpire k)"
  "policy past (EValidate a i v)" "policy past (EReport i sig)" "policy past (ELearn a m)" "policy past (ENotify a f)"
  by (simp_all add: quiet)

lemma Auth_log: "log_all policy (trace st) \<Longrightarrow> log_all policy (trace (snd (Auth b w mech u p st)))"
  by (auto simp: Auth_def Login_def Let_def split: sum.split)

lemma rate_check_log: "log_all policy (trace st) \<Longrightarrow> log_all policy (trace (snd (rate_check b w st)))"
  by (auto simp: rate_check_def sender_allow_def Let_def split: option.split)

lemma Mail_log: "log_all policy (trace st) \<Longrightarrow> log_all policy (trace (snd (Mail b w a st)))"
  using rate_check_log[of st b w] by (auto simp: Mail_def split: prod.split)

lemma Rcpt_log: "log_all policy (trace st) \<Longrightarrow> log_all policy (trace (snd (Rcpt b w a st)))"
  by (auto simp: Rcpt_def rcpt_validated_def ValidateRecipient_def ReportPeer_def Let_def split: option.split)

lemma NotifyNewMail_log: "log_all policy (trace st) \<Longrightarrow> log_all policy (trace (NotifyNewMail b a f st))"
  by (simp add: NotifyNewMail_def)

lemma fold_notify_log:
  "log_all policy (trace st) \<Longrightarrow> log_all policy (trace (fold (\<lambda>a. NotifyNewMail b a f) as st))"
  by (induction as arbitrary: st) (auto simp: NotifyNewMail_log)

lemma forward_targets_log:
  "log_all policy (trace st) \<Longrightarrow> \<forall>a \<in> set ts. forward_of a (trace st) \<Longrightarrow>
   log_all policy (trace (snd (forward_targets b w msgid hdrs ar res buf ts st)))"
proof (induction ts arbitrary: st)
  case (Cons t ts)
  let ?v = "ValidateRecipient w t (s_clientIP (sess st)) st"
  obtain r st1 where v: "?v = (r, st1)" by (cases ?v)
  then have st1: "sess st1 = sess st" "trace st1 = EValidate t (s_clientIP (sess st)) r # trace st"
    by (auto simp: ValidateRecipient_def Let_def)
  have ok1: "log_all policy (trace st1)" and fw1: "\<forall>a \<in> set (t # ts). forward_of a (trace st1)"
    using Cons.prems by (simp_all add: st1(2))
  obtain x st2 where e: "Enqueue w (s_from (sess st)) [t] msgid (messageBody (b_hostname b) hdrs buf) st1 = (x, st2)"
    by fastforce
  have ok2: "log_all policy (trace st2)" "\<forall>a \<in> set ts. forward_of a (trace st2)"
    using e ok1 fw1 by (auto simp: Enqueue_def Let_def forward_out)
  obtain y st3 where d: "Deliver w (s_from (sess st)) t (s_clientIP (sess st)) (s_helo (sess st)) True msgid res
      (messageBody (b_hostname b) (hdrs @ ar) buf) st1 = (y, st3)"
    by fastforce
  have ok3: "log_all policy (trace st3)" "\<forall>a \<in> set ts. forward_of a (trace st3)"
    using d ok1 fw1 by (auto simp: Deliver_def Let_def forward_in)
  then have "log_all policy (trace (NotifyNewMail b t ''INBOX'' st3))"
      "\<forall>a \<in> set ts. forward_of a (trace (NotifyNewMail b t ''INBOX'' st3))"
    by (simp_all add: NotifyNewMail_def)
  then show ?case using ok1 ok2 ok3(1) Cons.IH
    by (simp add: v e d Let_def split: option.split sum.split)
qed simp

lemma local_delivery_log:
  assumes "log_all policy (trace st)"
    and direct: "\<And>meta m r. dm_Recipient meta = hd (s_recipients (sess st)) \<Longrightarrow> \<not> dm_Forwarded meta \<Longrightarrow>
      policy (trace st) (EDeliver meta m r)"
  shows "log_all policy (trace (snd (local_delivery b w msgid rc ar sh res buf st)))"
proof -
  let ?d = "Deliver w (s_from (sess st)) (hd (s_recipients (sess st))) (s_clientIP (sess st)) (s_helo (sess st)) False
    msgid res (messageBody (b_hostname b) (rc @ ar @ sh) buf) st"
  obtain x st1 where d: "?d = (x, st1)" by (cases ?d)
  have ok: "log_all policy (trace st1)"
    using d assms by (auto simp: Deliver_def Let_def)
  have fw: "\<forall>a \<in> set addrs. forward_of a (trace st1)" if "x = Inl (RedirectError addrs t)" for addrs t
    using d that by (auto simp: Deliver_def Let_def forward_of_def split: option.split_asm deliver_response.split_asm)
  show ?thesis using ok fw
    by (auto simp: local_delivery_def Let_def d fold_notify_log followRedirect_def
        intro!: forward_targets_log split: sum.split deliver_error.split)
qed

lemma remote_delivery_log:
  assumes "log_all policy (trace st)"
    and direct: "\<And>r. s_remoteRecipients (sess st) \<noteq> [] \<Longrightarrow>
      (s_authUser (sess st) \<noteq> [] \<and> s_from (sess st) \<noteq> [] \<Longrightarrow> checkFromAlignment w buf (sess st) = None) \<Longrightarrow>
      policy (trace st) (EEnqueue (s_from (sess st)) (s_remoteRecipients (sess st)) msgid (messageBody (b_hostname b) rc buf) r)"
  shows "log_all policy (trace (snd (remote_delivery b w msgid rc buf st)))"
  using assms by (auto simp: remote_delivery_def Let_def Enqueue_def split: option.split)

lemma deferred_reject_log: "log_all policy (trace st) \<Longrightarrow> log_all policy (trace (deferred_reject b w res buf st))"
  by (auto simp: deferred_reject_def Let_def split: prod.split)

text \<open>DATA keeps a policy that allows the direct delivery and the direct submission of the state; a session never has
  recipients of both kinds.\<close>

lemma Data_log:
  assumes log: "log_all policy (trace st)"
    and one: "s_recipients (sess st) = [] \<or> s_remoteRecipients (sess st) = []"
    and deliver: "\<And>meta m r. b_smDelivery b \<Longrightarrow> s_recipients (sess st) \<noteq> [] \<Longrightarrow>
      dm_Recipient meta = hd (s_recipients (sess st)) \<Longrightarrow> \<not> dm_Forwarded meta \<Longrightarrow> policy (trace st) (EDeliver meta m r)"
    and submit: "\<And>i rc buf r. s_remoteRecipients (sess st) \<noteq> [] \<Longrightarrow>
      (s_authUser (sess st) \<noteq> [] \<and> s_from (sess st) \<noteq> [] \<Longrightarrow> checkFromAlignment w buf (sess st) = None) \<Longrightarrow>
      policy (trace st) (EEnqueue (s_from (sess st)) (s_remoteRecipients (sess st)) i (messageBody (b_hostname b) rc buf) r)"
  shows "log_all policy (trace (snd (Data b w d st)))"
proof -
  have remote: "log_all policy (trace (snd (remote_delivery b w i rc buf st)))" for i rc buf
    by (rule remote_delivery_log[OF log submit])
  have here: "log_all policy (trace (snd (hand_over b w res buf st)))" if g: "data_guard b (sess st) = None" for res buf
  proof (cases "s_recipients (sess st) = []")
    case True
    then show ?thesis using remote log by (auto simp: hand_over_def Let_def split: option.split)
  next
    case False
    then have sm: "b_smDelivery b" using g by (auto simp: data_guard_def split: if_split_asm)
    have no_remote: "s_remoteRecipients (sess st) = []" using one False by simp
    have "log_all policy (trace (snd (case local_delivery b w i rc ar sh res buf st of (False, st1) \<Rightarrow> (e, st1)
        | (True, st1) \<Rightarrow> remote_delivery b w i rc buf st1)))" for i rc ar sh e
    proof (cases "local_delivery b w i rc ar sh res buf st")
      case (Pair ok st1)
      have "sess st1 = sess st" "log_all policy (trace st1)"
        using local_delivery_sess[of b w i rc ar sh res buf st]
          local_delivery_log[OF log deliver[OF sm False], of b w i rc ar sh res buf] by (simp_all add: Pair)
      then show ?thesis using no_remote by (cases ok) (simp_all add: Pair remote_delivery_def)
    qed
    then show ?thesis using log False by (simp add: hand_over_def Let_def split: option.split)
  qed
  show ?thesis using here deferred_reject_log[OF log] log
    by (auto simp: Data_def split: option.split prod.split sum.split)
qed

end

section \<open>The session invariant\<close>

text \<open>A session has at most one recipient; a local one has been found to exist, a remote one belongs to a session that has
  logged in.\<close>

definition smtp_inv :: "Backend \<Rightarrow> smtp \<Rightarrow> bool" where
  "smtp_inv b st = (let s = sess st; tr = trace st in
     length (s_recipients s) + length (s_remoteRecipients s) + (if s_deferredInvalidRecipient s = [] then 0 else 1) \<le> 1
     \<and> (s_authUser s \<noteq> [] \<longrightarrow> logged_in tr)
     \<and> (b_smDelivery b \<longrightarrow> list_all (\<lambda>a. found_local a tr) (s_recipients s))
     \<and> list_all (\<lambda>a. found_remote a tr \<and> logged_in tr) (s_remoteRecipients s))"

lemma past_append:
  "logged_in past \<Longrightarrow> logged_in (new @ past)" "found_remote a past \<Longrightarrow> found_remote a (new @ past)"
  "found_local a past \<Longrightarrow> found_local a (new @ past)" "forward_of a past \<Longrightarrow> forward_of a (new @ past)"
  by (simp_all add: past_defs)

lemma smtp_inv_trace:
  assumes "smtp_inv b st" "sess st' = sess st" "suffix (trace st) (trace st')"
  shows "smtp_inv b st'"
proof -
  obtain new where "trace st' = new @ trace st" using assms(3) by (auto simp: suffix_def)
  then show ?thesis using assms(1) by (auto simp: smtp_inv_def Let_def assms(2) list_all_iff past_append)
qed

text \<open>The trace only grows.\<close>

lemma suffix_step: "suffix xs ys \<Longrightarrow> suffix xs (y # ys)"
  by (rule suffix_ConsI)

lemma rate_check_grows: "suffix (trace st) (trace (snd (rate_check b w st)))" "sess (snd (rate_check b w st)) = sess st"
  by (auto simp: rate_check_def sender_allow_def Let_def suffix_step split: option.split)

lemma notify_grows: "suffix tr (trace st) \<Longrightarrow> suffix tr (trace (NotifyNewMail b a f st))"
  by (simp add: NotifyNewMail_def suffix_step)

lemma fold_notify_grows: "suffix tr (trace st) \<Longrightarrow> suffix tr (trace (fold (\<lambda>a. NotifyNewMail b a f) as st))"
  by (induction as arbitrary: st) (auto simp: notify_grows)

lemma forward_targets_grows:
  "suffix tr (trace st) \<Longrightarrow> suffix tr (trace (snd (forward_targets b w i hdrs ar res buf ts st)))"
  by (induction ts arbitrary: st)
    (auto simp: Let_def ValidateRecipient_def Enqueue_def Deliver_def suffix_step notify_grows
      split: option.split sum.split deliver_response.split)

lemma local_delivery_grows: "suffix (trace st) (trace (snd (local_delivery b w i rc ar sh res buf st)))"
  by (auto simp: local_delivery_def followRedirect_def Let_def Deliver_def suffix_step
      intro!: forward_targets_grows fold_notify_grows
      split: option.split sum.split deliver_response.split deliver_error.split)

lemma remote_delivery_grows: "suffix (trace st) (trace (snd (remote_delivery b w i rc buf st)))"
  by (auto simp: remote_delivery_def Let_def Enqueue_def suffix_step split: option.split)

lemma hand_over_grows: "suffix (trace st) (trace (snd (hand_over b w res buf st)))"
proof -
  have "suffix (trace st) (trace (snd (case local_delivery b w i rc ar sh res buf st of (False, st1) \<Rightarrow> (e, st1)
      | (True, st1) \<Rightarrow> remote_delivery b w i rc buf st1)))" for i rc ar sh e
    using local_delivery_grows[of st b w i rc ar sh res buf] remote_delivery_grows[of _ b w i rc buf]
    by (cases "local_delivery b w i rc ar sh res buf st")
      (auto intro: suffix_order.trans split: bool.split)
  then show ?thesis using remote_delivery_grows[of st b w]
    by (simp add: hand_over_def Let_def split: option.split)
qed

lemma Data_grows: "suffix (trace st) (trace (snd (Data b w d st)))"
  using hand_over_grows[of st b w]
  by (auto simp: Data_def deferred_reject_def Let_def suffix_step split: option.split prod.split sum.split)

lemma Auth_inv: "smtp_inv b st \<Longrightarrow> smtp_inv b (snd (Auth b w mech u p st))"
  by (auto simp: smtp_inv_def Auth_def Login_def Let_def past_defs list_all_iff split: sum.split)

lemma Mail_inv:
  assumes "smtp_inv b st"
  shows "smtp_inv b (snd (Mail b w a st))"
proof -
  obtain ok st1 where r: "rate_check b w st = (ok, st1)" by fastforce
  have "smtp_inv b st1" using smtp_inv_trace[OF assms] rate_check_grows(1)[of st b w] rate_check_grows(2)[of b w st]
    by (simp add: r)
  then show ?thesis by (auto simp: Mail_def r smtp_inv_def Let_def)
qed

lemma rcpt_validated_inv:
  assumes "s_recipients (sess st) = []" "s_remoteRecipients (sess st) = []" "s_deferredInvalidRecipient (sess st) = []"
    and "s_authUser (sess st) \<noteq> [] \<longrightarrow> logged_in (trace st)"
    and "trace st = EValidate a ip (Some vr) # past"
  shows "smtp_inv b (snd (rcpt_validated a vr st))"
proof -
  have "DomainIsLocal vr \<Longrightarrow> UserExists vr \<Longrightarrow> found_local a (trace st)" "\<not> DomainIsLocal vr \<Longrightarrow> found_remote a (trace st)"
    by (simp_all add: assms(5) past_defs)
  then show ?thesis using assms(1-4) by (simp add: smtp_inv_def rcpt_validated_def ReportPeer_def Let_def)
qed

lemma Rcpt_inv:
  assumes inv: "smtp_inv b st"
  shows "smtp_inv b (snd (Rcpt b w a st))"
proof (cases "has_recipient (sess st)")
  case False
  then have none: "s_recipients (sess st) = []" "s_remoteRecipients (sess st) = []" "s_deferredInvalidRecipient (sess st) = []"
    by (simp_all add: has_recipient_def)
  have auth: "s_authUser (sess st) \<noteq> [] \<longrightarrow> logged_in (trace st)" using inv by (simp add: smtp_inv_def Let_def)
  obtain r st1 where v: "ValidateRecipient w a (s_clientIP (sess st)) st = (r, st1)" by fastforce
  have st1: "sess st1 = sess st" "trace st1 = EValidate a (s_clientIP (sess st)) r # trace st"
    using v by (auto simp: ValidateRecipient_def Let_def)
  have "smtp_inv b st1" by (rule smtp_inv_trace[OF inv st1(1)]) (simp add: st1(2) suffix_step)
  moreover have "smtp_inv b (snd (rcpt_validated a vr st1))" if "r = Some vr" for vr
    by (rule rcpt_validated_inv) (use none auth st1 that in simp_all)
  moreover have "smtp_inv b (with_sess (\<lambda>s. s\<lparr>s_recipients := s_recipients s @ [a]\<rparr>) st)" if "\<not> b_smDelivery b"
    using none auth that by (simp add: smtp_inv_def Let_def)
  ultimately show ?thesis using inv False by (simp add: Rcpt_def v split: option.split)
qed (simp add: Rcpt_def inv)

lemma Data_inv: "smtp_inv b st \<Longrightarrow> smtp_inv b (snd (Data b w d st))"
  by (rule smtp_inv_trace[OF _ Data_sess Data_grows])

lemma Reset_inv: "smtp_inv b st \<Longrightarrow> smtp_inv b (Reset st)"
  by (auto simp: smtp_inv_def Reset_def with_sess_def Let_def)

lemma smtp_step_inv: "smtp_inv b st \<Longrightarrow> smtp_inv b (snd (smtp_step b w c st))"
  by (cases c) (simp_all add: Auth_inv Mail_inv Rcpt_inv Data_inv Reset_inv)

lemma smtp_run_snoc: "smtp_run b w (cs @ [c]) st = snd (smtp_step b w c (smtp_run b w cs st))"
  by (simp add: smtp_run_def)

lemma smtp_run_inv: "smtp_inv b st \<Longrightarrow> smtp_inv b (smtp_run b w cs st)"
  by (induction cs rule: rev_induct) (simp_all add: smtp_run_snoc smtp_step_inv smtp_run_def)

definition smtp_fresh :: "(string \<Rightarrow> string list option) \<Rightarrow> string \<Rightarrow> (string \<times> string) option \<Rightarrow> smtp" where
  "smtp_fresh lookup ip tls = smtp_start (smtp_NewSession lookup ip tls)"

lemma smtp_fresh_simps [simp]:
  "trace (smtp_fresh lookup ip tls) = []" "sess (smtp_fresh lookup ip tls) = smtp_NewSession lookup ip tls"
  by (simp_all add: smtp_fresh_def smtp_start_def)

lemma smtp_fresh_inv: "smtp_inv b (smtp_fresh lookup ip tls)"
  by (simp add: smtp_inv_def smtp_NewSession_def)

section \<open>What may leave\<close>

definition justified :: "event list \<Rightarrow> event \<Rightarrow> bool" where
  "justified past e = (case e of
       EEnqueue s rcpts i m r \<Rightarrow>
         (case rcpts of [a] \<Rightarrow> logged_in past \<and> found_remote a past \<or> forward_of a past | _ \<Rightarrow> False)
     | EDeliver meta m r \<Rightarrow>
         (if dm_Forwarded meta then forward_of (dm_Recipient meta) past else found_local (dm_Recipient meta) past)
     | _ \<Rightarrow> True)"

interpretation relay: trace_policy justified
  by unfold_locales (auto simp: justified_def hands_over_def split: event.split_asm)

text \<open>Mail is submitted by a session that has logged in, for its own sender address and with a From header that names it.\<close>

definition logged_in_as :: "string \<Rightarrow> event list \<Rightarrow> bool" where
  "logged_in_as a past = list_ex (\<lambda>e. case e of ELogin u p i (Inr res) \<Rightarrow> ToLower (lr_Mailbox res) = a | _ \<Rightarrow> False) past"

definition header_from_is :: "world \<Rightarrow> string \<Rightarrow> string \<Rightarrow> bool" where
  "header_from_is w buf sender = (case w_header_from w buf of
       None \<Rightarrow> False
     | Some f \<Rightarrow> f \<noteq> [] \<and> (case w_address_list w f of Some [a] \<Rightarrow> ToLower a = norm_sender sender | _ \<Rightarrow> False))"

definition own_sender :: "Backend \<Rightarrow> world \<Rightarrow> event list \<Rightarrow> event \<Rightarrow> bool" where
  "own_sender b w past e = (case e of
       EEnqueue s rcpts i m r \<Rightarrow> list_ex (\<lambda>a. forward_of a past) rcpts \<or> s = [] \<or>
         logged_in_as (norm_sender s) past \<and> (\<exists>hdrs buf. m = messageBody (b_hostname b) hdrs buf \<and> header_from_is w buf s)
     | _ \<Rightarrow> True)"

interpretation sender: trace_policy "own_sender b w" for b w
  by unfold_locales (auto simp: own_sender_def hands_over_def split: event.split_asm)

lemma checkFromAlignment_None: "checkFromAlignment w buf s = None \<longleftrightarrow> header_from_is w buf (s_from s)"
  by (auto simp: checkFromAlignment_def header_from_is_def split: option.splits if_splits list.splits)

lemma smtp_inv_one: "smtp_inv b st \<Longrightarrow> s_recipients (sess st) = [] \<or> s_remoteRecipients (sess st) = []"
  by (cases "s_recipients (sess st)"; cases "s_remoteRecipients (sess st)") (auto simp: smtp_inv_def Let_def)

lemma smtp_inv_remote:
  assumes "smtp_inv b st" "s_remoteRecipients (sess st) \<noteq> []"
  obtains a where "s_remoteRecipients (sess st) = [a]" "found_remote a (trace st)" "logged_in (trace st)"
  using assms by (cases "s_remoteRecipients (sess st)") (auto simp: smtp_inv_def Let_def)

lemma smtp_inv_local:
  assumes "smtp_inv b st" "s_recipients (sess st) \<noteq> []"
  obtains a where "s_recipients (sess st) = [a]" "b_smDelivery b \<longrightarrow> found_local a (trace st)"
  using assms by (cases "s_recipients (sess st)") (auto simp: smtp_inv_def Let_def)

lemma smtp_step_relay:
  assumes inv: "smtp_inv b st" and log: "log_all justified (trace st)"
  shows "log_all justified (trace (snd (smtp_step b w c st)))"
proof (cases c)
  case (CData d)
  have "log_all justified (trace (snd (Data b w d st)))"
  proof (rule relay.Data_log[OF log smtp_inv_one[OF inv]])
    show "justified (trace st) (EDeliver meta m r)" if h: "b_smDelivery b" "s_recipients (sess st) \<noteq> []"
        "dm_Recipient meta = hd (s_recipients (sess st))" "\<not> dm_Forwarded meta" for meta m r
    proof -
      obtain a where "s_recipients (sess st) = [a]" "b_smDelivery b \<longrightarrow> found_local a (trace st)"
        by (rule smtp_inv_local[OF inv h(2)])
      then show ?thesis using h by (simp add: justified_def)
    qed
    show "justified (trace st) (EEnqueue (s_from (sess st)) (s_remoteRecipients (sess st)) i m r)"
      if h: "s_remoteRecipients (sess st) \<noteq> []" for i m r
    proof -
      obtain a where "s_remoteRecipients (sess st) = [a]" "found_remote a (trace st)" "logged_in (trace st)"
        by (rule smtp_inv_remote[OF inv h])
      then show ?thesis by (simp add: justified_def)
    qed
  qed
  then show ?thesis by (simp add: CData)
qed (simp_all add: relay.Auth_log relay.Mail_log relay.Rcpt_log log)

lemma smtp_run_relay: "log_all justified (trace (smtp_run b w cs (smtp_fresh lookup ip tls)))"
proof (induction cs rule: rev_induct)
  case (snoc c cs)
  then show ?case by (simp add: smtp_run_snoc smtp_step_relay smtp_run_inv smtp_fresh_inv)
qed (simp add: smtp_run_def)

text \<open>Logins only between transactions.\<close>

fun auth_between :: "Backend \<Rightarrow> world \<Rightarrow> smtp_cmd list \<Rightarrow> smtp \<Rightarrow> bool" where
  "auth_between b w [] st = True"
| "auth_between b w (c # cs) st =
     ((case c of CAuth mech u p \<Rightarrow> s_from (sess st) = [] \<and> s_remoteRecipients (sess st) = [] | _ \<Rightarrow> True)
      \<and> auth_between b w cs (snd (smtp_step b w c st)))"

definition sender_inv :: "smtp \<Rightarrow> bool" where
  "sender_inv st = (let s = sess st in
     (s_remoteRecipients s \<noteq> [] \<longrightarrow> s_authUser s \<noteq> [])
     \<and> (s_authUser s \<noteq> [] \<and> s_from s \<noteq> [] \<longrightarrow> norm_sender (s_from s) = ToLower (s_authUser s))
     \<and> (s_authUser s \<noteq> [] \<longrightarrow> logged_in_as (ToLower (s_authUser s)) (trace st)))"

lemma logged_in_as_append: "logged_in_as a past \<Longrightarrow> logged_in_as a (new @ past)"
  by (simp add: logged_in_as_def)

lemma sender_inv_trace:
  assumes "sender_inv st" "sess st' = sess st" "suffix (trace st) (trace st')"
  shows "sender_inv st'"
proof -
  obtain new where "trace st' = new @ trace st" using assms(3) by (auto simp: suffix_def)
  then show ?thesis using assms(1) by (auto simp: sender_inv_def Let_def assms(2) logged_in_as_append)
qed

lemma Auth_sender:
  "sender_inv st \<Longrightarrow> s_from (sess st) = [] \<Longrightarrow> s_remoteRecipients (sess st) = [] \<Longrightarrow>
   sender_inv (snd (Auth b w mech u p st))"
  by (auto simp: sender_inv_def Auth_def Login_def Let_def logged_in_as_def split: sum.split)

lemma Mail_sender:
  assumes "sender_inv st"
  shows "sender_inv (snd (Mail b w a st))"
proof -
  obtain ok st1 where r: "rate_check b w st = (ok, st1)" by fastforce
  have "sender_inv st1" using sender_inv_trace[OF assms] rate_check_grows(1)[of st b w] rate_check_grows(2)[of b w st]
    by (simp add: r)
  then show ?thesis by (auto simp: Mail_def r sender_inv_def Let_def)
qed

lemma Rcpt_sender:
  assumes inv: "sender_inv st"
  shows "sender_inv (snd (Rcpt b w a st))"
proof -
  obtain r st1 where v: "ValidateRecipient w a (s_clientIP (sess st)) st = (r, st1)" by fastforce
  have st1: "sess st1 = sess st" "trace st1 = EValidate a (s_clientIP (sess st)) r # trace st"
    using v by (auto simp: ValidateRecipient_def Let_def)
  have inv1: "sender_inv st1" by (rule sender_inv_trace[OF inv st1(1)]) (simp add: st1(2) suffix_step)
  have "sender_inv (ReportPeer i sig st1)" for i sig
    by (rule sender_inv_trace[OF inv1]) (simp_all add: ReportPeer_def suffix_step)
  moreover have "sender_inv (snd (rcpt_validated a vr st1))" if "s_authUser (sess st1) \<noteq> [] \<or> DomainIsLocal vr" for vr
    using inv1 that by (auto simp: rcpt_validated_def sender_inv_def Let_def)
  ultimately have "sender_inv (snd (rcpt_validated a vr st1))" for vr
    by (cases "s_authUser (sess st1) \<noteq> [] \<or> DomainIsLocal vr") (auto simp: rcpt_validated_def)
  moreover have "sender_inv (with_sess (\<lambda>s. s\<lparr>s_recipients := s_recipients s @ [a]\<rparr>) st)"
    using inv by (simp add: sender_inv_def Let_def)
  ultimately show ?thesis using inv inv1 by (simp add: Rcpt_def v split: option.split)
qed

lemma Mail_refuses:
  assumes "s_authUser (sess st) \<noteq> []" "a \<noteq> []" "norm_sender a \<noteq> ToLower (s_authUser (sess st))"
  shows "fst (Mail b w a st) \<noteq> Accepted"
proof -
  obtain ok st1 where r: "rate_check b w st = (ok, st1)" by fastforce
  have "sess st1 = sess st" using rate_check_grows(2)[of b w st] by (simp add: r)
  then show ?thesis using assms by (simp add: Mail_def r)
qed

lemma smtp_step_sender:
  assumes inv: "smtp_inv b st" "sender_inv st" and log: "log_all (own_sender b w) (trace st)"
    and "auth_between b w [c] st"
  shows "sender_inv (snd (smtp_step b w c st)) \<and> log_all (own_sender b w) (trace (snd (smtp_step b w c st)))"
proof (cases c)
  case (CData d)
  have "sender_inv (snd (Data b w d st))" by (rule sender_inv_trace[OF inv(2) Data_sess Data_grows])
  moreover have "log_all (own_sender b w) (trace (snd (Data b w d st)))"
  proof (rule sender.Data_log[OF log smtp_inv_one[OF inv(1)]])
    show "own_sender b w (trace st)
        (EEnqueue (s_from (sess st)) (s_remoteRecipients (sess st)) i (messageBody (b_hostname b) rc buf) r)"
      if "s_remoteRecipients (sess st) \<noteq> []"
        "s_authUser (sess st) \<noteq> [] \<and> s_from (sess st) \<noteq> [] \<Longrightarrow> checkFromAlignment w buf (sess st) = None" for i rc buf r
      using that inv(2) checkFromAlignment_None[of w buf "sess st"] by (auto simp: own_sender_def sender_inv_def Let_def)
  qed (simp add: own_sender_def)
  ultimately show ?thesis by (simp add: CData)
next
  case CReset
  then show ?thesis using inv log by (auto simp: sender_inv_def Reset_def with_sess_def Let_def)
qed (use assms in \<open>simp_all add: Auth_sender Mail_sender Rcpt_sender sender.Auth_log sender.Mail_log sender.Rcpt_log\<close>)

lemma smtp_run_sender:
  "smtp_inv b st \<Longrightarrow> sender_inv st \<Longrightarrow> log_all (own_sender b w) (trace st) \<Longrightarrow> auth_between b w cs st \<Longrightarrow>
   log_all (own_sender b w) (trace (smtp_run b w cs st))"
proof (induction cs arbitrary: st)
  case (Cons c cs)
  have "sender_inv (snd (smtp_step b w c st)) \<and> log_all (own_sender b w) (trace (snd (smtp_step b w c st)))"
    using Cons.prems by (intro smtp_step_sender) (auto split: smtp_cmd.split_asm)
  then show ?case using Cons.IH[OF smtp_step_inv[OF Cons.prems(1)]] Cons.prems(4) by (simp add: smtp_run_def)
qed (simp add: smtp_run_def)

section \<open>What acceptance means\<close>

text \<open>The message got to an address: delivered or queued, its body after some headers.\<close>

definition reached :: "string \<Rightarrow> string \<Rightarrow> string \<Rightarrow> event list \<Rightarrow> bool" where
  "reached host buf a evs = list_ex (\<lambda>e. case e of
       EDeliver meta m (Some (Delivered f)) \<Rightarrow> dm_Recipient meta = a \<and> HasSuffix m (stripAuthResults buf host)
     | EEnqueue s rcpts i m (Some j) \<Rightarrow> rcpts = [a] \<and> HasSuffix m (stripAuthResults buf host)
     | _ \<Rightarrow> False) evs"

definition handed_over :: "string \<Rightarrow> string \<Rightarrow> string \<Rightarrow> event list \<Rightarrow> bool" where
  "handed_over host buf a evs = (reached host buf a evs \<or> list_ex (\<lambda>e. case e of
       EDeliver meta m (Some (Redirected addrs t)) \<Rightarrow>
         dm_Recipient meta = a \<and> addrs \<noteq> [] \<and> list_all (\<lambda>x. reached host buf x evs) addrs
     | _ \<Rightarrow> False) evs)"

lemma reached_append: "reached host buf a evs \<Longrightarrow> reached host buf a (evs' @ evs)"
    "reached host buf a evs' \<Longrightarrow> reached host buf a (evs' @ evs)"
  by (simp_all add: reached_def)

lemma messageBody_suffix [simp]: "HasSuffix (messageBody host hdrs buf) (stripAuthResults buf host)"
  by (simp add: messageBody_def withHeaders_def)

lemma notify_new: "\<exists>new. trace (NotifyNewMail b a f st) = new @ trace st"
  by (simp add: NotifyNewMail_def)

lemma fold_notify_new: "\<exists>new. trace (fold (\<lambda>a. NotifyNewMail b a f) as st) = new @ trace st"
  using fold_notify_grows[of "trace st" st b f as] by (auto simp: suffix_def)

lemma forward_targets_reached:
  "forward_targets b w i hdrs ar res buf ts st = (True, st') \<Longrightarrow>
   \<exists>new. trace st' = new @ trace st \<and> list_all (\<lambda>t. reached (b_hostname b) buf t new) ts"
proof (induction ts arbitrary: st)
  case (Cons t ts)
  obtain vr st1 where v: "ValidateRecipient w t (s_clientIP (sess st)) st = (Some vr, st1)"
    using Cons.prems by (auto simp: Let_def split: prod.split_asm option.split_asm)
  have st1: "sess st1 = sess st" "\<exists>new. trace st1 = new @ trace st" using v by (auto simp: ValidateRecipient_def Let_def)
  have "\<exists>st2 e. trace st2 = e @ trace st1 \<and> reached (b_hostname b) buf t e \<and>
      forward_targets b w i hdrs ar res buf ts st2 = (True, st')"
  proof (cases "DomainIsLocal vr")
    case False
    then obtain j st2 where e: "Enqueue w (s_from (sess st)) [t] i (messageBody (b_hostname b) hdrs buf) st1 = (Some j, st2)"
        "forward_targets b w i hdrs ar res buf ts st2 = (True, st')"
      using Cons.prems by (auto simp: v Let_def split: prod.split_asm option.split_asm)
    then show ?thesis by (intro exI[of _ st2]) (auto simp: Enqueue_def Let_def reached_def)
  next
    case True
    then obtain f st2 where d: "Deliver w (s_from (sess st)) t (s_clientIP (sess st)) (s_helo (sess st)) True i res
          (messageBody (b_hostname b) (hdrs @ ar) buf) st1 = (Inr f, st2)"
        "forward_targets b w i hdrs ar res buf ts (NotifyNewMail b t ''INBOX'' st2) = (True, st')"
      using Cons.prems by (auto simp: v Let_def split: prod.split_asm sum.split_asm)
    obtain new where n: "trace (NotifyNewMail b t ''INBOX'' st2) = new @ trace st2" using notify_new by blast
    obtain e where e: "trace st2 = e @ trace st1" "reached (b_hostname b) buf t e"
      using d(1) by (auto simp: Deliver_def Let_def reached_def split: option.split_asm deliver_response.split_asm)
    then show ?thesis using d(2) n reached_append(1)[OF e(2), of new]
      by (intro exI[of _ "NotifyNewMail b t ''INBOX'' st2"]) auto
  qed
  then obtain st2 e where st2: "trace st2 = e @ trace st1" "reached (b_hostname b) buf t e"
      "forward_targets b w i hdrs ar res buf ts st2 = (True, st')" by blast
  obtain new v' where "trace st' = (new @ e @ v') @ trace st" "list_all (\<lambda>t. reached (b_hostname b) buf t new) ts"
    using Cons.IH[OF st2(3)] st1(2) st2(1) by auto
  moreover have "reached (b_hostname b) buf t (new @ e @ v')" by (intro reached_append st2(2))
  ultimately show ?case by (intro exI[of _ "new @ e @ v'"]) (simp add: list_all_iff reached_append(2))
qed simp

lemma local_delivery_handed_over:
  assumes "local_delivery b w i rc ar sh res buf st = (True, st')"
  shows "\<exists>new. trace st' = new @ trace st \<and> handed_over (b_hostname b) buf (hd (s_recipients (sess st))) new"
proof -
  obtain x st1 where d: "Deliver w (s_from (sess st)) (hd (s_recipients (sess st))) (s_clientIP (sess st))
      (s_helo (sess st)) False i res (messageBody (b_hostname b) (rc @ ar @ sh) buf) st = (x, st1)" by fastforce
  obtain meta m r where st1: "trace st1 = EDeliver meta m r # trace st" "dm_Recipient meta = hd (s_recipients (sess st))"
      "m = messageBody (b_hostname b) (rc @ ar @ sh) buf"
    and x: "x = (case r of Some (Delivered f) \<Rightarrow> Inr f | Some (Redirected addrs t) \<Rightarrow> Inl (RedirectError addrs t)
      | _ \<Rightarrow> Inl DeliveryError)"
    using d by (auto simp: Deliver_def Let_def)
  show ?thesis
  proof (cases x)
    case (Inr f)
    then have r: "r = Some (Delivered f)" using x by (auto split: option.split_asm deliver_response.split_asm)
    have "\<exists>new. trace st' = new @ trace st1"
      using assms fold_notify_new by (auto simp: local_delivery_def Let_def d Inr)
    then obtain new where "trace st' = (new @ [EDeliver meta m r]) @ trace st" using st1(1) by auto
    then show ?thesis using st1(2,3)
      by (intro exI[of _ "new @ [EDeliver meta m r]"]) (auto simp: handed_over_def reached_def r)
  next
    case (Inl e)
    then obtain addrs t where e: "e = RedirectError addrs t"
      using assms by (cases e) (auto simp: local_delivery_def Let_def d)
    then have r: "r = Some (Redirected addrs t)" using x Inl by (auto split: option.split_asm deliver_response.split_asm)
    have "addrs \<noteq> [] \<and> (\<exists>hdrs. forward_targets b w i hdrs ar res buf addrs st1 = (True, st'))"
      using assms by (auto simp: local_delivery_def Let_def d Inl e followRedirect_def split: if_split_asm)
    then obtain new where "addrs \<noteq> []" "trace st' = new @ trace st1" "list_all (\<lambda>t. reached (b_hostname b) buf t new) addrs"
      using forward_targets_reached by blast
    then show ?thesis using st1(1,2) reached_append(2)
      by (intro exI[of _ "new @ [EDeliver meta m r]"]) (auto simp: handed_over_def r list_all_iff)
  qed
qed

lemma remote_delivery_handed_over:
  assumes "remote_delivery b w i rc buf st = (Accepted, st')" "s_remoteRecipients (sess st) = [a]"
  shows "\<exists>new. trace st' = new @ trace st \<and> handed_over (b_hostname b) buf a new"
proof -
  obtain e where "trace st' = e # trace st" "reached (b_hostname b) buf a [e]"
    using assms by (auto simp: remote_delivery_def Let_def Enqueue_def reached_def queue_failure_def checkFromAlignment_def
        split: option.split_asm if_split_asm list.split_asm)
  then show ?thesis by (intro exI[of _ "[e]"]) (simp add: handed_over_def)
qed

lemma hand_over_accepted:
  assumes inv: "smtp_inv b st" "has_recipient (sess st)" "s_deferredInvalidRecipient (sess st) = []"
    and ok: "hand_over b w res buf st = (Accepted, st')"
  shows "\<exists>new a. trace st' = new @ trace st \<and> s_recipients (sess st) @ s_remoteRecipients (sess st) = [a]
    \<and> handed_over (b_hostname b) buf a new"
proof (cases "s_recipients (sess st) = []")
  case True
  then obtain a where a: "s_remoteRecipients (sess st) = [a]"
    using inv smtp_inv_remote[OF inv(1)] by (auto simp: has_recipient_def)
  show ?thesis using ok True a remote_delivery_handed_over[of b w _ _ buf st st' a]
    by (auto simp: hand_over_def Let_def split: option.split_asm)
next
  case False
  then obtain a where a: "s_recipients (sess st) = [a]" using smtp_inv_local[OF inv(1)] by blast
  have none: "s_remoteRecipients (sess st) = []" using smtp_inv_one[OF inv(1)] False by simp
  obtain i rc ar sh st1 where l: "local_delivery b w i rc ar sh res buf st = (True, st1)"
      and r: "remote_delivery b w i rc buf st1 = (Accepted, st')"
    using ok False by (auto simp: hand_over_def Let_def split: option.split_asm prod.split_asm bool.split_asm)
  have "st' = st1" using r none local_delivery_sess[of b w i rc ar sh res buf st] by (simp add: l remote_delivery_def)
  then show ?thesis using local_delivery_handed_over[OF l] a none by auto
qed

lemma createSpamChecker_reads_all:
  assumes "fst (createSpamChecker client cfg) = Some chk"
  shows "fst (Check (chk opts) d) = d_bytes d"
  using assms by (auto simp: createSpamChecker_def Check_def split: if_split_asm list.split_asm)

lemma read_and_check_buf:
  assumes "b_spamChecker b = fst (createSpamChecker client cfg)"
  shows "fst (read_and_check b s d) = d_bytes d"
proof (cases "b_spamChecker b")
  case (Some chk)
  then have "fst (Check (chk (check_options b s)) d) = d_bytes d"
    using assms createSpamChecker_reads_all[of client cfg chk] by simp
  then show ?thesis by (cases "Check (chk (check_options b s)) d") (simp add: read_and_check_def Some)
qed (simp add: read_and_check_def)

lemma spam_decision_not_Accepted: "spam_decision cfg res \<noteq> Inl Accepted"
  by (auto simp: spam_decision_def split: option.split FailMode.split)

lemma read_and_check_not_Accepted: "snd (read_and_check b s d) \<noteq> Inl Accepted"
  by (auto simp: read_and_check_def spam_decision_not_Accepted split: option.split prod.split)

lemma data_guard_not_Accepted: "data_guard b s \<noteq> Some Accepted"
  by (simp add: data_guard_def)

section \<open>A concrete session\<close>

definition demo_login :: LoginResult where
  "demo_login = \<lparr>lr_Token = ''t'', lr_Mailbox = ''al@b.c'', lr_Extension = [], lr_MaxSendsPerHour = 0\<rparr>"

definition demo_world :: world where
  "demo_world = \<lparr>w_login = (\<lambda>n u p i. Inr demo_login), w_incr = (\<lambda>n k. None),
     w_validate = (\<lambda>n a i. Some \<lparr>DomainIsLocal = (a = ''bob@b.c''), UserExists = True, DeferRejection = False\<rparr>),
     w_deliver = (\<lambda>n meta m. Some (Delivered ''INBOX'')), w_enqueue = (\<lambda>n s rs i m. Some ''q1''), w_now = (\<lambda>n. 0),
     w_date = (\<lambda>n. ''D''), w_rfc3339 = (\<lambda>n. ''T''), w_rand = (\<lambda>n. Some ''0123456789abcdef''),
     w_header_from = (\<lambda>m. Some ''al@b.c''), w_address_list = (\<lambda>f. Some [f])\<rparr>"

definition demo_backend :: Backend where
  "demo_backend = \<lparr>b_hostname = ''mx'', b_smDelivery = True, b_spamChecker = None, b_spamConfig = no_spam_config,
     b_spamtrapLearner = False, b_spamtrapMaxRate = 10, b_senderRateLimiter = False, b_maxSendsPerHour = 0, b_notifier = False\<rparr>"

definition demo_fresh :: smtp where
  "demo_fresh = smtp_fresh (\<lambda>i. None) ''1.2.3.4'' None"

definition demo_data :: data_stream where
  "demo_data = \<lparr>d_bytes = ''hi'', d_failed = False\<rparr>"

definition demo_id :: string where
  "demo_id = hex_encode ''0123456789abcdef''"

definition demo_header :: "Session \<Rightarrow> string" where
  "demo_header s = ingress_header demo_backend s demo_id ''D''"

lemmas demo_eval = demo_world_def demo_backend_def demo_login_def demo_data_def demo_fresh_def demo_header_def demo_id_def
  smtp_run_def Auth_def Mail_def rate_check_def Rcpt_def rcpt_validated_def has_recipient_def Data_def data_guard_def
  read_and_check_def hand_over_def remote_delivery_def local_delivery_def smtp_newMsgID_def call_defs with_sess_def
  checkFromAlignment_def norm_sender_def strip_angle_def smtp_extractDomain_def smtp_NewSession_def reverseDNS_def

definition demo_session :: Session where
  "demo_session = (smtp_NewSession (\<lambda>i. None) ''1.2.3.4'' None)\<lparr>s_authUser := ''al@b.c'', s_loginResult := Some demo_login,
     s_from := ''al@b.c'', s_mailFromSeen := True, s_remoteRecipients := [''x@d.e'']\<rparr>"

definition demo_cmds :: "smtp_cmd list" where
  "demo_cmds = [CAuth ''PLAIN'' ''al'' ''pw'', CMail ''al@b.c'', CRcpt ''x@d.e'', CData demo_data]"

lemma demo_submission:
  "trace (smtp_run demo_backend demo_world demo_cmds demo_fresh) =
    [EEnqueue ''al@b.c'' [''x@d.e''] demo_id (messageBody ''mx'' (demo_header demo_session) ''hi'') (Some ''q1''),
     EValidate ''x@d.e'' ''1.2.3.4'' (Some \<lparr>DomainIsLocal = False, UserExists = True, DeferRejection = False\<rparr>),
     ELogin ''al'' ''pw'' ''1.2.3.4'' (Inr demo_login)]"
  by (simp add: demo_cmds_def demo_session_def demo_eval go_eval)

section \<open>Properties\<close>

text \<open>C2: no open relay.  Whatever handlers a client makes the daemon call, in any order and with any answers of the session
  manager, each mail that leaves the process was justified by what happened before: a message is queued for
  one address only, which either was found to be remote by a session that has logged in, or is a target that the session
  manager asked to redirect to; a message is delivered only to an address that was found to be local and to exist, or to
  such a target.\<close>

theorem no_open_relay:
  assumes "trace (smtp_run b w cs (smtp_fresh lookup ip tls)) = later @ e # past"
  shows "justified past e"
  using log_all_mid smtp_run_relay[of b w cs lookup ip tls] assms by metis

theorem no_open_relay_witness:
  "justified (tl (trace (smtp_run demo_backend demo_world demo_cmds demo_fresh)))
     (EEnqueue ''al@b.c'' [''x@d.e''] demo_id (messageBody ''mx'' (demo_header demo_session) ''hi'') (Some ''q1''))"
  using no_open_relay[of demo_backend demo_world demo_cmds "\<lambda>i. None" "''1.2.3.4''" None "[]"]
    demo_submission[unfolded demo_fresh_def] by (simp add: demo_fresh_def)

text \<open>C13: who sends.  In a session that logs in only between transactions, a message queued directly with a sender carries
  the address of a login of that session as its envelope sender, and its From header names that one address.\<close>

theorem submitted_mail_names_its_login:
  assumes "auth_between b w cs (smtp_fresh lookup ip tls)"
    and "trace (smtp_run b w cs (smtp_fresh lookup ip tls)) = later @ EEnqueue sender [a] i m r # past"
    and "sender \<noteq> []" "\<not> forward_of a past"
  shows "logged_in_as (norm_sender sender) past
    \<and> (\<exists>hdrs buf. m = messageBody (b_hostname b) hdrs buf \<and> header_from_is w buf sender)"
proof -
  have "sender_inv (smtp_fresh lookup ip tls)" by (simp add: sender_inv_def smtp_NewSession_def)
  then have "log_all (own_sender b w) (trace (smtp_run b w cs (smtp_fresh lookup ip tls)))"
    using assms(1) by (intro smtp_run_sender smtp_fresh_inv) simp_all
  then have "own_sender b w past (EEnqueue sender [a] i m r)" unfolding assms(2) by (rule log_all_mid)
  then show ?thesis using assms(3,4) by (simp add: own_sender_def)
qed

theorem submitted_mail_names_its_login_witness:
  "logged_in_as (norm_sender ''al@b.c'') (tl (trace (smtp_run demo_backend demo_world demo_cmds demo_fresh)))"
proof -
  have "auth_between demo_backend demo_world demo_cmds (smtp_fresh (\<lambda>i. None) ''1.2.3.4'' None)"
    by (simp add: demo_cmds_def smtp_NewSession_def)
  then show ?thesis
    using submitted_mail_names_its_login[of demo_backend demo_world demo_cmds "\<lambda>i. None" "''1.2.3.4''" None "[]"]
      demo_submission[unfolded demo_fresh_def] by (simp add: demo_fresh_def forward_of_def)
qed

text \<open>C4: an accepted message is handed over.  When DATA is answered with success, the session had exactly one
  recipient, and during the command the bytes that were received, below the headers of the server, were delivered to it or
  queued for it, or the delivery was redirected to at least one address and each of them got them.\<close>

theorem accepted_mail_is_handed_over:
  assumes "b_spamChecker b = fst (createSpamChecker client cfg)"
    and "st = smtp_run b w cs (smtp_fresh lookup ip tls)"
    and "Data b w d st = (Accepted, st')"
  shows "\<exists>new a. trace st' = new @ trace st \<and> s_recipients (sess st) @ s_remoteRecipients (sess st) = [a]
    \<and> handed_over (b_hostname b) (d_bytes d) a new"
proof -
  have inv: "smtp_inv b st" by (simp add: assms(2) smtp_run_inv smtp_fresh_inv)
  have g: "data_guard b (sess st) = None"
    using assms(3) data_guard_not_Accepted[of b "sess st"] by (auto simp: Data_def split: option.split_asm)
  obtain x where x: "read_and_check b (sess st) d = (d_bytes d, x)"
    using read_and_check_buf[OF assms(1), of "sess st" d] by (metis prod.collapse)
  have "x \<noteq> Inl Accepted" using read_and_check_not_Accepted[of b "sess st" d] by (simp add: x)
  then obtain res where "x = Inr res" "s_deferredInvalidRecipient (sess st) = []" "hand_over b w res (d_bytes d) st = (Accepted, st')"
    using assms(3) by (cases x) (auto simp: Data_def g x split: if_split_asm)
  moreover have "has_recipient (sess st)" using g by (auto simp: data_guard_def split: if_split_asm)
  ultimately show ?thesis using hand_over_accepted[OF inv] by blast
qed

definition demo_ready :: smtp where
  "demo_ready = smtp_run demo_backend demo_world (take 3 demo_cmds) demo_fresh"

lemma demo_accepted: "fst (Data demo_backend demo_world demo_data demo_ready) = Accepted"
  by (simp add: demo_ready_def demo_cmds_def demo_eval go_eval)

theorem accepted_mail_is_handed_over_witness:
  "\<exists>new a. trace (snd (Data demo_backend demo_world demo_data demo_ready)) = new @ trace demo_ready
    \<and> s_recipients (sess demo_ready) @ s_remoteRecipients (sess demo_ready) = [a] \<and> handed_over ''mx'' ''hi'' a new"
proof -
  have chk: "b_spamChecker demo_backend = fst (createSpamChecker (\<lambda>u opts m. None) no_spam_config)"
    by (simp add: demo_backend_def createSpamChecker_def IsEnabled_def no_spam_config_def)
  have "Data demo_backend demo_world demo_data demo_ready = (Accepted, snd (Data demo_backend demo_world demo_data demo_ready))"
    using demo_accepted by (simp add: prod_eq_iff)
  from accepted_mail_is_handed_over[OF chk demo_ready_def[unfolded demo_fresh_def] this]
  show ?thesis by (simp add: demo_backend_def demo_data_def)
qed

text \<open>C37: logging in after MAIL evades the check of the sender.  The sender is compared with the login when MAIL is handled, and the
  From header with the sender only.  A session that gives a sender first and logs in within the transaction therefore
  queues mail under any sender address, although the same address is refused after the login.\<close>

theorem login_after_mail_evades_sender_check:
  assumes "b_smDelivery b" "b_spamChecker b = None"
    and "w_login w = (\<lambda>n u p i. Inr res)" "lr_Mailbox res \<noteq> []"
    and "w_validate w = (\<lambda>n a i. Some vr)" "\<not> DomainIsLocal vr" "smtp_extractDomain a \<noteq> []"
    and "w_rand w = (\<lambda>n. Some rnd)" "w_enqueue w = (\<lambda>n s rs i m. Some j)"
    and "\<not> d_failed d" "header_from_is w (d_bytes d) forged" "forged \<noteq> []" "norm_sender forged \<noteq> ToLower (lr_Mailbox res)"
  shows "(\<exists>i m. hd (trace (smtp_run b w [CMail forged, CAuth ''PLAIN'' u p, CRcpt a, CData d] (smtp_fresh lookup ip tls)))
      = EEnqueue forged [a] i m (Some j))
    \<and> fst (Mail b w forged (smtp_run b w [CAuth ''PLAIN'' u p] (smtp_fresh lookup ip tls))) \<noteq> Accepted"
proof
  define s0 where "s0 = smtp_NewSession lookup ip tls"
  have s0: "s_authUser s0 = []" "s_recipients s0 = []" "s_remoteRecipients s0 = []" "s_deferredInvalidRecipient s0 = []"
    by (simp_all add: s0_def smtp_NewSession_def)
  define st where "st = smtp_run b w [CMail forged, CAuth ''PLAIN'' u p, CRcpt a] (smtp_fresh lookup ip tls)"
  have st: "sess st = s0\<lparr>s_from := forged, s_mailFromSeen := True, s_authUser := lr_Mailbox res, s_loginResult := Some res,
      s_remoteRecipients := [a]\<rparr>"
    using assms s0 by (simp add: st_def smtp_run_def Mail_def rate_check_def Auth_def Login_def Rcpt_def has_recipient_def
        ValidateRecipient_def rcpt_validated_def Let_def flip: s0_def)
  have "checkFromAlignment w (d_bytes d) (sess st) = None" using assms(11) by (simp add: checkFromAlignment_None st)
  then have "\<exists>i m. trace (snd (Data b w d st)) = EEnqueue forged [a] i m (Some j) # trace st"
    using assms s0 st by (simp add: Data_def data_guard_def has_recipient_def read_and_check_def hand_over_def smtp_newMsgID_def
        remote_delivery_def Enqueue_def Let_def)
  then show "\<exists>i m. hd (trace (smtp_run b w [CMail forged, CAuth ''PLAIN'' u p, CRcpt a, CData d] (smtp_fresh lookup ip tls)))
      = EEnqueue forged [a] i m (Some j)"
    by (auto simp: st_def smtp_run_def)
  have "sess (smtp_run b w [CAuth ''PLAIN'' u p] (smtp_fresh lookup ip tls)) =
      s0\<lparr>s_authUser := lr_Mailbox res, s_loginResult := Some res\<rparr>"
    using assms by (simp add: smtp_run_def Auth_def Login_def Let_def flip: s0_def)
  then show "fst (Mail b w forged (smtp_run b w [CAuth ''PLAIN'' u p] (smtp_fresh lookup ip tls))) \<noteq> Accepted"
    using assms by (intro Mail_refuses) simp_all
qed

definition demo_forged :: world where
  "demo_forged = demo_world\<lparr>w_validate := (\<lambda>n a i. Some \<lparr>DomainIsLocal = False, UserExists = False, DeferRejection = False\<rparr>),
     w_header_from := (\<lambda>m. Some ''boss@b.c'')\<rparr>"

theorem login_after_mail_evades_sender_check_witness:
  "\<exists>i m. hd (trace (smtp_run demo_backend demo_forged
      [CMail ''boss@b.c'', CAuth ''PLAIN'' ''al'' ''pw'', CRcpt ''x@d.e'', CData demo_data] demo_fresh))
    = EEnqueue ''boss@b.c'' [''x@d.e''] i m (Some ''q1'')"
proof -
  have norm: "norm_sender ''boss@b.c'' = ''boss@b.c''" "ToLower ''al@b.c'' = ''al@b.c''" "ToLower ''boss@b.c'' = ''boss@b.c''"
    "smtp_extractDomain ''x@d.e'' = ''d.e''"
    by (simp_all add: norm_sender_def strip_angle_def smtp_extractDomain_def go_eval)
  show ?thesis unfolding demo_fresh_def
    by (rule login_after_mail_evades_sender_check[where res = demo_login
          and vr = "\<lparr>DomainIsLocal = False, UserExists = False, DeferRejection = False\<rparr>" and rnd = "''0123456789abcdef''",
          THEN conjunct1])
      (simp_all add: demo_forged_def demo_world_def demo_backend_def demo_login_def demo_data_def header_from_is_def norm)
qed

lemma createSpamChecker_enabled: "createSpamChecker client cfg = (Some chk, cfg') \<Longrightarrow> IsEnabled cfg \<and> cfg' = cfg"
  by (auto simp: createSpamChecker_def split: if_split_asm list.split_asm)

lemma createSpamChecker_failed:
  "fst (createSpamChecker client cfg) = Some chk \<Longrightarrow> d_failed d \<Longrightarrow> Check (chk opts) d = (d_bytes d, None)"
  by (auto simp: createSpamChecker_def Check_def split: if_split_asm list.split_asm)

text \<open>A message that breaks off is accepted and delivered.  With a spam checker and the fail mode \<open>open\<close>, an error while
  the message is read (the size limit, a lost connection) counts as a failure of the checker: the bytes read so far are delivered
  and DATA is answered with success.  Without a checker the same input is refused.\<close>

theorem truncated_message_is_delivered:
  assumes "b_smDelivery b" "createSpamChecker client cfg = (Some chk, b_spamConfig b)" "b_spamChecker b = Some chk"
    and "sc_FailMode cfg = ''open''" "d_failed d"
    and "w_validate w = (\<lambda>n a i. Some vr)" "DomainIsLocal vr" "UserExists vr" "smtp_extractDomain a \<noteq> []"
    and "w_rand w = (\<lambda>n. Some rnd)" "w_deliver w = (\<lambda>n meta m. Some (Delivered f))"
    and "st = smtp_run b w [CMail sender, CRcpt a] (smtp_fresh lookup ip tls)"
  shows "(\<exists>later meta hdrs. fst (Data b w d st) = Accepted \<and> dm_Recipient meta = a \<and> trace (snd (Data b w d st)) =
      later @ EDeliver meta (messageBody (b_hostname b) hdrs (d_bytes d)) (Some (Delivered f)) # trace st)
    \<and> fst (Data (b\<lparr>b_spamChecker := None\<rparr>) w d st) = SMTPError 451 (4, 3, 0) ''Error reading message''"
proof -
  define s0 where "s0 = smtp_NewSession lookup ip tls"
  have s0: "s_authUser s0 = []" "s_recipients s0 = []" "s_remoteRecipients s0 = []" "s_deferredInvalidRecipient s0 = []"
    by (simp_all add: s0_def smtp_NewSession_def)
  have st: "sess st = s0\<lparr>s_from := sender, s_mailFromSeen := True, s_recipients := [a]\<rparr>"
    using assms s0 by (simp add: smtp_run_def Mail_def rate_check_def Rcpt_def has_recipient_def
        ValidateRecipient_def rcpt_validated_def Let_def flip: s0_def)
  have cfg: "IsEnabled cfg" "b_spamConfig b = cfg" using createSpamChecker_enabled[OF assms(2)] by simp_all
  have "Check (chk opts) d = (d_bytes d, None)" for opts
    using createSpamChecker_failed[of client cfg chk d opts] assms(2,5) by simp
  then have rc: "read_and_check b (sess st) d = (d_bytes d, Inr None)"
    using assms cfg by (simp add: read_and_check_def spam_decision_def GetFailMode_def)
  have g: "data_guard b (sess st) = None" "data_guard (b\<lparr>b_spamChecker := None\<rparr>) (sess st) = None"
    using assms(1) s0 st by (simp_all add: data_guard_def has_recipient_def)
  have "fst (Data (b\<lparr>b_spamChecker := None\<rparr>) w d st) = SMTPError 451 (4, 3, 0) ''Error reading message''"
    using assms(5) g by (simp add: Data_def read_and_check_def)
  moreover have "s_deferredInvalidRecipient (sess st) = []" by (simp add: st s0)
  then have data: "Data b w d st = hand_over b w None (d_bytes d) st" by (simp add: Data_def g rc)
  have "\<exists>later meta hdrs. fst (Data b w d st) = Accepted \<and> dm_Recipient meta = a \<and> trace (snd (Data b w d st)) =
      later @ EDeliver meta (messageBody (b_hostname b) hdrs (d_bytes d)) (Some (Delivered f)) # trace st"
    using assms(10,11) s0 st
    by (simp add: data hand_over_def smtp_newMsgID_def local_delivery_def Deliver_def remote_delivery_def NotifyNewMail_def
        Let_def) (auto intro!: exI)
  ultimately show ?thesis by blast
qed

definition demo_spam :: SpamCheckConfig where
  "demo_spam = \<lparr>sc_Enabled = True, sc_Checkers = [\<lparr>ck_Type = ''rspamd'', ck_Enabled = None, ck_URL = ''u''\<rparr>], sc_Mode = [],
     sc_FailMode = ''open'', sc_RejectThreshold = 15, sc_TempFailThreshold = 0, sc_AddHeaders = True\<rparr>"

definition demo_checked :: Backend where
  "demo_checked = demo_backend\<lparr>b_spamChecker := Some (\<lambda>opts. Single (\<lambda>m. None)), b_spamConfig := demo_spam\<rparr>"

definition demo_cut :: data_stream where
  "demo_cut = \<lparr>d_bytes = ''hi'', d_failed = True\<rparr>"

definition demo_local :: world where
  "demo_local = demo_world\<lparr>w_validate := (\<lambda>n a i. Some \<lparr>DomainIsLocal = True, UserExists = True, DeferRejection = False\<rparr>)\<rparr>"

definition demo_waiting :: smtp where
  "demo_waiting = smtp_run demo_checked demo_local [CMail ''x@d.e'', CRcpt ''bob@b.c''] demo_fresh"

theorem truncated_message_is_delivered_witness:
  "\<exists>later meta hdrs. fst (Data demo_checked demo_local demo_cut demo_waiting) = Accepted \<and> dm_Recipient meta = ''bob@b.c''
    \<and> trace (snd (Data demo_checked demo_local demo_cut demo_waiting)) =
      later @ EDeliver meta (messageBody ''mx'' hdrs ''hi'') (Some (Delivered ''INBOX'')) # trace demo_waiting"
proof -
  have dom: "smtp_extractDomain ''bob@b.c'' = ''b.c''" by (simp add: smtp_extractDomain_def strip_angle_def go_eval)
  have chk: "createSpamChecker (\<lambda>u opts m. None) demo_spam = (Some (\<lambda>opts. Single (\<lambda>m. None)), b_spamConfig demo_checked)"
    by (simp add: createSpamChecker_def IsEnabled_def checker_IsEnabled_def createCheckersFromConfig_def demo_spam_def
        demo_checked_def)
  have "\<exists>later meta hdrs. fst (Data demo_checked demo_local demo_cut demo_waiting) = Accepted \<and> dm_Recipient meta = ''bob@b.c''
      \<and> trace (snd (Data demo_checked demo_local demo_cut demo_waiting)) =
        later @ EDeliver meta (messageBody (b_hostname demo_checked) hdrs (d_bytes demo_cut)) (Some (Delivered ''INBOX''))
          # trace demo_waiting"
    by (rule truncated_message_is_delivered[where cfg = demo_spam and client = "\<lambda>u opts m. None"
          and vr = "\<lparr>DomainIsLocal = True, UserExists = True, DeferRejection = False\<rparr>" and rnd = "''0123456789abcdef''",
          THEN conjunct1, OF _ chk _ _ _ _ _ _ _ _ _ demo_waiting_def[unfolded demo_fresh_def]])
      (simp_all add: demo_checked_def demo_backend_def demo_spam_def demo_cut_def demo_local_def demo_world_def dom)
  then show ?thesis by (simp add: demo_checked_def demo_backend_def demo_cut_def)
qed

end
