(* ===== verification/UidList.thy ===== *)
theory UidList
  imports Prelude
begin

text \<open>
  The persistent UID list of a Maildir folder (\<open>msgstore/maildir/uidlist.go\<close>): the \<open>.uidlist\<close> file
  maps each Maildir key in \<open>cur/\<close> to an IMAP UID.  The file is modelled by its bytes, the list by
  the record of the source with its two lookup maps, and UIDs keep their 32 bits.  The directory
  listing is an argument, the clock of \<open>bootstrapUIDList\<close> too; a failing write leaves the old file.

  The interface \<open>persistent_uids\<close> states what the message store relies on; UIDs are shown never
  to be reused from its laws alone, and the list of the source is shown to satisfy them.
\<close>

section \<open>Data and operations\<close>

type_synonym uidEntry = "uint32 \<times> string"

record uidList =
  version :: int
  uidValidity :: uint32
  uidNext :: uint32
  entries :: "uidEntry list"
  keyToUID :: "string \<rightharpoonup> uint32"
  uidToKey :: "uint32 \<rightharpoonup> string"

datatype uid_error =
  UidOpenErr | UidEmptyFile | UidBadHeader string | UidBadVersion string | UidBadValidity string
| UidBadNext string | UidBadEntry string | UidScanErr | UidWriteErr

datatype uid_file = UidMissing | UidUnreadable | UidBytes string

definition uidlistVersion :: int where
  "uidlistVersion = 3"

definition parseHeader :: "string \<Rightarrow> uid_error + uidList" where
  "parseHeader line =
     (let parts = Fields line in
      if length parts \<noteq> 3 then Inl (UidBadHeader line)
      else case Atoi (parts ! 0) of
        None \<Rightarrow> Inl (UidBadVersion (parts ! 0))
      | Some v \<Rightarrow>
          if \<not> HasPrefix (parts ! 1) ''V'' then Inl (UidBadValidity (parts ! 1))
          else case ParseUint32 (drop 1 (parts ! 1)) of
            None \<Rightarrow> Inl (UidBadValidity (parts ! 1))
          | Some validity \<Rightarrow>
              if \<not> HasPrefix (parts ! 2) ''N'' then Inl (UidBadNext (parts ! 2))
              else case ParseUint32 (drop 1 (parts ! 2)) of
                None \<Rightarrow> Inl (UidBadNext (parts ! 2))
              | Some nxt \<Rightarrow> Inr \<lparr>version = v, uidValidity = validity, uidNext = nxt, entries = [],
                                keyToUID = Map.empty, uidToKey = Map.empty\<rparr>)"

definition parseEntry :: "string \<Rightarrow> uid_error + uidEntry" where
  "parseEntry line =
     (case CutByte (CHR '' '') line of
        None \<Rightarrow> Inl (UidBadEntry line)
      | Some (num, key) \<Rightarrow> (case ParseUint32 num of
          None \<Rightarrow> Inl (UidBadEntry line)
        | Some u \<Rightarrow> if key = [] then Inl (UidBadEntry line) else Inr (u, key)))"

definition add_entry :: "uidEntry \<Rightarrow> uidList \<Rightarrow> uidList" where
  "add_entry e u = u\<lparr>entries := entries u @ [e], keyToUID := (keyToUID u)(snd e \<mapsto> fst e),
                     uidToKey := (uidToKey u)(fst e \<mapsto> snd e)\<rparr>"

fun read_entries :: "string list \<Rightarrow> uidList \<Rightarrow> uid_error + uidList" where
  "read_entries [] u = Inr u"
| "read_entries (l # ls) u =
     (if l = [] then read_entries ls u
      else case parseEntry l of Inl e \<Rightarrow> Inl e | Inr e \<Rightarrow> read_entries ls (add_entry e u))"

definition readUIDList :: "uid_file \<Rightarrow> uid_error + uidList option" where
  "readUIDList f =
     (case f of
        UidMissing \<Rightarrow> Inr None
      | UidUnreadable \<Rightarrow> Inl UidOpenErr
      | UidBytes s \<Rightarrow> (case scan_lines s of
          [] \<Rightarrow> Inl UidEmptyFile
        | header # ls \<Rightarrow> (case parseHeader header of
            Inl e \<Rightarrow> Inl e
          | Inr u \<Rightarrow> (case read_entries ls u of
              Inl e \<Rightarrow> Inl e
            | Inr u' \<Rightarrow> if scan_err s then Inl UidScanErr else Inr (Some u')))))"

definition header_line :: "uidList \<Rightarrow> string" where
  "header_line u = fmt_int (version u) @ '' V'' @ itoa (unat (uidValidity u)) @
                   '' N'' @ itoa (unat (uidNext u))"

definition entry_line :: "uidEntry \<Rightarrow> string" where
  "entry_line e = itoa (unat (fst e)) @ '' '' @ snd e"

definition uidlist_bytes :: "uidList \<Rightarrow> string" where
  "uidlist_bytes u = concat (map (\<lambda>l. l @ [CHR 10]) (header_line u # map entry_line (entries u)))"

text \<open>\<open>write\<close>: everything goes to the temporary file; only the final rename touches the list.\<close>

definition write_uidlist :: "bool \<Rightarrow> uidList \<Rightarrow> uid_file \<Rightarrow> uid_file \<times> uid_error option" where
  "write_uidlist failed u f =
     (if failed then (f, Some UidWriteErr) else (UidBytes (uidlist_bytes u), None))"

fun drop_gone :: "string list \<Rightarrow> uidEntry list \<Rightarrow> uidList \<Rightarrow> uidList \<times> bool" where
  "drop_gone cur [] u = (u, False)"
| "drop_gone cur (e # es) u =
     (if snd e \<in> set cur then drop_gone cur es (u\<lparr>entries := entries u @ [e]\<rparr>)
      else (fst (drop_gone cur es (u\<lparr>keyToUID := (keyToUID u)(snd e := None),
                                     uidToKey := (uidToKey u)(fst e := None)\<rparr>)), True))"

definition assign_uid :: "string \<Rightarrow> uidList \<Rightarrow> uidList" where
  "assign_uid k u = (add_entry (uidNext u, k) u)\<lparr>uidNext := uidNext u + 1\<rparr>"

definition reconcile :: "string list \<Rightarrow> uidList \<Rightarrow> uidList \<times> bool" where
  "reconcile curKeys u =
     (let (u1, changed) = drop_gone curKeys (entries u) (u\<lparr>entries := []\<rparr>);
          newKeys = filter (\<lambda>k. keyToUID u1 k = None) curKeys
      in (fold assign_uid (sort newKeys) u1, changed \<or> newKeys \<noteq> []))"

definition bootstrapUIDList :: "int \<Rightarrow> string list \<Rightarrow> uidList" where
  "bootstrapUIDList now curKeys =
     fold assign_uid (sort curKeys)
       \<lparr>version = uidlistVersion, uidValidity = word_of_int now, uidNext = 1, entries = [],
        keyToUID = Map.empty, uidToKey = Map.empty\<rparr>"

definition loadOrBootstrapUIDList ::
  "int \<Rightarrow> bool \<Rightarrow> uid_file \<Rightarrow> string list \<Rightarrow> uid_file \<times> (uid_error + uidList)" where
  "loadOrBootstrapUIDList now write_fails f curKeys =
     (let (f1, loaded) = (case readUIDList f of
                            Inl e \<Rightarrow> (UidMissing, None)
                          | Inr r \<Rightarrow> (f, r))
      in case loaded of
           None \<Rightarrow>
             (let u = bootstrapUIDList now curKeys in
              case write_uidlist write_fails u f1 of
                (f2, Some e) \<Rightarrow> (f2, Inl e)
              | (f2, None) \<Rightarrow> (f2, Inr u))
         | Some u \<Rightarrow>
             (case reconcile curKeys u of
                (u', True) \<Rightarrow> (case write_uidlist write_fails u' f1 of
                    (f2, Some e) \<Rightarrow> (f2, Inl e)
                  | (f2, None) \<Rightarrow> (f2, Inr u'))
              | (u', False) \<Rightarrow> (f1, Inr u')))"

text \<open>\<open>curDirKeys\<close> on the listing of \<open>cur/\<close>: pairs of a file name and whether it is a directory.\<close>

definition key_of_name :: "string \<Rightarrow> string" where
  "key_of_name name = (case CutByte (CHR '':'') name of None \<Rightarrow> name | Some (k, _) \<Rightarrow> k)"

definition curDirKeys :: "(string \<times> bool) list \<Rightarrow> string list" where
  "curDirKeys listing = map (key_of_name \<circ> fst) (filter (\<lambda>e. \<not> snd e) listing)"

section \<open>Well-formed lists\<close>

definition uid_wf :: "uidList \<Rightarrow> bool" where
  "uid_wf u = (sorted_wrt (<) (map fst (entries u)) \<and> distinct (map snd (entries u)) \<and>
     (\<forall>e \<in> set (entries u). fst e < uidNext u) \<and>
     keyToUID u = map_of (map (\<lambda>(i, k). (k, i)) (entries u)) \<and>
     uidToKey u = map_of (entries u))"

text \<open>The interface the message store uses: a list of keys synchronised with a directory, handing
  out numbers from a counter.\<close>

locale persistent_uids =
  fixes wf :: "'s \<Rightarrow> bool"
    and uid_of :: "'s \<Rightarrow> string \<rightharpoonup> uint32"
    and nxt :: "'s \<Rightarrow> nat"
    and sync :: "string list \<Rightarrow> 's \<Rightarrow> 's"
  assumes uid_inj: "wf s \<Longrightarrow> uid_of s k = Some i \<Longrightarrow> uid_of s k' = Some i \<Longrightarrow> k = k'"
    and uid_below: "wf s \<Longrightarrow> uid_of s k = Some i \<Longrightarrow> unat i < nxt s"
    and sync_wf: "wf s \<Longrightarrow> distinct ks \<Longrightarrow> nxt s + length ks < 2 ^ 32 \<Longrightarrow> wf (sync ks s)"
    and sync_keys: "wf s \<Longrightarrow> distinct ks \<Longrightarrow> nxt s + length ks < 2 ^ 32 \<Longrightarrow>
                    dom (uid_of (sync ks s)) = set ks"
    and sync_uid: "wf s \<Longrightarrow> distinct ks \<Longrightarrow> nxt s + length ks < 2 ^ 32 \<Longrightarrow>
                   uid_of (sync ks s) k = Some i \<Longrightarrow> uid_of s k = Some i \<or> uid_of s k = None \<and> nxt s \<le> unat i"
    and sync_nxt: "wf s \<Longrightarrow> distinct ks \<Longrightarrow> nxt s + length ks < 2 ^ 32 \<Longrightarrow>
                   nxt s \<le> nxt (sync ks s) \<and> nxt (sync ks s) \<le> nxt s + length ks"
begin

lemma run_ok:
  "wf s \<Longrightarrow> \<forall>ks \<in> set kss. distinct ks \<Longrightarrow> nxt s + sum_list (map length kss) < 2 ^ 32 \<Longrightarrow>
   wf (fold sync kss s) \<and> nxt s \<le> nxt (fold sync kss s)"
proof (induction kss arbitrary: s)
  case (Cons ks kss)
  have step: "wf (sync ks s)" "nxt s \<le> nxt (sync ks s)" "nxt (sync ks s) \<le> nxt s + length ks"
    using Cons.prems sync_wf[of s ks] sync_nxt[of s ks] by auto
  have "wf (fold sync kss (sync ks s)) \<and> nxt (sync ks s) \<le> nxt (fold sync kss (sync ks s))"
    using Cons.prems step by (intro Cons.IH) auto
  then show ?case using step by auto
qed simp

lemma old_uid_inherited:
  "wf s \<Longrightarrow> \<forall>ks \<in> set kss. distinct ks \<Longrightarrow> nxt s + sum_list (map length kss) < 2 ^ 32 \<Longrightarrow>
   uid_of (fold sync kss s) k = Some i \<Longrightarrow> unat i < nxt s \<Longrightarrow> uid_of s k = Some i"
proof (induction kss arbitrary: s)
  case (Cons ks kss)
  have step: "wf (sync ks s)" "nxt s \<le> nxt (sync ks s)" "nxt (sync ks s) \<le> nxt s + length ks"
    using Cons.prems sync_wf[of s ks] sync_nxt[of s ks] by auto
  have "uid_of (sync ks s) k = Some i"
    by (rule Cons.IH) (use Cons.prems step in auto)
  then show ?case
    using Cons.prems sync_uid[of s ks k i] by auto
qed simp

lemma run_nxt:
  "wf s \<Longrightarrow> \<forall>ks \<in> set kss. distinct ks \<Longrightarrow> nxt s + sum_list (map length kss) < 2 ^ 32 \<Longrightarrow>
   nxt (fold sync kss s) \<le> nxt s + sum_list (map length kss)"
proof (induction kss arbitrary: s)
  case (Cons ks kss)
  have step: "wf (sync ks s)" "nxt (sync ks s) \<le> nxt s + length ks"
    using Cons.prems sync_wf[of s ks] sync_nxt[of s ks] by auto
  have "nxt (fold sync kss (sync ks s)) \<le> nxt (sync ks s) + sum_list (map length kss)"
    using Cons.prems step by (intro Cons.IH) auto
  then show ?case using step by simp
qed simp

lemma never_reused:
  assumes "wf s" "\<forall>ks \<in> set (kss @ later). distinct ks"
    and "nxt s + sum_list (map length (kss @ later)) < 2 ^ 32"
    and "uid_of (fold sync kss s) k = Some i" "uid_of (fold sync (kss @ later) s) k' = Some i"
  shows "k = k'"
proof -
  let ?t = "fold sync kss s"
  have t: "wf ?t" "nxt ?t \<le> nxt s + sum_list (map length kss)"
    using run_ok[of s kss] run_nxt[of s kss] assms(1-3) by auto
  have "uid_of ?t k' = Some i"
    by (rule old_uid_inherited[OF t(1), of later])
       (use assms t(2) uid_below[OF t(1) assms(4)] in auto)
  then show ?thesis by (rule uid_inj[OF t(1) assms(4)])
qed

end

section \<open>Reconciling keeps the list well formed\<close>

lemma map_of_swap_iff:
  "distinct (map snd es) \<Longrightarrow> map_of (map (\<lambda>(i, k). (k, i)) es) k = Some i \<longleftrightarrow> (i, k) \<in> set es"
  by (subst map_of_eq_Some_iff) (force simp: comp_def case_prod_unfold)+

lemma uid_wf_iff:
  "uid_wf u \<longleftrightarrow> sorted_wrt (<) (map fst (entries u)) \<and> distinct (map snd (entries u)) \<and>
     (\<forall>e \<in> set (entries u). fst e < uidNext u) \<and>
     (\<forall>k i. keyToUID u k = Some i \<longleftrightarrow> (i, k) \<in> set (entries u)) \<and>
     (\<forall>i k. uidToKey u i = Some k \<longleftrightarrow> (i, k) \<in> set (entries u))"
  (is "_ \<longleftrightarrow> ?sorted \<and> ?distinct \<and> ?below \<and> ?k2u \<and> ?u2k")
proof (cases "?sorted \<and> ?distinct")
  case True
  then have d: "distinct (map fst (entries u))" by (simp add: strict_sorted_iff)
  have "keyToUID u = map_of (map (\<lambda>(i, k). (k, i)) (entries u)) \<longleftrightarrow> ?k2u"
    using True by (simp add: map_eq_Some_iff map_of_swap_iff)
  moreover have "uidToKey u = map_of (entries u) \<longleftrightarrow> ?u2k"
    using map_of_eq_Some_iff[OF d] by (simp add: map_eq_Some_iff)
  ultimately show ?thesis by (simp add: uid_wf_def)
qed (auto simp: uid_wf_def)

lemma uid_wfD:
  assumes "uid_wf u"
  shows "sorted_wrt (<) (map fst (entries u))" "distinct (map snd (entries u))"
    "e \<in> set (entries u) \<Longrightarrow> fst e < uidNext u"
    "keyToUID u k = Some i \<longleftrightarrow> (i, k) \<in> set (entries u)"
    "uidToKey u i = Some k \<longleftrightarrow> (i, k) \<in> set (entries u)"
  using assms by (auto simp: uid_wf_iff)

lemma uid_wf_dom:
  assumes "uid_wf u"
  shows "dom (keyToUID u) = snd ` set (entries u)"
  unfolding dom_def using uid_wfD(4)[OF assms] by (auto simp: image_iff) force

lemma uid_wf_None:
  assumes "uid_wf u"
  shows "keyToUID u k = None \<longleftrightarrow> k \<notin> snd ` set (entries u)"
  using uid_wf_dom[OF assms] by (metis domIff)

lemma drop_gone_fields [simp]:
  "version (fst (drop_gone cur es u)) = version u"
  "uidValidity (fst (drop_gone cur es u)) = uidValidity u"
  "uidNext (fst (drop_gone cur es u)) = uidNext u"
  "entries (fst (drop_gone cur es u)) = entries u @ filter (\<lambda>e. snd e \<in> set cur) es"
  "snd (drop_gone cur es u) \<longleftrightarrow> (\<exists>e \<in> set es. snd e \<notin> set cur)"
  by (induction cur es u rule: drop_gone.induct) auto

lemma drop_gone_maps:
  "keyToUID (fst (drop_gone cur es u)) k =
     (if k \<notin> set cur \<and> k \<in> snd ` set es then None else keyToUID u k)"
  "uidToKey (fst (drop_gone cur es u)) i =
     (if \<exists>e \<in> set es. fst e = i \<and> snd e \<notin> set cur then None else uidToKey u i)"
  by (induction cur es u rule: drop_gone.induct) auto

lemma uid_wf_drop_gone:
  assumes wf: "uid_wf u"
  shows "uid_wf (fst (drop_gone cur (entries u) (u\<lparr>entries := []\<rparr>)))" (is "uid_wf ?v")
proof -
  note w = uid_wfD[OF wf]
  have "sorted_wrt (<) (map fst (entries ?v))"
    using w(1) by (simp add: sorted_wrt_map sorted_wrt_filter)
  moreover have "distinct (map snd (entries ?v))"
    using w(2) by (simp add: distinct_map_filter)
  moreover have "keyToUID ?v k = Some i \<longleftrightarrow> (i, k) \<in> set (entries ?v)" for k i
    using w(4)[of k i] by (force simp: drop_gone_maps)
  moreover have "uidToKey ?v i = Some k \<longleftrightarrow> (i, k) \<in> set (entries ?v)" for i k
  proof (cases "(i, k) \<in> set (entries u)")
    case True
    have uniq: "snd e = k" if "e \<in> set (entries u)" "fst e = i" for e
      using w(5)[of i k] w(5)[of i "snd e"] True that by (cases e) simp
    have "(\<exists>e \<in> set (entries u). fst e = i \<and> snd e \<notin> set cur) \<longleftrightarrow> k \<notin> set cur" (is "?L \<longleftrightarrow> _")
    proof
      assume ?L
      then show "k \<notin> set cur" using uniq by blast
    next
      assume "k \<notin> set cur"
      then show ?L by (intro bexI[OF _ True]) simp
    qed
    then show ?thesis using True w(5)[of i k] by (simp add: drop_gone_maps)
  next
    case False
    then show ?thesis using w(5)[of i k] by (simp add: drop_gone_maps)
  qed
  ultimately show ?thesis
    using w(3) by (simp add: uid_wf_iff)
qed

lemma assign_uid_fields [simp]:
  "uidNext (assign_uid k u) = uidNext u + 1"
  "entries (assign_uid k u) = entries u @ [(uidNext u, k)]"
  "keyToUID (assign_uid k u) = (keyToUID u)(k \<mapsto> uidNext u)"
  "uidToKey (assign_uid k u) = (uidToKey u)(uidNext u \<mapsto> k)"
  "version (assign_uid k u) = version u" "uidValidity (assign_uid k u) = uidValidity u"
  by (simp_all add: assign_uid_def add_entry_def)

lemma less_succ_word:
  "unat (n :: uint32) + 1 < 2 ^ 32 \<Longrightarrow> unat (n + 1) = unat n + 1"
  by (simp add: unat_word_ariths)

lemma uid_wf_assign_uid:
  assumes "uid_wf u" "keyToUID u k = None" "unat (uidNext u) + 1 < 2 ^ 32"
  shows "uid_wf (assign_uid k u)"
proof -
  note w = uid_wfD[OF assms(1)]
  have fresh: "k \<notin> snd ` set (entries u)" "(i, k) \<notin> set (entries u)" "(uidNext u, k') \<notin> set (entries u)" for i k'
    using w(3)[of "(uidNext u, k')"] w(4)[of k i] assms(2) w(4)[of k] by force+
  have "uidNext u < uidNext u + 1" "e \<in> set (entries u) \<Longrightarrow> fst e < uidNext u + 1" for e
    using less_succ_word[OF assms(3)] w(3)[of e] by (auto simp: word_less_nat_alt)
  then show ?thesis
    using w fresh by (auto simp: uid_wf_iff sorted_wrt_append)
qed

lemma fold_assign_uid:
  assumes "uid_wf u" "distinct ks" "\<forall>k \<in> set ks. keyToUID u k = None"
    and "unat (uidNext u) + length ks < 2 ^ 32"
  shows "uid_wf (fold assign_uid ks u) \<and>
    unat (uidNext (fold assign_uid ks u)) = unat (uidNext u) + length ks \<and>
    (\<exists>new. entries (fold assign_uid ks u) = entries u @ new \<and> map snd new = ks \<and>
           (\<forall>e \<in> set new. unat (uidNext u) \<le> unat (fst e)))"
  using assms
proof (induction ks arbitrary: u)
  case (Cons k ks)
  let ?v = "assign_uid k u"
  have v: "uid_wf ?v" "unat (uidNext ?v) = unat (uidNext u) + 1"
    using Cons.prems uid_wf_assign_uid[of u k] less_succ_word[of "uidNext u"] by auto
  have "\<forall>k' \<in> set ks. keyToUID ?v k' = None" using Cons.prems by auto
  from Cons.IH[OF v(1) _ this] obtain new where
    n: "uid_wf (fold assign_uid ks ?v)"
       "unat (uidNext (fold assign_uid ks ?v)) = unat (uidNext ?v) + length ks"
       "entries (fold assign_uid ks ?v) = entries ?v @ new" "map snd new = ks"
       "\<forall>e \<in> set new. unat (uidNext ?v) \<le> unat (fst e)"
    using Cons.prems v(2) by auto
  then show ?case using v(2) by (auto intro!: exI[of _ "(uidNext u, k) # new"])
qed simp

lemma reconcile_spec:
  assumes wf: "uid_wf u" and d: "distinct ks" and room: "unat (uidNext u) + length ks < 2 ^ 32"
  defines "v \<equiv> fst (reconcile ks u)"
  shows "uid_wf v"
    and "snd ` set (entries v) = set ks"
    and "keyToUID v k = Some i \<Longrightarrow>
           keyToUID u k = Some i \<or> keyToUID u k = None \<and> unat (uidNext u) \<le> unat i"
    and "k \<in> set ks \<Longrightarrow> keyToUID u k = Some i \<Longrightarrow> keyToUID v k = Some i"
    and "unat (uidNext u) \<le> unat (uidNext v)" "unat (uidNext v) \<le> unat (uidNext u) + length ks"
proof -
  define u1 where "u1 = fst (drop_gone ks (entries u) (u\<lparr>entries := []\<rparr>))"
  define new where "new = filter (\<lambda>k. keyToUID u1 k = None) ks"
  have v: "v = fold assign_uid (sort new) u1"
    by (simp add: v_def reconcile_def u1_def new_def case_prod_unfold Let_def)
  have u1: "uid_wf u1" "uidNext u1 = uidNext u"
    "entries u1 = filter (\<lambda>e. snd e \<in> set ks) (entries u)"
    using uid_wf_drop_gone[OF wf] by (simp_all add: u1_def)
  have len: "length (sort new) \<le> length ks" by (simp add: new_def)
  have room': "unat (uidNext u1) + length (sort new) < 2 ^ 32"
    using room len unfolding u1(2) by linarith
  have "distinct (sort new)" "\<forall>k \<in> set (sort new). keyToUID u1 k = None"
    using d by (simp_all add: new_def)
  from fold_assign_uid[OF u1(1) this room'] obtain es where spec:
    "uid_wf v" "unat (uidNext v) = unat (uidNext u1) + length (sort new)"
    "entries v = entries u1 @ es" "map snd es = sort new"
    "\<forall>e \<in> set es. unat (uidNext u1) \<le> unat (fst e)"
    unfolding v by blast
  have es: "snd ` set es = set new"
    using arg_cong[OF spec(4), of set] by simp
  show "uid_wf v" by (rule spec(1))
  show "snd ` set (entries v) = set ks"
    unfolding spec(3) using es u1(3) by (auto simp: new_def uid_wf_None[OF u1(1)])
  show "unat (uidNext u) \<le> unat (uidNext v)" "unat (uidNext v) \<le> unat (uidNext u) + length ks"
    using spec(2) u1(2) len by auto
  show "keyToUID v k = Some i" if "k \<in> set ks" "keyToUID u k = Some i"
    using that uid_wfD(4)[OF wf, of k i] uid_wfD(4)[OF spec(1), of k i] by (simp add: spec(3) u1(3))
  show "keyToUID u k = Some i \<or> keyToUID u k = None \<and> unat (uidNext u) \<le> unat i"
    if "keyToUID v k = Some i"
  proof (cases "(i, k) \<in> set (entries u1)")
    case True
    then show ?thesis using uid_wfD(4)[OF wf, of k i] u1(3) by simp
  next
    case False
    then have m: "(i, k) \<in> set es" using that uid_wfD(4)[OF spec(1), of k i] by (simp add: spec(3))
    then have k: "k \<in> set new" using es by force
    have "keyToUID u k = None"
      using k by (auto simp: new_def uid_wf_None[OF u1(1)] uid_wf_None[OF wf] u1(3))
    then show ?thesis using spec(5) m u1(2) by force
  qed
qed

text \<open>Nothing changes exactly when \<open>reconcile\<close> reports so: the list then matched the directory.\<close>

lemma drop_gone_none:
  "\<forall>e \<in> set es. snd e \<in> set cur \<Longrightarrow> drop_gone cur es u = (u\<lparr>entries := entries u @ es\<rparr>, False)"
  by (induction cur es u rule: drop_gone.induct) auto

lemma reconcile_unchanged:
  assumes "\<not> snd (reconcile ks u)"
  shows "fst (reconcile ks u) = u"
proof -
  have all: "\<forall>e \<in> set (entries u). snd e \<in> set ks"
    using assms by (auto simp: reconcile_def case_prod_unfold Let_def)
  show ?thesis
    using assms by (simp add: reconcile_def drop_gone_none[OF all] case_prod_unfold Let_def)
qed

interpretation ul: persistent_uids uid_wf keyToUID "\<lambda>u. unat (uidNext u)" "\<lambda>ks u. fst (reconcile ks u)"
proof (standard, goal_cases)
  case (1 s k i k')
  then show ?case
    using uid_wfD(4)[OF 1(1), of k i] uid_wfD(4)[OF 1(1), of k' i] uid_wfD(5)[OF 1(1), of i k]
      uid_wfD(5)[OF 1(1), of i k'] by simp
next
  case (2 s k i)
  then show ?case using uid_wfD(3)[OF 2(1), of "(i, k)"] uid_wfD(4)[OF 2(1)]
    by (simp add: word_less_nat_alt)
next
  case (3 s ks)
  then show ?case by (rule reconcile_spec(1))
next
  case (4 s ks)
  then show ?case using uid_wf_dom[OF reconcile_spec(1)] reconcile_spec(2) by metis
next
  case (5 s ks k i)
  then show ?case by (rule reconcile_spec(3))
next
  case (6 s ks)
  then show ?case using reconcile_spec(5,6) by blast
qed

section \<open>The file format round-trips\<close>

text \<open>Keys that a line of the file can carry.\<close>

definition key_ok :: "string \<Rightarrow> bool" where
  "key_ok k = (k \<noteq> [] \<and> CHR 10 \<notin> set k \<and> last k \<noteq> CHR 13 \<and> length k \<le> 65524)"

definition uid_printable :: "uidList \<Rightarrow> bool" where
  "uid_printable u = (uid_wf u \<and> 0 \<le> version u \<and> version u < 2 ^ 63 \<and>
                      list_all (key_ok \<circ> snd) (entries u))"

lemma digits_no_space: "c \<in> set (itoa n) \<Longrightarrow> c \<noteq> CHR 32 \<and> c \<noteq> CHR 10 \<and> c \<noteq> CHR 13"
  using itoa_set_digit[of c n] by (auto simp: is_digit_def)

lemma parseEntry_line:
  "snd e \<noteq> [] \<Longrightarrow> parseEntry (entry_line e) = Inr e"
proof -
  assume "snd e \<noteq> []"
  moreover have "CutByte (CHR '' '') (entry_line e) = Some (itoa (unat (fst e)), snd e)"
    using digits_no_space by (auto simp: entry_line_def CutByte_Some_iff)
  ultimately show ?thesis by (simp add: parseEntry_def)
qed

lemma parseHeader_line:
  assumes "0 \<le> version u" "version u < 2 ^ 63"
  shows "parseHeader (header_line u) =
           Inr (u\<lparr>entries := [], keyToUID := Map.empty, uidToKey := Map.empty\<rparr>)"
proof -
  obtain n where n: "version u = int n" "n < 2 ^ 63"
    using assms by (metis nat_0_le nat_less_iff of_nat_numeral of_nat_power zless_nat_eq_int_zless)
  let ?v = "itoa (unat (uidValidity u))" and ?n = "itoa (unat (uidNext u))"
  have "header_line u = itoa n @ CHR 32 # (CHR ''V'' # ?v) @ CHR 32 # (CHR ''N'' # ?n)"
    by (simp add: header_line_def n(1))
  moreover have "Fields (itoa n @ CHR 32 # (CHR ''V'' # ?v) @ CHR 32 # (CHR ''N'' # ?n)) =
      [itoa n, CHR ''V'' # ?v, CHR ''N'' # ?n]"
  proof -
    have sp: "is_space (CHR 32)" "\<not> is_space (CHR ''V'')" "\<not> is_space (CHR ''N'')"
      by (simp_all add: is_space_def)
    have "Fields (CHR ''N'' # ?n) = [CHR ''N'' # ?n]"
      by (rule Fields_last_word) (use sp itoa_no_space in auto)
    moreover have "Fields ((CHR ''V'' # ?v) @ CHR 32 # (CHR ''N'' # ?n)) =
        (CHR ''V'' # ?v) # Fields (CHR ''N'' # ?n)"
      by (rule Fields_word) (use sp itoa_no_space in auto)
    moreover have "Fields (itoa n @ CHR 32 # t) = itoa n # Fields t" for t
      by (rule Fields_word) (use sp itoa_no_space in auto)
    ultimately show ?thesis by simp
  qed
  ultimately show ?thesis
    using n by (simp add: parseHeader_def HasPrefix_def)
qed

lemma fold_add_entry:
  "entries (fold add_entry es u) = entries u @ es"
  "keyToUID (fold add_entry es u) = keyToUID u ++ map_of (rev (map (\<lambda>(i, k). (k, i)) es))"
  "uidToKey (fold add_entry es u) = uidToKey u ++ map_of (rev es)"
  "version (fold add_entry es u) = version u" "uidValidity (fold add_entry es u) = uidValidity u"
  "uidNext (fold add_entry es u) = uidNext u"
  by (induction es arbitrary: u) (auto simp: add_entry_def map_add_def fun_eq_iff split: option.splits)

lemma map_of_rev_distinct:
  assumes "distinct (map fst xs)"
  shows "map_of (rev xs) = map_of xs"
  using assms by (simp add: map_eq_Some_iff map_of_eq_Some_iff rev_map[symmetric])

lemma read_back_entries:
  assumes "uid_wf v"
  shows "fold add_entry (entries v) (v\<lparr>entries := [], keyToUID := Map.empty, uidToKey := Map.empty\<rparr>) = v"
proof -
  let ?sw = "map (\<lambda>(i, k). (k, i)) (entries v)"
  have "distinct (map fst ?sw)" "distinct (map fst (entries v))"
    using assms by (auto simp: uid_wf_def strict_sorted_iff comp_def case_prod_unfold)
  then show ?thesis
    using assms by (intro uidList.equality) (simp_all add: fold_add_entry map_of_rev_distinct uid_wf_def)
qed

lemma read_entries_lines:
  "list_all (key_ok \<circ> snd) es \<Longrightarrow> read_entries (map entry_line es) u = Inr (fold add_entry es u)"
  by (induction es arbitrary: u) (auto simp: parseEntry_line key_ok_def, auto simp: entry_line_def)

lemma entry_line_ok:
  assumes "key_ok (snd e)"
  shows "CHR 10 \<notin> set (entry_line e) \<and> drop_cr (entry_line e) = entry_line e \<and> line_fits (entry_line e)"
proof -
  have "length (itoa (unat (fst e))) \<le> 10" by (rule length_itoa_unat)
  then show ?thesis
    using assms digits_no_space
    by (auto simp: entry_line_def key_ok_def drop_cr_def line_fits_def)
qed

lemma header_line_ok:
  assumes "0 \<le> version u" "version u < 2 ^ 63"
  shows "CHR 10 \<notin> set (header_line u) \<and> drop_cr (header_line u) = header_line u \<and>
         line_fits (header_line u)"
proof -
  have "nat (version u) < 2 ^ 63" using assms by (simp add: nat_less_iff)
  then have "length (itoa (nat (version u))) \<le> 19"
    by (intro length_itoa) (auto intro: less_trans)
  then have "line_fits (header_line u)"
    using assms(1) length_itoa_unat[of "uidValidity u"] length_itoa_unat[of "uidNext u"]
    by (simp add: header_line_def fmt_int_def line_fits_def)
  moreover have "CHR 10 \<notin> set (header_line u)" "CHR 13 \<notin> set (header_line u)"
    using assms(1) digits_no_space by (auto simp: header_line_def fmt_int_def)
  ultimately show ?thesis by simp
qed

lemma read_written:
  assumes "uid_printable u"
  shows "readUIDList (UidBytes (uidlist_bytes u)) = Inr (Some u)"
proof -
  let ?ls = "header_line u # map entry_line (entries u)"
  have a: "0 \<le> version u" "version u < 2 ^ 63" "uid_wf u" "list_all (key_ok \<circ> snd) (entries u)"
    using assms by (auto simp: uid_printable_def)
  have "\<forall>l \<in> set ?ls. CHR 10 \<notin> set l \<and> drop_cr l = l \<and> line_fits l"
    using header_line_ok[OF a(1,2)] a(4) entry_line_ok by (auto simp: list_all_iff)
  from scan_lines_concat[OF this]
  have "scan_lines (uidlist_bytes u) = ?ls" "\<not> scan_err (uidlist_bytes u)"
    by (simp_all add: uidlist_bytes_def)
  then show ?thesis
    using a by (simp add: readUIDList_def parseHeader_line read_entries_lines read_back_entries)
qed

lemma bootstrap_spec:
  fixes now :: int
  assumes "distinct ks" "length ks + 1 < 2 ^ 32"
  defines "u \<equiv> bootstrapUIDList now ks"
  shows "uid_wf u" "map snd (entries u) = sort ks" "unat (uidNext u) = length ks + 1"
    "version u = 3" "uidValidity u = word_of_int now"
proof -
  let ?u0 = "\<lparr>version = uidlistVersion, uidValidity = word_of_int now, uidNext = 1, entries = [],
              keyToUID = Map.empty, uidToKey = Map.empty\<rparr> :: uidList"
  have "uid_wf ?u0" by (simp add: uid_wf_def)
  from fold_assign_uid[OF this, of "sort ks"] assms
  show "uid_wf u" "map snd (entries u) = sort ks" "unat (uidNext u) = length ks + 1"
    by (auto simp: u_def bootstrapUIDList_def)
  have "version (fold assign_uid xs v) = version v \<and>
        uidValidity (fold assign_uid xs v) = uidValidity v" for xs v
    by (induction xs arbitrary: v) auto
  then show "version u = 3" "uidValidity u = word_of_int now"
    by (simp_all add: u_def bootstrapUIDList_def uidlistVersion_def)
qed

lemma reconcile_version: "version (fst (reconcile ks u)) = version u"
proof -
  have "version (fold assign_uid xs v) = version v" for xs v
    by (induction xs arbitrary: v) auto
  then show ?thesis by (simp add: reconcile_def case_prod_unfold Let_def)
qed

text \<open>Loading always ends with a list that matches the directory and that the file on disk holds;
  the room condition is on the list that was read, or on a fresh one.\<close>

definition next_uid_of :: "uid_file \<Rightarrow> nat" where
  "next_uid_of f = (case readUIDList f of Inr (Some u) \<Rightarrow> unat (uidNext u) | _ \<Rightarrow> 1)"

definition file_wf :: "uid_file \<Rightarrow> bool" where
  "file_wf f = (case readUIDList f of Inr (Some u) \<Rightarrow> uid_printable u | _ \<Rightarrow> True)"

lemma printable_reconcile:
  assumes "uid_printable u" "distinct ks" "unat (uidNext u) + length ks < 2 ^ 32" "list_all key_ok ks"
  shows "uid_printable (fst (reconcile ks u))"
proof -
  have wf: "uid_wf u" using assms(1) by (simp add: uid_printable_def)
  have "list_all (key_ok \<circ> snd) (entries (fst (reconcile ks u)))"
    using reconcile_spec(2)[OF wf assms(2,3)] assms(4) by (auto simp: list_all_iff)
  then show ?thesis
    using assms(1) reconcile_spec(1)[OF wf assms(2,3)] by (simp add: uid_printable_def reconcile_version)
qed

lemma load_spec:
  assumes "file_wf f" "distinct ks" "list_all key_ok ks" "next_uid_of f + length ks < 2 ^ 32"
    and "loadOrBootstrapUIDList now False f ks = (f', r)"
  shows "\<exists>u. r = Inr u \<and> uid_printable u \<and> snd ` set (entries u) = set ks \<and>
             readUIDList f' = Inr (Some u)"
proof (cases "\<exists>u. readUIDList f = Inr (Some u)")
  case True
  then obtain u where u: "readUIDList f = Inr (Some u)" by blast
  then have pr: "uid_printable u" and wf: "uid_wf u" and room: "unat (uidNext u) + length ks < 2 ^ 32"
    using assms(1,4) by (auto simp: file_wf_def next_uid_of_def uid_printable_def)
  obtain v c where v: "reconcile ks u = (v, c)" by fastforce
  then have "uid_printable v" "snd ` set (entries v) = set ks"
    using printable_reconcile[OF pr assms(2) room assms(3)] reconcile_spec(2)[OF wf assms(2) room]
    by simp_all
  moreover have "\<not> c \<Longrightarrow> v = u" using reconcile_unchanged[of ks u] v by simp
  ultimately show ?thesis
    using assms(5) u v
    by (cases c) (auto simp: loadOrBootstrapUIDList_def write_uidlist_def read_written)
next
  case False
  let ?u = "bootstrapUIDList now ks"
  have "next_uid_of f = 1"
    using False by (auto simp: next_uid_of_def split: sum.splits option.splits)
  then have room: "length ks + 1 < 2 ^ 32" using assms(4) by simp
  note b = bootstrap_spec[OF assms(2) room, of now]
  have keys: "snd ` set (entries ?u) = set ks" using arg_cong[OF b(2), of set] by simp
  then have "uid_printable ?u" using b assms(3) by (auto simp: uid_printable_def list_all_iff)
  moreover have "(f', r) = (UidBytes (uidlist_bytes ?u), Inr ?u)"
    using assms(5) False
    by (auto simp: loadOrBootstrapUIDList_def write_uidlist_def Let_def split: sum.splits option.splits)
  ultimately show ?thesis using keys read_written by auto
qed

section \<open>Properties\<close>

text \<open>C11: a UID is never reused.  Take any well-formed list and reconcile it with any sequence of
  directory listings (keys without repetition, as long as the 32-bit counter has room).  If some UID
  belongs to one key at some point and to a key at a later point, the keys are the same: a deleted
  message's UID is never given to another message.\<close>

theorem uids_never_reused:
  assumes "uid_wf u" "\<forall>ks \<in> set (kss @ later). distinct ks"
    and "unat (uidNext u) + sum_list (map length (kss @ later)) < 2 ^ 32"
    and "keyToUID (fold (\<lambda>ks v. fst (reconcile ks v)) kss u) k = Some i"
    and "keyToUID (fold (\<lambda>ks v. fst (reconcile ks v)) (kss @ later) u) k' = Some i"
  shows "k = k'"
  using assms by (rule ul.never_reused)

theorem uids_never_reused_witness:
  "\<exists>u i. keyToUID (fold (\<lambda>ks v. fst (reconcile ks v)) [[''b'']] u) ''b'' = Some i \<and>
     keyToUID (fold (\<lambda>ks v. fst (reconcile ks v)) ([[''b'']] @ [[''c'', ''b'']]) u) ''b'' = Some i \<and>
     ''b'' = (''b'' :: string)"
proof -
  let ?u = "bootstrapUIDList 1000 [''a'', ''b'']"
  let ?r = "\<lambda>ks v. fst (reconcile ks v)"
  have u: "uid_wf ?u" by (rule bootstrap_spec(1)) simp_all
  have n: "unat (uidNext ?u) + sum_list (map length ([[''b'']] @ [[''c'', ''b'']])) < 2 ^ 32"
    using bootstrap_spec(3)[of "[''a'', ''b'']" 1000] by simp
  have k: "keyToUID (fold ?r [[''b'']] ?u) ''b'' = Some 2"
    by (simp add: bootstrapUIDList_def reconcile_def assign_uid_def add_entry_def)
  have k': "keyToUID (fold ?r ([[''b'']] @ [[''c'', ''b'']]) ?u) ''b'' = Some 2"
    by (simp add: bootstrapUIDList_def reconcile_def assign_uid_def add_entry_def)
  have "''b'' = (''b'' :: string)"
    by (rule uids_never_reused[OF u _ n k k']) simp
  with k k' show ?thesis by blast
qed

text \<open>Reconciling tracks the directory.  The result is well formed again (UIDs strictly ascending
  and below the next one, keys distinct, both lookup maps agreeing with the entries), lists exactly
  the keys of the directory, leaves the UID of every key that stayed, and gives each new key a UID not
  below the old next UID.\<close>

theorem reconcile_tracks_directory:
  assumes "uid_wf u" "distinct ks" "unat (uidNext u) + length ks < 2 ^ 32"
  shows "uid_wf (fst (reconcile ks u)) \<and>
     dom (keyToUID (fst (reconcile ks u))) = set ks \<and>
     (\<forall>k \<in> set ks. case keyToUID u k of
        Some i \<Rightarrow> keyToUID (fst (reconcile ks u)) k = Some i
      | None \<Rightarrow> \<exists>i. keyToUID (fst (reconcile ks u)) k = Some i \<and> uidNext u \<le> i)"
proof -
  note r = reconcile_spec[OF assms]
  have d: "dom (keyToUID (fst (reconcile ks u))) = set ks" by (rule ul.sync_keys[OF assms])
  have "case keyToUID u k of Some i \<Rightarrow> keyToUID (fst (reconcile ks u)) k = Some i
      | None \<Rightarrow> \<exists>i. keyToUID (fst (reconcile ks u)) k = Some i \<and> uidNext u \<le> i"
    if k: "k \<in> set ks" for k
  proof (cases "keyToUID u k")
    case None
    obtain i where "keyToUID (fst (reconcile ks u)) k = Some i" using d k by blast
    then show ?thesis using r(3)[of k i] None by (auto simp: word_le_nat_alt)
  qed (use r(4) k in simp)
  then show ?thesis using r(1) d by blast
qed

theorem reconcile_tracks_directory_witness:
  "uid_wf (fst (reconcile [''c'', ''b''] (bootstrapUIDList 1000 [''a'', ''b'']))) \<and>
   dom (keyToUID (fst (reconcile [''c'', ''b''] (bootstrapUIDList 1000 [''a'', ''b''])))) = {''c'', ''b''}"
proof -
  have u: "uid_wf (bootstrapUIDList 1000 [''a'', ''b''])" by (rule bootstrap_spec(1)) simp_all
  have n: "unat (uidNext (bootstrapUIDList 1000 [''a'', ''b''])) + length [''c'', ''b''] < 2 ^ 32"
    using bootstrap_spec(3)[of "[''a'', ''b'']" 1000] by simp
  show ?thesis using reconcile_tracks_directory[OF u _ n] by simp
qed

text \<open>The file format round-trips.  Writing a well-formed list and reading the bytes back yields
  the very same list, lookup maps included, for all keys that fit a line.\<close>

theorem uidlist_roundtrip:
  assumes "uid_printable u"
  shows "write_uidlist False u f = (UidBytes (uidlist_bytes u), None) \<and>
         readUIDList (UidBytes (uidlist_bytes u)) = Inr (Some u)"
  using read_written[OF assms] by (simp add: write_uidlist_def)

theorem uidlist_roundtrip_witness:
  "readUIDList (UidBytes (uidlist_bytes (bootstrapUIDList 1000 [''a'', ''b'']))) =
     Inr (Some (bootstrapUIDList 1000 [''a'', ''b'']))"
proof -
  note b = bootstrap_spec[of "[''a'', ''b'']" 1000]
  have "set (map snd (entries (bootstrapUIDList 1000 [''a'', ''b'']))) = {''a'', ''b''}"
    using b(2) by simp
  then have "uid_printable (bootstrapUIDList 1000 [''a'', ''b''])"
    using b by (auto simp: uid_printable_def list_all_iff key_ok_def)
  from uidlist_roundtrip[OF this] show ?thesis by simp
qed

text \<open>C30: loading always repairs.  Whatever the \<open>.uidlist\<close> file holds (missing, unreadable, corrupt,
  or a list some earlier load wrote), loading it against a directory succeeds when the write does,
  returns a well-formed list of exactly the directory's keys, and leaves a file that reads back as
  that list.\<close>

theorem load_matches_directory_and_disk:
  assumes "file_wf f" "distinct ks" "list_all key_ok ks" "next_uid_of f + length ks < 2 ^ 32"
  shows "\<exists>u. snd (loadOrBootstrapUIDList now False f ks) = Inr u \<and> uid_wf u \<and>
             dom (keyToUID u) = set ks \<and>
             readUIDList (fst (loadOrBootstrapUIDList now False f ks)) = Inr (Some u)"
  using load_spec[OF assms, of now] uid_wf_dom
  by (cases "loadOrBootstrapUIDList now False f ks") (auto simp: uid_printable_def)

theorem load_matches_directory_and_disk_witness:
  "\<exists>u. snd (loadOrBootstrapUIDList 7 False (UidBytes ''junk'') [''a'']) = Inr u \<and>
       dom (keyToUID u) = {''a''}"
proof -
  have r: "readUIDList (UidBytes ''junk'') = Inl (UidBadHeader ''junk'')"
    by (simp add: readUIDList_def parseHeader_def go_eval)
  have "file_wf (UidBytes ''junk'')" "next_uid_of (UidBytes ''junk'') + length [''a''] < 2 ^ 32"
    by (simp_all add: file_wf_def next_uid_of_def r)
  from load_matches_directory_and_disk[OF this(1) _ _ this(2), of 7] show ?thesis
    by (auto simp: key_ok_def)
qed

end
