(* ===== verification/Maildir.thy ===== *)
theory Maildir
  imports GoPath UidList MsgStore
begin

text \<open>The Maildir store (\<open>msgstore/maildir/store.go\<close>) and the parsing of recipients (\<open>msgstore/delivery.go\<close>).  The disk
  maps the path of each maildir to its two directories of files and its UID list; a maildir exists when its \<open>cur\<close>
  directory does.  The Maildir library is a record of functions on a maildir, any of which may fail.  Failures of the operating
  system are a set of faults per call.  The store adds its soft-deleted messages and its cache of UID lists.\<close>

section \<open>Addresses and paths\<close>

record Recipient =
  rc_Address :: string
  rc_Extension :: string

definition ParseRecipient :: "string \<Rightarrow> Recipient" where
  "ParseRecipient email =
     (let (localpart, domain) = (case CutLastByte (CHR ''@'') email of
            None \<Rightarrow> (email, []) | Some (l, d) \<Rightarrow> (l, CHR ''@'' # d));
          (base, ext) = (case CutByte (CHR ''+'') localpart of None \<Rightarrow> (localpart, []) | Some p \<Rightarrow> p)
      in \<lparr>rc_Address = base @ domain, rc_Extension = ext\<rparr>)"

definition splitEmail :: "string \<Rightarrow> string \<times> string" where
  "splitEmail email = (case CutLastByte (CHR ''@'') email of None \<Rightarrow> (email, []) | Some p \<Rightarrow> p)"

text \<open>\<open>strings.ReplaceAll\<close> for a non-empty pattern.\<close>

function ReplaceAll :: "string \<Rightarrow> string \<Rightarrow> string \<Rightarrow> string" where
  "ReplaceAll s old new =
     (if s = [] \<or> old = [] then s
      else if HasPrefix s old then new @ ReplaceAll (drop (length old) s) old new
      else hd s # ReplaceAll (tl s) old new)"
  by pat_completeness auto
termination
  by (relation "measure (\<lambda>(s, old, new). length s)") auto

declare ReplaceAll.simps [simp del]

datatype store_error =
    ErrPathTraversal | ErrNoRecipients | ErrMessageDeleted | ErrMailboxNotFound | ErrMessageNotFound
  | ErrInvalidFolderName | ErrFolderExists | ErrFolderNotFound | ErrIO

record store_cfg =
  sc_basePath :: string
  sc_maildirSubdir :: string
  sc_pathTemplate :: string

definition expandMailbox :: "store_cfg \<Rightarrow> string \<Rightarrow> string" where
  "expandMailbox cfg mailbox =
     (let (localpart, domain) = splitEmail mailbox in
      if sc_pathTemplate cfg = [] then localpart
      else ReplaceAll (ReplaceAll (ReplaceAll (sc_pathTemplate cfg) ''{domain}'' domain) ''{localpart}'' localpart)
             ''{email}'' mailbox)"

definition mailboxPath :: "store_cfg \<Rightarrow> string \<Rightarrow> store_error + string" where
  "mailboxPath cfg mailbox =
     (let expanded = expandMailbox cfg mailbox;
          candidate = (if sc_maildirSubdir cfg \<noteq> [] then Join [sc_basePath cfg, expanded, sc_maildirSubdir cfg]
                       else Join [sc_basePath cfg, expanded]);
          cleanBase = Clean (sc_basePath cfg);
          cleanCandidate = Clean candidate
      in if HasPrefix (cleanCandidate @ ''/'') (cleanBase @ ''/'') then Inr cleanCandidate else Inl ErrPathTraversal)"

definition isValidFolderChar :: "char \<Rightarrow> bool" where
  "isValidFolderChar c = (let n = (of_char c :: nat) in
     97 \<le> n \<and> n \<le> 122 \<or> 65 \<le> n \<and> n \<le> 90 \<or> 48 \<le> n \<and> n \<le> 57 \<or> c = CHR ''-'' \<or> c = CHR ''_'')"

definition validateFolderName :: "string \<Rightarrow> bool" where
  "validateFolderName folder =
     (folder \<noteq> [] \<and> length folder \<le> 255 \<and> \<not> HasPrefix folder ''.''
      \<and> ToLower folder \<notin> {''new'', ''cur'', ''tmp''} \<and> list_all isValidFolderChar folder)"

definition folderPath :: "store_cfg \<Rightarrow> string \<Rightarrow> string \<Rightarrow> store_error + string" where
  "folderPath cfg mailbox folder =
     (if \<not> validateFolderName folder then Inl ErrInvalidFolderName
      else case mailboxPath cfg mailbox of
        Inl e \<Rightarrow> Inl e
      | Inr base \<Rightarrow>
          (let candidate = Clean (Join [base, ''.'' @ folder]) in
           if HasPrefix (candidate @ ''/'') (Clean base @ ''/'') then Inr candidate else Inl ErrPathTraversal))"

text \<open>The comparison with INBOX folds case; of the letters of INBOX none has a fold outside ASCII.\<close>

definition folderOrInboxPath :: "store_cfg \<Rightarrow> string \<Rightarrow> string \<Rightarrow> store_error + string" where
  "folderOrInboxPath cfg mailbox folder =
     (if ToLower folder = ''inbox'' then mailboxPath cfg mailbox else folderPath cfg mailbox folder)"

definition folderDeletionKey :: "string \<Rightarrow> string \<Rightarrow> string" where
  "folderDeletionKey mailbox folder = mailbox @ [CHR 0x00] @ folder"

section \<open>The disk and the Maildir library\<close>

record mfile =
  f_data :: string
  f_time :: int

record mdir =
  d_new :: "(string \<times> mfile) list"
  d_cur :: "(string \<times> mfile) list"
  d_uids :: uid_file

text \<open>The library: making a maildir, moving the unseen messages, the messages with their keys, names and flags, the file name of a key,
  a delivery, removal, changing flags, and copying to another maildir.  A delivery and a copy take the time of the call.\<close>

datatype init_result = InitOk mdir | InitExists | InitErr

record maildir_lib =
  lib_init :: "mdir option \<Rightarrow> init_result"
  lib_unseen :: "mdir \<Rightarrow> (string list \<times> mdir) option"
  lib_messages :: "mdir \<Rightarrow> (string \<times> string \<times> string) list option"
  lib_by_key :: "mdir \<Rightarrow> string \<Rightarrow> string option"
  lib_deliver :: "int \<Rightarrow> mdir \<Rightarrow> string \<Rightarrow> mdir option"
  lib_remove :: "mdir \<Rightarrow> string \<Rightarrow> mdir option"
  lib_set_flags :: "mdir \<Rightarrow> string \<Rightarrow> string \<Rightarrow> mdir option"
  lib_copy_to :: "int \<Rightarrow> mdir \<Rightarrow> string \<Rightarrow> mdir \<Rightarrow> mdir option"

text \<open>The system calls that can fail; \<open>FReread\<close> is the second reading of a directory by one operation.\<close>

datatype fault = FMkdir | FLock | FReadDir | FReread | FWrite | FRename | FRemoveAll | FRead

record mstore =
  m_cfg :: store_cfg
  m_disk :: "string \<Rightarrow> mdir option"
  m_deleted :: "string \<Rightarrow> uint32 list"
  m_cache :: "string \<Rightarrow> uidList option"

definition NewStore :: "store_cfg \<Rightarrow> (string \<Rightarrow> mdir option) \<Rightarrow> mstore" where
  "NewStore cfg disk = \<lparr>m_cfg = cfg, m_disk = disk, m_deleted = (\<lambda>k. []), m_cache = Map.empty\<rparr>"

definition put_dir :: "string \<Rightarrow> mdir \<Rightarrow> mstore \<Rightarrow> mstore" where
  "put_dir path d st = st\<lparr>m_disk := (m_disk st)(path \<mapsto> d)\<rparr>"

definition cacheUIDList :: "string \<Rightarrow> uidList \<Rightarrow> mstore \<Rightarrow> mstore" where
  "cacheUIDList path u st = st\<lparr>m_cache := (m_cache st)(path \<mapsto> u)\<rparr>"

definition invalidateUIDListCache :: "string \<Rightarrow> mstore \<Rightarrow> mstore" where
  "invalidateUIDListCache path st = st\<lparr>m_cache := (m_cache st)(path := None)\<rparr>"

definition isDeleted :: "string \<Rightarrow> uint32 \<Rightarrow> mstore \<Rightarrow> bool" where
  "isDeleted key uid st = (uid \<in> set (m_deleted st key))"

text \<open>Making a maildir; \<open>AppendToFolder\<close> and \<open>CopyMessage\<close> accept that it exists.\<close>

definition init_dir :: "maildir_lib \<Rightarrow> fault set \<Rightarrow> bool \<Rightarrow> string \<Rightarrow> mstore \<Rightarrow> mstore \<times> store_error option" where
  "init_dir L flt accept path st =
     (if FMkdir \<in> flt then (st, Some ErrIO)
      else case lib_init L (m_disk st path) of
        InitOk d \<Rightarrow> (put_dir path d st, None)
      | InitExists \<Rightarrow> (st, if accept then None else Some ErrIO)
      | InitErr \<Rightarrow> (st, Some ErrIO))"

section \<open>Mailboxes\<close>

text \<open>The default folders of a mailbox that has just been made; its own maildir exists, so making a folder does not make the
  mailbox again.  The first error that is not an existing folder ends it.\<close>

fun default_folders :: "maildir_lib \<Rightarrow> fault set \<Rightarrow> string \<Rightarrow> string list \<Rightarrow> mstore \<Rightarrow> mstore" where
  "default_folders L flt mailbox [] st = st"
| "default_folders L flt mailbox (name # names) st = (case folderPath (m_cfg st) mailbox name of
       Inl e \<Rightarrow> st
     | Inr path \<Rightarrow>
         (if m_disk st path \<noteq> None then default_folders L flt mailbox names st
          else case init_dir L flt False path st of
            (st', Some e) \<Rightarrow> st'
          | (st', None) \<Rightarrow> default_folders L flt mailbox names st'))"

definition ensureMaildir :: "maildir_lib \<Rightarrow> fault set \<Rightarrow> string \<Rightarrow> mstore \<Rightarrow> mstore \<times> (store_error + string)" where
  "ensureMaildir L flt mailbox st = (case mailboxPath (m_cfg st) mailbox of
       Inl e \<Rightarrow> (st, Inl e)
     | Inr path \<Rightarrow>
         (if m_disk st path \<noteq> None then (st, Inr path)
          else case init_dir L flt False path st of
            (st', Some e) \<Rightarrow> (st', Inl e)
          | (st', None) \<Rightarrow> (default_folders L flt mailbox (map fs_Name DefaultFolders) st', Inr path)))"

definition CreateFolder :: "maildir_lib \<Rightarrow> fault set \<Rightarrow> string \<Rightarrow> string \<Rightarrow> mstore \<Rightarrow> mstore \<times> store_error option" where
  "CreateFolder L flt mailbox folder st = (case folderPath (m_cfg st) mailbox folder of
       Inl e \<Rightarrow> (st, Some e)
     | Inr path \<Rightarrow>
         (if m_disk st path \<noteq> None then (st, Some ErrFolderExists)
          else case ensureMaildir L flt mailbox st of
            (st', Inl e) \<Rightarrow> (st', Some e)
          | (st', Inr p) \<Rightarrow> init_dir L flt False path st'))"

fun ensure_folders :: "maildir_lib \<Rightarrow> fault set \<Rightarrow> string \<Rightarrow> string list \<Rightarrow> mstore \<Rightarrow> mstore \<times> store_error option" where
  "ensure_folders L flt mailbox [] st = (st, None)"
| "ensure_folders L flt mailbox (name # names) st = (case CreateFolder L flt mailbox name st of
       (st', None) \<Rightarrow> ensure_folders L flt mailbox names st'
     | (st', Some e) \<Rightarrow> (if e = ErrFolderExists then ensure_folders L flt mailbox names st' else (st', Some e)))"

definition EnsureDefaultFolders :: "maildir_lib \<Rightarrow> fault set \<Rightarrow> string \<Rightarrow> mstore \<Rightarrow> mstore \<times> store_error option" where
  "EnsureDefaultFolders L flt mailbox st = ensure_folders L flt mailbox (map fs_Name DefaultFolders) st"

definition folderIfExists :: "string \<Rightarrow> string \<Rightarrow> mstore \<Rightarrow> string option" where
  "folderIfExists mailbox folder st = (case folderPath (m_cfg st) mailbox folder of
       Inl e \<Rightarrow> None
     | Inr path \<Rightarrow> if m_disk st path = None then None else Some path)"

definition ensureFolderMaildir ::
  "maildir_lib \<Rightarrow> fault set \<Rightarrow> string \<Rightarrow> string \<Rightarrow> mstore \<Rightarrow> mstore \<times> (store_error + string)" where
  "ensureFolderMaildir L flt mailbox folder st = (case ensureMaildir L flt mailbox st of
       (st1, Inl e) \<Rightarrow> (st1, Inl e)
     | (st1, Inr p) \<Rightarrow> (case folderPath (m_cfg st1) mailbox folder of
           Inl e \<Rightarrow> (st1, Inl e)
         | Inr path \<Rightarrow>
             (if m_disk st1 path \<noteq> None then (st1, Inr path)
              else case init_dir L flt False path st1 of
                (st2, Some e) \<Rightarrow> (st2, Inl e)
              | (st2, None) \<Rightarrow> (st2, Inr path))))"

section \<open>Common helpers\<close>

text \<open>The directory \<open>cur\<close> is read in the order of its file names.\<close>

definition cur_keys :: "mdir \<Rightarrow> string list" where
  "cur_keys d = curDirKeys (map (\<lambda>e. (fst e, False)) (sort_key fst (d_cur d)))"

text \<open>The UID list of a maildir under its lock, brought in line with \<open>cur\<close>.\<close>

definition sync_uids :: "fault set \<Rightarrow> int \<Rightarrow> string \<Rightarrow> mdir \<Rightarrow> mstore \<Rightarrow> mstore \<times> (store_error + uidList)" where
  "sync_uids flt now path d st =
     (if FReadDir \<in> flt \<or> FLock \<in> flt then (st, Inl ErrIO)
      else case loadOrBootstrapUIDList now (FWrite \<in> flt) (d_uids d) (cur_keys d) of
        (f, Inl e) \<Rightarrow> (put_dir path (d\<lparr>d_uids := f\<rparr>) st, Inl ErrIO)
      | (f, Inr u) \<Rightarrow> (put_dir path (d\<lparr>d_uids := f\<rparr>) st, Inr u))"

definition imap_flags :: "(char \<times> string) list" where
  "imap_flags = [(CHR ''S'', imap_name ''Seen''), (CHR ''R'', imap_name ''Answered''), (CHR ''F'', imap_name ''Flagged''),
     (CHR ''D'', imap_name ''Draft''), (CHR ''T'', imap_name ''Deleted'')]"

definition convertFlags :: "string \<Rightarrow> string list" where
  "convertFlags flags = List.map_filter (map_of imap_flags) flags"

definition convertFlagsFromIMAP :: "string list \<Rightarrow> string" where
  "convertFlagsFromIMAP flags = List.map_filter (map_of (map (\<lambda>(c, n). (n, c)) imap_flags)) flags"

definition message_info :: "string list \<Rightarrow> (string \<times> string \<times> string) list \<Rightarrow> mdir \<Rightarrow> uidEntry \<Rightarrow> messageInfo option" where
  "message_info recent msgs d e = (case map_of (rev msgs) (snd e) of
       None \<Rightarrow> None
     | Some (name, flags) \<Rightarrow> (case map_of (d_cur d) name of
           None \<Rightarrow> None
         | Some f \<Rightarrow> Some \<lparr>mi_UID = fst e, mi_Key = snd e, mi_Size = int (length (f_data f)),
             mi_Flags = (if snd e \<in> set recent then [imap_name ''Recent''] else []) @ convertFlags flags,
             mi_Date = f_time f\<rparr>))"

definition listDir :: "maildir_lib \<Rightarrow> fault set \<Rightarrow> int \<Rightarrow> string \<Rightarrow> string \<Rightarrow> mstore \<Rightarrow> mstore \<times> (store_error + messageInfo list)" where
  "listDir L flt now path delKey st = (case Option.bind (m_disk st path) (lib_unseen L) of
       None \<Rightarrow> (st, Inl ErrIO)
     | Some (recent, d) \<Rightarrow> (case sync_uids flt now path d (put_dir path d st) of
           (st1, Inl e) \<Rightarrow> (st1, Inl e)
         | (st1, Inr u) \<Rightarrow>
             (let st2 = cacheUIDList path u st1 in
              case Option.bind (m_disk st2 path) (lib_messages L) of
                None \<Rightarrow> (st2, Inl ErrIO)
              | Some msgs \<Rightarrow>
                  (st2, Inr (List.map_filter (message_info recent msgs d)
                     (filter (\<lambda>e. \<not> isDeleted delKey (fst e) st2) (entries u)))))))"

definition lookupKey :: "fault set \<Rightarrow> int \<Rightarrow> string \<Rightarrow> uint32 \<Rightarrow> mstore \<Rightarrow> mstore \<times> (store_error + string)" where
  "lookupKey flt now path uid st = (case m_cache st path of
       Some u \<Rightarrow> (st, case uidToKey u uid of Some k \<Rightarrow> Inr k | None \<Rightarrow> Inl ErrMessageNotFound)
     | None \<Rightarrow> (case m_disk st path of
           None \<Rightarrow> (st, Inl ErrIO)
         | Some d \<Rightarrow> (case sync_uids flt now path d st of
               (st1, Inl e) \<Rightarrow> (st1, Inl e)
             | (st1, Inr u) \<Rightarrow> (cacheUIDList path u st1,
                  case uidToKey u uid of Some k \<Rightarrow> Inr k | None \<Rightarrow> Inl ErrMessageNotFound))))"

definition retrieveFromDir :: "maildir_lib \<Rightarrow> string \<Rightarrow> string \<Rightarrow> mstore \<Rightarrow> store_error + string" where
  "retrieveFromDir L path key st = (case m_disk st path of
       None \<Rightarrow> Inl ErrIO
     | Some d \<Rightarrow> (case lib_by_key L d key of
           None \<Rightarrow> Inl ErrIO
         | Some name \<Rightarrow> (case map_of (d_cur d) name of None \<Rightarrow> Inl ErrIO | Some f \<Rightarrow> Inr (f_data f))))"

text \<open>Removal goes on after an error and reports the last one; a key without a message is skipped.\<close>

fun removeMessages :: "maildir_lib \<Rightarrow> string list \<Rightarrow> mdir \<Rightarrow> mdir \<times> bool" where
  "removeMessages L [] d = (d, True)"
| "removeMessages L (k # ks) d = (case lib_by_key L d k of
       None \<Rightarrow> removeMessages L ks d
     | Some name \<Rightarrow> (case lib_remove L d name of
           Some d' \<Rightarrow> removeMessages L ks d'
         | None \<Rightarrow> (fst (removeMessages L ks d), False)))"

section \<open>The inbox\<close>

text \<open>A delivery: the envelope is its recipients, the message is read first and reading may fail.  The folder each address got the
  message in is returned with the result.\<close>

definition deliver_one :: "maildir_lib \<Rightarrow> fault set \<Rightarrow> int \<Rightarrow> string \<Rightarrow> string \<Rightarrow> mstore \<Rightarrow> mstore \<times> (store_error + string \<times> string)" where
  "deliver_one L flt now data recipient st =
     (let parsed = ParseRecipient recipient;
          ext = (if rc_Extension parsed = [] then None else folderIfExists (rc_Address parsed) (rc_Extension parsed) st);
          (st1, target) = (case ext of
              Some path \<Rightarrow> (st, Inr (path, rc_Extension parsed))
            | None \<Rightarrow> (case ensureMaildir L flt (rc_Address parsed) st of
                  (st', Inl e) \<Rightarrow> (st', Inl e)
                | (st', Inr path) \<Rightarrow> (st', Inr (path, ''INBOX''))))
      in case target of
           Inl e \<Rightarrow> (st1, Inl e)
         | Inr (path, folder) \<Rightarrow> (case Option.bind (m_disk st1 path) (\<lambda>d. lib_deliver L now d data) of
               None \<Rightarrow> (st1, Inl ErrIO)
             | Some d \<Rightarrow> (put_dir path d st1, Inr (rc_Address parsed, folder))))"

fun deliver_each :: "maildir_lib \<Rightarrow> fault set \<Rightarrow> int \<Rightarrow> string \<Rightarrow> string list \<Rightarrow> mstore
    \<Rightarrow> mstore \<times> (string \<times> string) list \<times> store_error option" where
  "deliver_each L flt now data [] st = (st, [], None)"
| "deliver_each L flt now data (r # rs) st = (case deliver_one L flt now data r st of
       (st', Inl e) \<Rightarrow> (case deliver_each L flt now data rs st' of
           (st2, folders, None) \<Rightarrow> (st2, folders, Some e)
         | (st2, folders, Some e') \<Rightarrow> (st2, folders, Some e'))
     | (st', Inr af) \<Rightarrow> (case deliver_each L flt now data rs st' of (st2, folders, err) \<Rightarrow> (st2, af # folders, err)))"

definition store_Deliver :: "maildir_lib \<Rightarrow> fault set \<Rightarrow> int \<Rightarrow> string list \<Rightarrow> string \<Rightarrow> mstore
    \<Rightarrow> mstore \<times> (string \<times> string) list \<times> store_error option" where
  "store_Deliver L flt now recipients data st =
     (if recipients = [] then (st, [], Some ErrNoRecipients)
      else if FRead \<in> flt then (st, [], Some ErrIO)
      else case deliver_each L flt now data recipients st of
        (st', folders, err) \<Rightarrow> (st', folders, if folders = [] then err else None))"

definition store_List :: "maildir_lib \<Rightarrow> fault set \<Rightarrow> int \<Rightarrow> string \<Rightarrow> mstore \<Rightarrow> mstore \<times> (store_error + messageInfo list)" where
  "store_List L flt now mailbox st = (case ensureMaildir L flt mailbox st of
       (st1, Inl e) \<Rightarrow> (st1, Inl e)
     | (st1, Inr path) \<Rightarrow> listDir L flt now path mailbox st1)"

definition retrieve_at :: "maildir_lib \<Rightarrow> fault set \<Rightarrow> int \<Rightarrow> string \<Rightarrow> (store_error + string) \<Rightarrow> store_error \<Rightarrow> uint32 \<Rightarrow> mstore
    \<Rightarrow> mstore \<times> (store_error + string)" where
  "retrieve_at L flt now delKey where_at missing uid st =
     (if isDeleted delKey uid st then (st, Inl ErrMessageDeleted)
      else case where_at of
        Inl e \<Rightarrow> (st, Inl e)
      | Inr path \<Rightarrow>
          (if m_disk st path = None then (st, Inl missing)
           else case lookupKey flt now path uid st of
             (st1, Inl e) \<Rightarrow> (st1, Inl e)
           | (st1, Inr key) \<Rightarrow> (st1, retrieveFromDir L path key st1)))"

definition store_Retrieve :: "maildir_lib \<Rightarrow> fault set \<Rightarrow> int \<Rightarrow> string \<Rightarrow> uint32 \<Rightarrow> mstore \<Rightarrow> mstore \<times> (store_error + string)" where
  "store_Retrieve L flt now mailbox uid st =
     retrieve_at L flt now mailbox (mailboxPath (m_cfg st) mailbox) ErrMailboxNotFound uid st"

definition mark_deleted :: "string \<Rightarrow> uint32 \<Rightarrow> mstore \<Rightarrow> mstore" where
  "mark_deleted key uid st = st\<lparr>m_deleted := (m_deleted st)(key := uid # m_deleted st key)\<rparr>"

definition store_Delete :: "string \<Rightarrow> uint32 \<Rightarrow> mstore \<Rightarrow> mstore" where
  "store_Delete mailbox uid st = mark_deleted mailbox uid st"

text \<open>Expunging a maildir: the marks are cleared first, whatever follows.\<close>

definition expunge_dir :: "maildir_lib \<Rightarrow> fault set \<Rightarrow> int \<Rightarrow> uint32 list \<Rightarrow> string \<Rightarrow> mdir \<Rightarrow> mstore \<Rightarrow> mstore \<times> store_error option" where
  "expunge_dir L flt now uids path d st = (case sync_uids flt now path d st of
       (st1, Inl e) \<Rightarrow> (st1, Some e)
     | (st1, Inr u) \<Rightarrow>
         (let d1 = the (m_disk st1 path) in
          case removeMessages L (List.map_filter (uidToKey u) (remdups uids)) d1 of
            (d2, False) \<Rightarrow> (put_dir path d2 st1, Some ErrIO)
          | (d2, True) \<Rightarrow>
              if FReread \<in> flt then (put_dir path d2 st1, Some ErrIO)
              else (case write_uidlist (FWrite \<in> flt) (fst (reconcile (cur_keys d2) u)) (d_uids d2) of
                 (f, err) \<Rightarrow> (invalidateUIDListCache path (put_dir path (d2\<lparr>d_uids := f\<rparr>) st1),
                              case err of None \<Rightarrow> None | Some e \<Rightarrow> Some ErrIO))))"

definition expunge_at :: "maildir_lib \<Rightarrow> fault set \<Rightarrow> int \<Rightarrow> string \<Rightarrow> (store_error + string) \<Rightarrow> store_error \<Rightarrow> mstore
    \<Rightarrow> mstore \<times> store_error option" where
  "expunge_at L flt now delKey where_at missing st =
     (let uids = m_deleted st delKey;
          st' = st\<lparr>m_deleted := (m_deleted st)(delKey := [])\<rparr>
      in if uids = [] then (st', None)
         else case where_at of
           Inl e \<Rightarrow> (st', Some e)
         | Inr path \<Rightarrow> (case m_disk st' path of
               None \<Rightarrow> (st', Some missing)
             | Some d \<Rightarrow> expunge_dir L flt now uids path d st'))"

definition store_Expunge :: "maildir_lib \<Rightarrow> fault set \<Rightarrow> int \<Rightarrow> string \<Rightarrow> mstore \<Rightarrow> mstore \<times> store_error option" where
  "store_Expunge L flt now mailbox st =
     expunge_at L flt now mailbox (mailboxPath (m_cfg st) mailbox) ErrMailboxNotFound st"

definition totals :: "messageInfo list \<Rightarrow> int \<times> int" where
  "totals ms = foldl (\<lambda>(n, b) m. (n + 1, b + mi_Size m)) (0, 0) ms"

definition store_Stat :: "maildir_lib \<Rightarrow> fault set \<Rightarrow> int \<Rightarrow> string \<Rightarrow> mstore \<Rightarrow> mstore \<times> (store_error + int \<times> int)" where
  "store_Stat L flt now mailbox st = (case store_List L flt now mailbox st of
       (st1, Inl e) \<Rightarrow> (st1, Inl e)
     | (st1, Inr ms) \<Rightarrow> (st1, Inr (totals ms)))"

section \<open>Folders\<close>

text \<open>The names in a mailbox directory that begin with a dot and hold a maildir; the names of the directory are an argument.\<close>

definition ListFolders :: "fault set \<Rightarrow> (string \<Rightarrow> (string \<times> bool) list) \<Rightarrow> string \<Rightarrow> mstore \<Rightarrow> store_error + string list" where
  "ListFolders flt readdir mailbox st = (case mailboxPath (m_cfg st) mailbox of
       Inl e \<Rightarrow> Inl e
     | Inr base \<Rightarrow>
         (if m_disk st base = None then Inl ErrMailboxNotFound
          else if FReadDir \<in> flt then Inl ErrIO
          else Inr (map (\<lambda>e. drop 1 (fst e))
                 (filter (\<lambda>e. snd e \<and> HasPrefix (fst e) ''.'' \<and> m_disk st (Join [base, fst e]) \<noteq> None) (readdir base)))))"

text \<open>A failing removal of the tree may leave parts; the model keeps the maildir then.\<close>

definition DeleteFolder :: "fault set \<Rightarrow> string \<Rightarrow> string \<Rightarrow> mstore \<Rightarrow> mstore \<times> store_error option" where
  "DeleteFolder flt mailbox folder st = (case folderPath (m_cfg st) mailbox folder of
       Inl e \<Rightarrow> (st, Some e)
     | Inr path \<Rightarrow>
         (if m_disk st path = None then (st, Some ErrFolderNotFound)
          else let st' = st\<lparr>m_deleted := (m_deleted st)(folderDeletionKey mailbox folder := [])\<rparr>
               in if FRemoveAll \<in> flt then (st', Some ErrIO)
                  else (st'\<lparr>m_disk := (m_disk st')(path := None)\<rparr>, None)))"

definition ListInFolder :: "maildir_lib \<Rightarrow> fault set \<Rightarrow> int \<Rightarrow> string \<Rightarrow> string \<Rightarrow> mstore \<Rightarrow> mstore \<times> (store_error + messageInfo list)" where
  "ListInFolder L flt now mailbox folder st = (case folderPath (m_cfg st) mailbox folder of
       Inl e \<Rightarrow> (st, Inl e)
     | Inr path \<Rightarrow>
         (if m_disk st path = None then (st, Inl ErrFolderNotFound)
          else listDir L flt now path (folderDeletionKey mailbox folder) st))"

definition StatFolder :: "maildir_lib \<Rightarrow> fault set \<Rightarrow> int \<Rightarrow> string \<Rightarrow> string \<Rightarrow> mstore \<Rightarrow> mstore \<times> (store_error + int \<times> int)" where
  "StatFolder L flt now mailbox folder st = (case ListInFolder L flt now mailbox folder st of
       (st1, Inl e) \<Rightarrow> (st1, Inl e)
     | (st1, Inr ms) \<Rightarrow> (st1, Inr (totals ms)))"

definition RetrieveFromFolder :: "maildir_lib \<Rightarrow> fault set \<Rightarrow> int \<Rightarrow> string \<Rightarrow> string \<Rightarrow> uint32 \<Rightarrow> mstore
    \<Rightarrow> mstore \<times> (store_error + string)" where
  "RetrieveFromFolder L flt now mailbox folder uid st =
     retrieve_at L flt now (folderDeletionKey mailbox folder) (folderPath (m_cfg st) mailbox folder) ErrFolderNotFound uid st"

definition DeleteInFolder :: "string \<Rightarrow> string \<Rightarrow> uint32 \<Rightarrow> mstore \<Rightarrow> mstore \<times> store_error option" where
  "DeleteInFolder mailbox folder uid st =
     (if \<not> validateFolderName folder then (st, Some ErrInvalidFolderName)
      else (mark_deleted (folderDeletionKey mailbox folder) uid st, None))"

definition ExpungeFolder :: "maildir_lib \<Rightarrow> fault set \<Rightarrow> int \<Rightarrow> string \<Rightarrow> string \<Rightarrow> mstore \<Rightarrow> mstore \<times> store_error option" where
  "ExpungeFolder L flt now mailbox folder st =
     expunge_at L flt now (folderDeletionKey mailbox folder) (folderPath (m_cfg st) mailbox folder) ErrFolderNotFound st"

definition DeliverToFolder :: "maildir_lib \<Rightarrow> fault set \<Rightarrow> int \<Rightarrow> string \<Rightarrow> string \<Rightarrow> string \<Rightarrow> mstore \<Rightarrow> mstore \<times> store_error option" where
  "DeliverToFolder L flt now mailbox folder data st = (case ensureFolderMaildir L flt mailbox folder st of
       (st1, Inl e) \<Rightarrow> (st1, Some e)
     | (st1, Inr path) \<Rightarrow>
         (if FRead \<in> flt then (st1, Some ErrIO)
          else case Option.bind (m_disk st1 path) (\<lambda>d. lib_deliver L now d data) of
            None \<Rightarrow> (st1, Some ErrIO)
          | Some d \<Rightarrow> (put_dir path d st1, None)))"

definition RenameFolder :: "fault set \<Rightarrow> string \<Rightarrow> string \<Rightarrow> string \<Rightarrow> mstore \<Rightarrow> mstore \<times> store_error option" where
  "RenameFolder flt mailbox oldName newName st =
     (case (folderPath (m_cfg st) mailbox oldName, folderPath (m_cfg st) mailbox newName) of
        (Inl e, _) \<Rightarrow> (st, Some e)
      | (Inr oldPath, Inl e) \<Rightarrow> (st, Some e)
      | (Inr oldPath, Inr newPath) \<Rightarrow>
          (if m_disk st oldPath = None then (st, Some ErrFolderNotFound)
           else if m_disk st newPath \<noteq> None then (st, Some ErrFolderExists)
           else let st' = st\<lparr>m_deleted := (m_deleted st)(folderDeletionKey mailbox oldName := [])\<rparr>
                in if FRename \<in> flt then (st', Some ErrIO)
                   else (st'\<lparr>m_disk := (m_disk st')(newPath := m_disk st' oldPath, oldPath := None)\<rparr>, None)))"

definition infoFromFlags :: "string \<Rightarrow> string" where
  "infoFromFlags flags = ''2,'' @ sort flags"

definition moveNewToCurWithFlags :: "fault set \<Rightarrow> string \<Rightarrow> string \<Rightarrow> mdir \<Rightarrow> mdir option" where
  "moveNewToCurWithFlags flt key flags d =
     (if FRename \<in> flt then None
      else case map_of (d_new d) key of
        None \<Rightarrow> None
      | Some f \<Rightarrow> (let name = key @ '':'' @ infoFromFlags flags in
           Some (d\<lparr>d_new := filter (\<lambda>e. fst e \<noteq> key) (d_new d),
                   d_cur := filter (\<lambda>e. fst e \<noteq> name) (d_cur d) @ [(name, f)]\<rparr>)))"

definition maildirNewKeys :: "mdir \<Rightarrow> string list" where
  "maildirNewKeys d = map fst (d_new d)"

text \<open>The first name, in the order of the directory, that was not there before.\<close>

definition maildirNewKey :: "string list \<Rightarrow> mdir \<Rightarrow> string option" where
  "maildirNewKey before d = List.find (\<lambda>k. k \<notin> set before) (sort (map fst (d_new d)))"

definition AppendToFolder :: "maildir_lib \<Rightarrow> fault set \<Rightarrow> int \<Rightarrow> string \<Rightarrow> string \<Rightarrow> string \<Rightarrow> string list \<Rightarrow> mstore
    \<Rightarrow> mstore \<times> (store_error + uint32)" where
  "AppendToFolder L flt now mailbox folder data flags st = (case folderOrInboxPath (m_cfg st) mailbox folder of
       Inl e \<Rightarrow> (st, Inl e)
     | Inr path \<Rightarrow> (case init_dir L flt True path st of
           (st1, Some e) \<Rightarrow> (st1, Inl e)
         | (st1, None) \<Rightarrow> (case m_disk st1 path of
             None \<Rightarrow> (st1, Inl ErrIO)
           | Some d \<Rightarrow>
             (if FReadDir \<in> flt \<or> FRead \<in> flt then (st1, Inl ErrIO)
              else case lib_deliver L now d data of
                None \<Rightarrow> (st1, Inl ErrIO)
              | Some d1 \<Rightarrow> (case if FReread \<in> flt then None else maildirNewKey (maildirNewKeys d) d1 of
                    None \<Rightarrow> (put_dir path d1 st1, Inl (if FReread \<in> flt then ErrIO else ErrMessageNotFound))
                  | Some key \<Rightarrow> (case moveNewToCurWithFlags flt key (convertFlagsFromIMAP flags) d1 of
                        None \<Rightarrow> (put_dir path d1 st1, Inl ErrIO)
                      | Some d2 \<Rightarrow> (case sync_uids flt now path d2 (put_dir path d2 st1) of
                            (st2, Inl e) \<Rightarrow> (st2, Inl e)
                          | (st2, Inr u) \<Rightarrow> (invalidateUIDListCache path st2,
                               case keyToUID u key of Some uid \<Rightarrow> Inr uid | None \<Rightarrow> Inl ErrMessageNotFound))))))))"

definition SetFlagsInFolder :: "maildir_lib \<Rightarrow> fault set \<Rightarrow> int \<Rightarrow> string \<Rightarrow> string \<Rightarrow> uint32 \<Rightarrow> string list \<Rightarrow> mstore
    \<Rightarrow> mstore \<times> store_error option" where
  "SetFlagsInFolder L flt now mailbox folder uid flags st = (case folderOrInboxPath (m_cfg st) mailbox folder of
       Inl e \<Rightarrow> (st, Some e)
     | Inr path \<Rightarrow> (case lookupKey flt now path uid st of
           (st1, Inl e) \<Rightarrow> (st1, Some e)
         | (st1, Inr key) \<Rightarrow> (case m_disk st1 path of
               None \<Rightarrow> (st1, Some ErrMessageNotFound)
             | Some d \<Rightarrow> (case lib_by_key L d key of
                   Some name \<Rightarrow> (case lib_set_flags L d name (convertFlagsFromIMAP flags) of
                       None \<Rightarrow> (st1, Some ErrIO)
                     | Some d' \<Rightarrow> (put_dir path d' st1, None))
                 | None \<Rightarrow>
                     (if map_of (d_new d) key = None then (st1, Some ErrMessageNotFound)
                      else case moveNewToCurWithFlags flt key (convertFlagsFromIMAP flags) d of
                        None \<Rightarrow> (st1, Some ErrIO)
                      | Some d' \<Rightarrow> (put_dir path d' st1, None))))))"

text \<open>The message of a key in the source is copied to the destination: from \<open>cur\<close> by the library, otherwise from \<open>new\<close> as a
  delivery.\<close>

definition copy_file :: "maildir_lib \<Rightarrow> fault set \<Rightarrow> int \<Rightarrow> string \<Rightarrow> mdir \<Rightarrow> mdir \<Rightarrow> store_error + mdir" where
  "copy_file L flt now key src dest = (case lib_by_key L src key of
       Some name \<Rightarrow> (case lib_copy_to L now src name dest of None \<Rightarrow> Inl ErrIO | Some d \<Rightarrow> Inr d)
     | None \<Rightarrow> (case map_of (d_new src) key of
           None \<Rightarrow> Inl ErrMessageNotFound
         | Some f \<Rightarrow> (if FRead \<in> flt then Inl ErrIO
             else case lib_deliver L now dest (f_data f) of None \<Rightarrow> Inl ErrIO | Some d \<Rightarrow> Inr d)))"

definition CopyMessage :: "maildir_lib \<Rightarrow> fault set \<Rightarrow> int \<Rightarrow> string \<Rightarrow> string \<Rightarrow> uint32 \<Rightarrow> string \<Rightarrow> mstore
    \<Rightarrow> mstore \<times> (store_error + uint32)" where
  "CopyMessage L flt now mailbox srcFolder uid destFolder st =
     (case (folderOrInboxPath (m_cfg st) mailbox srcFolder, folderOrInboxPath (m_cfg st) mailbox destFolder) of
        (Inl e, _) \<Rightarrow> (st, Inl e)
      | (Inr srcPath, Inl e) \<Rightarrow> (st, Inl e)
      | (Inr srcPath, Inr destPath) \<Rightarrow> (case lookupKey flt now srcPath uid st of
            (st1, Inl e) \<Rightarrow> (st1, Inl e)
          | (st1, Inr key) \<Rightarrow> (case init_dir L flt True destPath st1 of
                (st2, Some e) \<Rightarrow> (st2, Inl e)
              | (st2, None) \<Rightarrow> (case (m_disk st2 srcPath, m_disk st2 destPath) of
                    (None, _) \<Rightarrow> (st2, Inl ErrMessageNotFound)
                  | (Some src, None) \<Rightarrow> (st2, Inl ErrIO)
                  | (Some src, Some dest) \<Rightarrow> (case copy_file L flt now key src dest of
                        Inl e \<Rightarrow> (st2, Inl e)
                      | Inr d \<Rightarrow> (case sync_uids flt now destPath d (put_dir destPath d st2) of
                            (st3, Inl e) \<Rightarrow> (st3, Inl e)
                          | (st3, Inr u) \<Rightarrow> (invalidateUIDListCache destPath st3, Inr (uidNext u - 1))))))))"

definition with_uids :: "maildir_lib \<Rightarrow> fault set \<Rightarrow> int \<Rightarrow> string \<Rightarrow> string \<Rightarrow> (uidList \<Rightarrow> uint32) \<Rightarrow> mstore
    \<Rightarrow> mstore \<times> (store_error + uint32)" where
  "with_uids L flt now mailbox folder pick st =
     (case (if ToLower folder = ''inbox'' then ensureMaildir L flt mailbox st else ensureFolderMaildir L flt mailbox folder st) of
        (st1, Inl e) \<Rightarrow> (st1, Inl e)
      | (st1, Inr p) \<Rightarrow> (case folderOrInboxPath (m_cfg st1) mailbox folder of
            Inl e \<Rightarrow> (st1, Inl e)
          | Inr path \<Rightarrow> (case m_disk st1 path of
                None \<Rightarrow> (st1, Inl ErrIO)
              | Some d \<Rightarrow> (case sync_uids flt now path d st1 of
                    (st2, Inl e) \<Rightarrow> (st2, Inl e)
                  | (st2, Inr u) \<Rightarrow> (st2, Inr (pick u))))))"

definition UIDValidity :: "maildir_lib \<Rightarrow> fault set \<Rightarrow> int \<Rightarrow> string \<Rightarrow> string \<Rightarrow> mstore \<Rightarrow> mstore \<times> (store_error + uint32)" where
  "UIDValidity L flt now mailbox folder st = with_uids L flt now mailbox folder uidValidity st"

definition UIDNext :: "maildir_lib \<Rightarrow> fault set \<Rightarrow> int \<Rightarrow> string \<Rightarrow> string \<Rightarrow> mstore \<Rightarrow> mstore \<times> (store_error + uint32)" where
  "UIDNext L flt now mailbox folder st = with_uids L flt now mailbox folder uidNext st"

end
