(* ===== verification/MaildirLib.thy ===== *)
theory MaildirLib
  imports Maildir
begin

text \<open>What the Maildir store relies on of the Maildir library, as the predicate \<open>lib_ok\<close> on the record of its functions: each clause
  says what a call does when it succeeds, and only looking up a key may not fail for a message that is there.  The functions
  \<open>ref_lib\<close> on lists of files satisfy it.\<close>

section \<open>The contract\<close>

text \<open>A new file and a file with flags; the name of a file in \<open>cur\<close> is its key, a colon and its flags.\<close>

definition empty_dir :: mdir where
  "empty_dir = \<lparr>d_new = [], d_cur = [], d_uids = UidMissing\<rparr>"

definition seen :: "mdir \<Rightarrow> mdir" where
  "seen d = d\<lparr>d_new := [], d_cur := d_cur d @ map (\<lambda>(k, f). (k @ '':2,'', f)) (d_new d)\<rparr>"

definition dir_keys :: "mdir \<Rightarrow> string list" where
  "dir_keys d = map (key_of_name \<circ> fst) (d_cur d) @ map fst (d_new d)"

definition name_ok :: "string \<Rightarrow> bool" where
  "name_ok k = (key_ok k \<and> CHR '':'' \<notin> set k)"

definition unseen_ok :: "maildir_lib \<Rightarrow> bool" where
  "unseen_ok L = (\<forall>d ks d'. lib_unseen L d = Some (ks, d') \<longrightarrow> ks = map fst (d_new d) \<and> d' = seen d)"

definition messages_ok :: "maildir_lib \<Rightarrow> bool" where
  "messages_ok L = (\<forall>d ms. lib_messages L d = Some ms \<longrightarrow>
     map (\<lambda>(k, n, fl). (k, n)) ms = map (\<lambda>(n, f). (key_of_name n, n)) (d_cur d))"

definition by_key_ok :: "maildir_lib \<Rightarrow> bool" where
  "by_key_ok L = (\<forall>d k. case lib_by_key L d k of
       Some n \<Rightarrow> n \<in> set (map fst (d_cur d)) \<and> key_of_name n = k
     | None \<Rightarrow> k \<notin> set (cur_keys d) \<or> \<not> distinct (cur_keys d))"

definition deliver_ok :: "maildir_lib \<Rightarrow> bool" where
  "deliver_ok L = (\<forall>now d m d'. lib_deliver L now d m = Some d' \<longrightarrow>
     (\<exists>k. name_ok k \<and> k \<notin> set (dir_keys d) \<and> d' = d\<lparr>d_new := d_new d @ [(k, \<lparr>f_data = m, f_time = now\<rparr>)]\<rparr>))"

definition remove_ok :: "maildir_lib \<Rightarrow> bool" where
  "remove_ok L = (\<forall>d n d'. lib_remove L d n = Some d' \<longrightarrow> d' = d\<lparr>d_cur := filter (\<lambda>e. fst e \<noteq> n) (d_cur d)\<rparr>)"

definition lib_ok :: "maildir_lib \<Rightarrow> bool" where
  "lib_ok L = (lib_init L None = InitOk empty_dir \<and> (\<forall>d. lib_init L (Some d) \<in> {InitOk d, InitExists, InitErr}) \<and> unseen_ok L \<and> messages_ok L \<and> by_key_ok L \<and> deliver_ok L \<and> remove_ok L)"

section \<open>A library that satisfies it\<close>

definition fresh_key :: "mdir \<Rightarrow> string" where
  "fresh_key d = replicate (Suc (sum_list (map length (dir_keys d)))) (CHR ''m'')"

definition flags_of_name :: "string \<Rightarrow> string" where
  "flags_of_name n = drop (length (key_of_name n) + 3) n"

definition ref_lib :: maildir_lib where
  "ref_lib = \<lparr>
     lib_init = (\<lambda>d. case d of None \<Rightarrow> InitOk empty_dir | Some _ \<Rightarrow> InitExists),
     lib_unseen = (\<lambda>d. Some (map fst (d_new d), seen d)),
     lib_messages = (\<lambda>d. Some (map (\<lambda>(n, f). (key_of_name n, n, flags_of_name n)) (d_cur d))),
     lib_by_key = (\<lambda>d k. List.find (\<lambda>n. key_of_name n = k) (map fst (d_cur d))),
     lib_deliver = (\<lambda>now d m. if length (fresh_key d) \<le> 255
        then Some (d\<lparr>d_new := d_new d @ [(fresh_key d, \<lparr>f_data = m, f_time = now\<rparr>)]\<rparr>) else None),
     lib_remove = (\<lambda>d n. Some (d\<lparr>d_cur := filter (\<lambda>e. fst e \<noteq> n) (d_cur d)\<rparr>)),
     lib_set_flags = (\<lambda>d n fl. Some (d\<lparr>d_cur := map (\<lambda>(m, f). (if m = n then key_of_name n @ '':2,'' @ fl else m, f)) (d_cur d)\<rparr>)),
     lib_copy_to = (\<lambda>now src n dest. map_option
        (\<lambda>f. dest\<lparr>d_cur := d_cur dest @ [(fresh_key dest @ '':2,'' @ flags_of_name n, f\<lparr>f_time := now\<rparr>)]\<rparr>) (map_of (d_cur src) n))\<rparr>"

lemma fresh_key_fresh: "fresh_key d \<notin> set (dir_keys d)"
proof
  assume "fresh_key d \<in> set (dir_keys d)"
  then have "length (fresh_key d) \<le> sum_list (map length (dir_keys d))" by (intro member_le_sum_list) simp_all
  then show False by (simp add: fresh_key_def)
qed

lemma fresh_key_ok: "length (fresh_key d) \<le> 255 \<Longrightarrow> name_ok (fresh_key d)"
  by (auto simp: fresh_key_def name_ok_def key_ok_def)

definition demo_md_cfg :: store_cfg where
  "demo_md_cfg = \<lparr>sc_basePath = ''/m'', sc_maildirSubdir = [], sc_pathTemplate = []\<rparr>"

lemma ref_lib_ok: "lib_ok ref_lib"
proof -
  have "unseen_ok ref_lib" by (simp add: unseen_ok_def ref_lib_def)
  moreover have "messages_ok ref_lib" by (simp add: messages_ok_def ref_lib_def comp_def case_prod_unfold)
  moreover have "by_key_ok ref_lib"
    by (auto simp: by_key_ok_def ref_lib_def find_Some_iff find_None_iff cur_keys_def curDirKeys_def split: option.split)
  moreover have "deliver_ok ref_lib" using fresh_key_fresh fresh_key_ok by (auto simp: deliver_ok_def ref_lib_def)
  moreover have "remove_ok ref_lib" by (simp add: remove_ok_def ref_lib_def)
  ultimately show ?thesis by (simp add: lib_ok_def ref_lib_def)
qed

end
