(* ===== verification/MaildirProps.thy ===== *)
theory MaildirProps
  imports MaildirLib
begin

text \<open>Properties of the contents of the Maildir store: what is delivered can be listed and retrieved, and expunging removes what was
  marked.\<close>

section \<open>Well-formed maildirs\<close>

text \<open>What the mailbox holds: the content of each key.\<close>

definition mail_of :: "mdir \<Rightarrow> (string \<times> string) list" where
  "mail_of d = map (\<lambda>(n, f). (key_of_name n, f_data f)) (d_cur d) @ map (\<lambda>(k, f). (k, f_data f)) (d_new d)"

definition dir_ok :: "mdir \<Rightarrow> bool" where
  "dir_ok d = (distinct (dir_keys d) \<and> list_all name_ok (dir_keys d) \<and> file_wf (d_uids d)
     \<and> next_uid_of (d_uids d) + length (dir_keys d) < 2 ^ 32)"

lemma cur_keys_map:
  "set (cur_keys d) = (key_of_name \<circ> fst) ` set (d_cur d)" "length (cur_keys d) = length (d_cur d)"
  "distinct (cur_keys d) \<longleftrightarrow> distinct (map (key_of_name \<circ> fst) (d_cur d))"
  by (simp_all add: cur_keys_def curDirKeys_def comp_def filter_map distinct_map)

lemma key_of_name_seen [simp]: "CHR '':'' \<notin> set k \<Longrightarrow> key_of_name (k @ '':2,'') = k"
  by (simp add: key_of_name_def CutByte_append)

lemma dir_keys_mail: "dir_keys d = map fst (mail_of d)"
  by (simp add: dir_keys_def mail_of_def comp_def case_prod_unfold)

lemma seen_simps [simp]: "d_new (seen d) = []" "d_uids (seen d) = d_uids d"
  by (simp_all add: seen_def)

lemma dir_ok_new:
  assumes "dir_ok d" "(k, f) \<in> set (d_new d)"
  shows "CHR '':'' \<notin> set k"
proof -
  have "k \<in> set (dir_keys d)" using assms(2) by (force simp: dir_keys_def)
  then show ?thesis using assms(1) by (simp add: dir_ok_def list_all_iff name_ok_def)
qed

lemma mail_of_seen: "dir_ok d \<Longrightarrow> mail_of (seen d) = mail_of d"
  by (auto simp: mail_of_def seen_def dir_ok_new)

lemma keys_seen: "dir_ok d \<Longrightarrow> dir_keys (seen d) = dir_keys d"
  by (simp add: dir_keys_mail mail_of_seen)

lemma cur_keys_all:
  assumes "d_new d = []"
  shows "set (cur_keys d) = set (dir_keys d)" "length (cur_keys d) = length (dir_keys d)" "distinct (cur_keys d) = distinct (dir_keys d)"
  using assms by (simp_all add: cur_keys_map dir_keys_def)

lemma cur_keys_seen:
  assumes "dir_ok d"
  shows "set (cur_keys (seen d)) = set (dir_keys d)" "length (cur_keys (seen d)) = length (dir_keys d)" "distinct (cur_keys (seen d))"
  using assms cur_keys_all[of "seen d"] keys_seen[OF assms] by (simp_all add: dir_ok_def)

lemma dir_ok_seen: "dir_ok d \<Longrightarrow> dir_ok (seen d)"
  using keys_seen[of d] by (simp add: dir_ok_def)

section \<open>UID lists of a maildir\<close>

lemma load_write_irrelevant:
  "loadOrBootstrapUIDList now fails f ks = (f', Inr u) \<Longrightarrow> loadOrBootstrapUIDList now False f ks = (f', Inr u)"
  by (cases fails) (auto simp: loadOrBootstrapUIDList_def write_uidlist_def Let_def
      split: sum.splits option.splits prod.splits bool.splits)

lemma load_next:
  assumes "file_wf f" "distinct ks" "next_uid_of f + length ks < 2 ^ 32"
    and "loadOrBootstrapUIDList now False f ks = (f', Inr u)"
  shows "unat (uidNext u) \<le> next_uid_of f + length ks"
proof (cases "\<exists>v. readUIDList f = Inr (Some v)")
  case True
  then obtain v where v: "readUIDList f = Inr (Some v)" by blast
  then have "uid_wf v" "unat (uidNext v) + length ks < 2 ^ 32" "next_uid_of f = unat (uidNext v)"
    using assms(1,3) by (auto simp: file_wf_def next_uid_of_def uid_printable_def)
  moreover have "u = fst (reconcile ks v)"
    using assms(4) v by (auto simp: loadOrBootstrapUIDList_def write_uidlist_def split: prod.split_asm bool.split_asm)
  ultimately show ?thesis using ul.sync_nxt[OF _ assms(2), of v] by simp
next
  case False
  then have n: "next_uid_of f = 1" by (auto simp: next_uid_of_def split: sum.splits option.splits)
  have "u = bootstrapUIDList now ks" using assms(4) False
    by (auto simp: loadOrBootstrapUIDList_def write_uidlist_def Let_def split: sum.splits option.splits)
  then show ?thesis using bootstrap_spec(3)[OF assms(2), of now] assms(3) n by simp
qed

lemma sync_uids_spec:
  assumes "dir_ok d" "sync_uids flt now path d st = (st1, Inr u)"
  shows "\<exists>f. st1 = put_dir path (d\<lparr>d_uids := f\<rparr>) st \<and> uid_printable u \<and> snd ` set (entries u) = set (cur_keys d)
    \<and> readUIDList f = Inr (Some u) \<and> unat (uidNext u) \<le> next_uid_of (d_uids d) + length (cur_keys d)"
proof -
  have ok: "distinct (cur_keys d)" "list_all key_ok (cur_keys d)" "next_uid_of (d_uids d) + length (cur_keys d) < 2 ^ 32"
      "file_wf (d_uids d)"
    using assms(1) by (auto simp: dir_ok_def dir_keys_def cur_keys_map list_all_iff name_ok_def)
  obtain f where "loadOrBootstrapUIDList now (FWrite \<in> flt) (d_uids d) (cur_keys d) = (f, Inr u)"
      and st1: "st1 = put_dir path (d\<lparr>d_uids := f\<rparr>) st"
    using assms(2) by (auto simp: sync_uids_def split: if_split_asm prod.split_asm sum.split_asm)
  then have "loadOrBootstrapUIDList now False (d_uids d) (cur_keys d) = (f, Inr u)" by (simp add: load_write_irrelevant)
  from load_spec[OF ok(4,1,2,3) this] load_next[OF ok(4,1,3) this] show ?thesis using st1 by auto
qed

lemma uid_of_key:
  assumes "uid_wf u" "k \<in> snd ` set (entries u)"
  obtains i where "(i, k) \<in> set (entries u)" "keyToUID u k = Some i" "uidToKey u i = Some k"
proof -
  obtain i where i: "(i, k) \<in> set (entries u)" using assms(2) by force
  show thesis by (rule that[OF i]) (simp_all add: uid_wfD(4,5)[OF assms(1)] i)
qed

section \<open>Files of a maildir\<close>

lemma cur_file:
  assumes "distinct (cur_keys d)" "(n, f) \<in> set (d_cur d)"
  shows "map_of (d_cur d) n = Some f"
proof -
  have "distinct (map fst (d_cur d))" using assms(1) by (simp add: cur_keys_map(3) distinct_map inj_on_def)
  then show ?thesis using assms(2) by simp
qed

lemma cur_name_unique:
  assumes "distinct (cur_keys d)" "n \<in> fst ` set (d_cur d)" "n' \<in> fst ` set (d_cur d)" "key_of_name n = key_of_name n'"
  shows "n = n'"
  using assms by (auto simp: cur_keys_map distinct_map inj_on_def)

lemma by_key_cur:
  assumes "by_key_ok L" "distinct (cur_keys d)" "(n, f) \<in> set (d_cur d)"
  shows "lib_by_key L d (key_of_name n) = Some n"
proof -
  have k: "key_of_name n \<in> set (cur_keys d)" using assms(3) by (force simp: cur_keys_map)
  obtain n' where n': "lib_by_key L d (key_of_name n) = Some n'" "n' \<in> fst ` set (d_cur d)" "key_of_name n' = key_of_name n"
    using assms(1,2) k by (auto simp: by_key_ok_def split: option.split_asm dest!: spec[of _ d] spec[of _ "key_of_name n"])
  have "n' = n" by (rule cur_name_unique[OF assms(2) n'(2) _ n'(3)]) (use assms(3) in force)
  then show ?thesis using n'(1) by simp
qed

lemma messages_cur:
  assumes "messages_ok L" "lib_messages L d = Some ms" "distinct (cur_keys d)" "(n, f) \<in> set (d_cur d)"
  shows "\<exists>fl. map_of (rev ms) (key_of_name n) = Some (n, fl)"
proof -
  have eq: "map (\<lambda>(k, n, fl). (k, n)) ms = map (\<lambda>(n, f). (key_of_name n, n)) (d_cur d)"
    using assms(1,2) by (simp add: messages_ok_def)
  have "map fst ms = map fst (map (\<lambda>(k, n, fl). (k, n)) ms)" by (simp add: comp_def case_prod_unfold)
  also have "\<dots> = map (key_of_name \<circ> fst) (d_cur d)" unfolding eq by (simp add: comp_def case_prod_unfold)
  finally have keys: "distinct (map fst ms)" using assms(3) by (simp add: cur_keys_map(3))
  have "(key_of_name n, n) \<in> set (map (\<lambda>(k, n, fl). (k, n)) ms)" unfolding eq using assms(4) by force
  then obtain fl where "(key_of_name n, n, fl) \<in> set ms" by auto
  then show ?thesis using keys by (intro exI[of _ fl]) (simp add: map_of_rev_distinct)
qed

lemma retrieve_cur:
  assumes "by_key_ok L" "m_disk st path = Some d" "distinct (cur_keys d)" "(n, f) \<in> set (d_cur d)"
  shows "retrieveFromDir L path (key_of_name n) st = Inr (f_data f)"
  by (simp add: retrieveFromDir_def assms(2) by_key_cur[OF assms(1,3,4)] cur_file[OF assms(3,4)])

lemma message_info_cur:
  assumes "messages_ok L" "lib_messages L d = Some ms" "distinct (cur_keys d)" "(n, f) \<in> set (d_cur d)"
  obtains m where "message_info recent ms d (i, key_of_name n) = Some m" "mi_UID m = i" "mi_Key m = key_of_name n"
    "mi_Size m = int (length (f_data f))"
  using messages_cur[OF assms] cur_file[OF assms(3,4)] by (auto simp: message_info_def)

lemma message_info_fields: "message_info recent ms d e = Some m \<Longrightarrow> mi_UID m = fst e \<and> mi_Key m = snd e"
  by (auto simp: message_info_def split: option.split_asm)

lemma reconcile_subset:
  assumes "uid_wf u" "set ks \<subseteq> snd ` set (entries u)"
  shows "entries (fst (reconcile ks u)) = filter (\<lambda>e. snd e \<in> set ks) (entries u)"
    "snd (reconcile ks u) \<longleftrightarrow> (\<exists>e \<in> set (entries u). snd e \<notin> set ks)" "uidNext (fst (reconcile ks u)) = uidNext u"
proof -
  let ?v = "fst (drop_gone ks (entries u) (u\<lparr>entries := []\<rparr>))"
  have "filter (\<lambda>k. keyToUID ?v k = None) ks = []"
    using assms uid_wf_None[OF assms(1)] by (auto simp: filter_empty_conv drop_gone_maps)
  then show "entries (fst (reconcile ks u)) = filter (\<lambda>e. snd e \<in> set ks) (entries u)"
    "snd (reconcile ks u) \<longleftrightarrow> (\<exists>e \<in> set (entries u). snd e \<notin> set ks)" "uidNext (fst (reconcile ks u)) = uidNext u"
    by (simp_all add: reconcile_def Let_def case_prod_unfold)
qed

text \<open>Loading a list that matches the directory returns it.\<close>

lemma sync_uids_stable:
  assumes "readUIDList (d_uids d) = Inr (Some u)" "uid_printable u" "snd ` set (entries u) = set (cur_keys d)"
    and "sync_uids flt now path d st = (st1, Inr v)"
  shows "v = u"
proof -
  have "\<not> snd (reconcile (cur_keys d) u)"
    using reconcile_subset(2)[of u "cur_keys d"] assms(2,3) by (auto simp: uid_printable_def)
  then have "reconcile (cur_keys d) u = (u, False)" using reconcile_unchanged[of "cur_keys d" u] by (metis prod.collapse)
  then show ?thesis using assms(1,4)
    by (auto simp: sync_uids_def loadOrBootstrapUIDList_def split: if_split_asm)
qed

section \<open>Listing and reading\<close>

lemma put_dir_simps [simp]:
  "m_disk (put_dir path d st) = (m_disk st)(path \<mapsto> d)" "m_cache (put_dir path d st) = m_cache st"
  "m_deleted (put_dir path d st) = m_deleted st" "m_cfg (put_dir path d st) = m_cfg st"
  by (simp_all add: put_dir_def)

lemma cache_simps [simp]:
  "m_disk (cacheUIDList path u st) = m_disk st" "m_cache (cacheUIDList path u st) = (m_cache st)(path \<mapsto> u)"
  "m_deleted (cacheUIDList path u st) = m_deleted st" "m_cfg (cacheUIDList path u st) = m_cfg st"
  "m_disk (invalidateUIDListCache path st) = m_disk st" "m_deleted (invalidateUIDListCache path st) = m_deleted st"
  "m_cfg (invalidateUIDListCache path st) = m_cfg st"
  by (simp_all add: cacheUIDList_def invalidateUIDListCache_def)

lemma seen_uids [simp]: "cur_keys (d\<lparr>d_uids := f\<rparr>) = cur_keys d" "mail_of (d\<lparr>d_uids := f\<rparr>) = mail_of d"
  "dir_keys (d\<lparr>d_uids := f\<rparr>) = dir_keys d" "seen (d\<lparr>d_uids := f\<rparr>) = (seen d)\<lparr>d_uids := f\<rparr>"
  by (simp_all add: cur_keys_def mail_of_def dir_keys_def seen_def)

text \<open>The outcome of a listing: the disk, the cache, and the messages.\<close>

definition listed :: "maildir_lib \<Rightarrow> string \<Rightarrow> string \<Rightarrow> mdir \<Rightarrow> uidList \<Rightarrow> mstore \<Rightarrow> mstore \<Rightarrow> messageInfo list \<Rightarrow> bool" where
  "listed L path delKey d u st st' ms = (\<exists>f recent msgs. m_disk st' = (m_disk st)(path \<mapsto> (seen d)\<lparr>d_uids := f\<rparr>)
     \<and> m_cache st' = (m_cache st)(path \<mapsto> u) \<and> m_deleted st' = m_deleted st \<and> m_cfg st' = m_cfg st
     \<and> uid_printable u \<and> snd ` set (entries u) = set (dir_keys d) \<and> readUIDList f = Inr (Some u)
     \<and> unat (uidNext u) \<le> next_uid_of (d_uids d) + length (dir_keys d)
     \<and> (\<forall>v. readUIDList (d_uids d) = Inr (Some v) \<and> uid_printable v \<and> snd ` set (entries v) = set (dir_keys d) \<longrightarrow> u = v)
     \<and> lib_messages L ((seen d)\<lparr>d_uids := f\<rparr>) = Some msgs
     \<and> ms = List.map_filter (message_info recent msgs (seen d)) (filter (\<lambda>e. fst e \<notin> set (m_deleted st delKey)) (entries u)))"

lemma listed_keys: "listed L path delKey d u st st' ms \<Longrightarrow> snd ` set (entries u) = set (dir_keys d)"
  unfolding listed_def by (elim exE conjE)

lemma listed_stable:
  assumes "listed L path delKey d u st st' ms" "readUIDList (d_uids d) = Inr (Some v)" "uid_printable v"
    "snd ` set (entries v) = set (dir_keys d)"
  shows "u = v"
  using assms unfolding listed_def by blast

lemma listDir_listed:
  assumes "lib_ok L" "m_disk st path = Some d" "dir_ok d" "listDir L flt now path delKey st = (st', Inr ms)"
  shows "\<exists>u. listed L path delKey d u st st' ms"
proof -
  obtain recent d1 where un: "lib_unseen L d = Some (recent, d1)"
    using assms(2,4) by (auto simp: listDir_def split: option.split_asm bind_split_asm)
  then have d1: "d1 = seen d" using assms(1) by (auto simp: lib_ok_def unseen_ok_def)
  obtain st1 u where sy: "sync_uids flt now path (seen d) (put_dir path (seen d) st) = (st1, Inr u)"
    using assms(2,4) un d1 by (auto simp: listDir_def Let_def split: prod.split_asm sum.split_asm)
  obtain f where f: "st1 = put_dir path ((seen d)\<lparr>d_uids := f\<rparr>) (put_dir path (seen d) st)" "uid_printable u"
      "snd ` set (entries u) = set (cur_keys (seen d))" "readUIDList f = Inr (Some u)"
      "unat (uidNext u) \<le> next_uid_of (d_uids (seen d)) + length (cur_keys (seen d))"
    using sync_uids_spec[OF dir_ok_seen[OF assms(3)] sy] by blast
  have "u = v" if "readUIDList (d_uids d) = Inr (Some v)" "uid_printable v" "snd ` set (entries v) = set (dir_keys d)" for v
    using sync_uids_stable[of "seen d" v, OF _ that(2) _ sy] that(1,3) cur_keys_seen[OF assms(3)] by simp
  moreover have "\<exists>msgs. lib_messages L ((seen d)\<lparr>d_uids := f\<rparr>) = Some msgs \<and> st' = cacheUIDList path u st1 \<and>
      ms = List.map_filter (message_info recent msgs (seen d)) (filter (\<lambda>e. fst e \<notin> set (m_deleted st delKey)) (entries u))"
    using assms(2,4) un d1 sy f(1)
    by (auto simp: listDir_def Let_def isDeleted_def split: option.split_asm)
  ultimately show ?thesis
    using f cur_keys_seen[OF assms(3)] by (auto simp: listed_def intro!: exI[of _ u] exI[of _ f] exI[of _ recent])
qed

text \<open>What a client gets: the UID, key and content of each listed message.\<close>

definition readable :: "maildir_lib \<Rightarrow> string \<Rightarrow> mstore \<Rightarrow> messageInfo list \<Rightarrow> (uint32 \<times> string \<times> string) set" where
  "readable L mailbox st ms =
     {(mi_UID m, mi_Key m, c) | m c. m \<in> set ms \<and> snd (store_Retrieve L {} 0 mailbox (mi_UID m) st) = Inr c}"

lemma set_map_filter: "set (List.map_filter g xs) = {y. \<exists>x \<in> set xs. g x = Some y}"
  by (force simp: List.map_filter_def)

lemma mail_of_cur:
  assumes "d_new d = []" "(k, c) \<in> set (mail_of d)"
  obtains n f where "(n, f) \<in> set (d_cur d)" "k = key_of_name n" "c = f_data f"
  using assms by (auto simp: mail_of_def)

lemma listed_readable:
  assumes L: "lib_ok L" and d: "dir_ok d" and path: "mailboxPath (m_cfg st) mailbox = Inr path"
    and l: "listed L path mailbox d u st st' ms"
  shows "readable L mailbox st' ms =
    {(i, k, c). (i, k) \<in> set (entries u) \<and> (k, c) \<in> set (mail_of d) \<and> i \<notin> set (m_deleted st mailbox)}"
proof -
  obtain f recent msgs where l: "m_disk st' = (m_disk st)(path \<mapsto> (seen d)\<lparr>d_uids := f\<rparr>)"
      "m_cache st' = (m_cache st)(path \<mapsto> u)" "m_deleted st' = m_deleted st" "m_cfg st' = m_cfg st" "uid_printable u"
      "snd ` set (entries u) = set (dir_keys d)" "lib_messages L ((seen d)\<lparr>d_uids := f\<rparr>) = Some msgs"
      "ms = List.map_filter (message_info recent msgs (seen d)) (filter (\<lambda>e. fst e \<notin> set (m_deleted st mailbox)) (entries u))"
    using assms(4) unfolding listed_def by blast
  have wf: "uid_wf u" using l(5) by (simp add: uid_printable_def)
  let ?d = "(seen d)\<lparr>d_uids := f\<rparr>"
  have dk: "distinct (cur_keys ?d)" using d cur_keys_seen[OF d] by (simp add: dir_ok_def)
  have ok: "by_key_ok L" "messages_ok L" using L by (auto simp: lib_ok_def)
  have read: "snd (store_Retrieve L {} 0 mailbox i st') = Inr c"
    if h: "(i, k) \<in> set (entries u)" "(k, c) \<in> set (mail_of d)" "i \<notin> set (m_deleted st mailbox)" for i k c
  proof -
    obtain n g where n: "(n, g) \<in> set (d_cur ?d)" "k = key_of_name n" "c = f_data g"
      using mail_of_cur[of ?d k c] h(2) mail_of_seen[OF d] by auto
    have "uidToKey u i = Some k" using h(1) uid_wfD(5)[OF wf] by simp
    then show ?thesis using h(3) l(1-4) path retrieve_cur[OF ok(1) _ dk n(1), of st' path] n
      by (simp add: store_Retrieve_def retrieve_at_def isDeleted_def lookupKey_def)
  qed
  have info: "\<exists>m. message_info recent msgs (seen d) (i, k) = Some m"
    if h: "(k, c) \<in> set (mail_of d)" for i k c
  proof -
    obtain n g where n: "(n, g) \<in> set (d_cur ?d)" "k = key_of_name n" "c = f_data g"
      using mail_of_cur[of ?d k c] h mail_of_seen[OF d] by auto
    then show ?thesis using messages_cur[OF ok(2) l(7) dk n(1)] cur_file[OF dk n(1)]
      by (auto simp: message_info_def)
  qed
  have in_mail: "\<exists>c. (k, c) \<in> set (mail_of d)" if "(i, k) \<in> set (entries u)" for i k
    using that l(6) by (force simp: dir_keys_mail)
  show ?thesis (is "?A = ?B")
  proof (intro set_eqI iffI)
    fix x assume "x \<in> ?A"
    then obtain m c where m: "x = (mi_UID m, mi_Key m, c)" "m \<in> set ms" "snd (store_Retrieve L {} 0 mailbox (mi_UID m) st') = Inr c"
      by (auto simp: readable_def)
    then obtain i k where e: "(i, k) \<in> set (entries u)" "i \<notin> set (m_deleted st mailbox)" "mi_UID m = i" "mi_Key m = k"
      by (auto simp: l(8) set_map_filter dest: message_info_fields)
    obtain c' where c': "(k, c') \<in> set (mail_of d)" using in_mail[OF e(1)] by blast
    then show "x \<in> ?B" using m e read[OF e(1) c' e(2)] by simp
  next
    fix x assume "x \<in> ?B"
    then obtain i k c where x: "x = (i, k, c)" "(i, k) \<in> set (entries u)" "(k, c) \<in> set (mail_of d)" "i \<notin> set (m_deleted st mailbox)"
      by auto
    obtain m where m: "message_info recent msgs (seen d) (i, k) = Some m" using info[OF x(3)] by blast
    then have "m \<in> set ms" using x by (auto simp: l(8) set_map_filter intro!: bexI[of _ "(i, k)"])
    then show "x \<in> ?A" using x read[OF x(2-4)] message_info_fields[OF m] by (force simp: readable_def)
  qed
qed

lemma store_List_listed:
  assumes "lib_ok L" "mailboxPath (m_cfg st) mailbox = Inr path" "m_disk st path = Some d" "dir_ok d"
    and "store_List L flt now mailbox st = (st', Inr ms)"
  shows "\<exists>u. listed L path mailbox d u st st' ms"
  using assms listDir_listed[OF assms(1,3,4)] by (auto simp: store_List_def ensureMaildir_def)

lemma map_filter_uids: "mi_UID ` set (List.map_filter (message_info recent msgs d) es) \<subseteq> fst ` set es"
proof
  fix i assume "i \<in> mi_UID ` set (List.map_filter (message_info recent msgs d) es)"
  then obtain m e where "i = mi_UID m" "e \<in> set es" "message_info recent msgs d e = Some m"
    by (auto simp: set_map_filter)
  then show "i \<in> fst ` set es" using message_info_fields by auto
qed

lemma listed_uids_distinct:
  assumes "listed L path delKey d u st st' ms"
  shows "distinct (map mi_UID ms)"
proof -
  have "distinct (map mi_UID (List.map_filter (message_info recent msgs d') es))" if "distinct (map fst es)" for recent msgs d' es
    using that
  proof (induction es)
    case (Cons e es)
    have "mi_UID m \<notin> mi_UID ` set (List.map_filter (message_info recent msgs d') es)"
      if "message_info recent msgs d' e = Some m" for m
      using Cons.prems message_info_fields[OF that] map_filter_uids[of recent msgs d' es] by auto
    then show ?case using Cons by (auto simp: List.map_filter_simps split: option.split)
  qed (simp add: List.map_filter_simps)
  moreover have "distinct (map fst (filter P (entries u)))" for P
    using assms by (auto simp: listed_def uid_printable_def uid_wf_def strict_sorted_iff distinct_map_filter)
  ultimately show ?thesis using assms unfolding listed_def by blast
qed

section \<open>Expunging\<close>

lemma sync_uids_loads:
  assumes "readUIDList (d_uids d) = Inr (Some u)" "uid_printable u" "snd ` set (entries u) = set (cur_keys d)"
  shows "sync_uids {} now path d st = (put_dir path d st, Inr u)"
proof -
  have "\<not> snd (reconcile (cur_keys d) u)"
    using reconcile_subset(2)[of u "cur_keys d"] assms(2,3) by (auto simp: uid_printable_def)
  then have "reconcile (cur_keys d) u = (u, False)" using reconcile_unchanged[of "cur_keys d" u] by (metis prod.collapse)
  then show ?thesis using assms(1) by (simp add: sync_uids_def loadOrBootstrapUIDList_def)
qed

lemma removeMessages_spec:
  assumes "by_key_ok L" "remove_ok L"
  shows "distinct (cur_keys d) \<Longrightarrow> removeMessages L ks d = (d', True) \<Longrightarrow>
    d' = d\<lparr>d_cur := filter (\<lambda>e. key_of_name (fst e) \<notin> set ks) (d_cur d)\<rparr>"
proof (induction ks arbitrary: d)
  case (Cons k ks)
  show ?case
  proof (cases "lib_by_key L d k")
    case None
    then have "k \<notin> set (cur_keys d)"
      using assms(1) Cons.prems(1) by (auto simp: by_key_ok_def split: option.split_asm dest!: spec[of _ d] spec[of _ k])
    then have "filter (\<lambda>e. key_of_name (fst e) \<notin> set (k # ks)) (d_cur d) = filter (\<lambda>e. key_of_name (fst e) \<notin> set ks) (d_cur d)"
      by (intro filter_cong) (auto simp: cur_keys_map)
    then show ?thesis using Cons.IH[OF Cons.prems(1)] Cons.prems(2) None by simp
  next
    case (Some n)
    then have n: "n \<in> fst ` set (d_cur d)" "key_of_name n = k"
      using assms(1) by (auto simp: by_key_ok_def split: option.split_asm dest!: spec[of _ d] spec[of _ k])
    obtain d1 where d1: "lib_remove L d n = Some d1" "removeMessages L ks d1 = (d', True)"
      using Cons.prems(2) Some by (auto split: option.split_asm)
    have "d1 = d\<lparr>d_cur := filter (\<lambda>e. fst e \<noteq> n) (d_cur d)\<rparr>" using assms(2) d1(1) by (simp add: remove_ok_def)
    moreover have "fst e = n" if "e \<in> set (d_cur d)" "key_of_name (fst e) = k" for e
      using cur_name_unique[OF Cons.prems(1) n(1), of "fst e"] that n(2) by simp
    then have "filter (\<lambda>e. fst e \<noteq> n) (d_cur d) = filter (\<lambda>e. key_of_name (fst e) \<noteq> k) (d_cur d)"
      using n(2) by (intro filter_cong) auto
    ultimately have d1': "d1 = d\<lparr>d_cur := filter (\<lambda>e. key_of_name (fst e) \<noteq> k) (d_cur d)\<rparr>" by simp
    have "distinct (cur_keys d1)"
      using Cons.prems(1) by (simp add: d1' cur_keys_map distinct_map_filter)
    from Cons.IH[OF this d1(2)] show ?thesis by (simp add: d1' conj_commute)
  qed
qed simp

text \<open>The outcome of expunging a listed maildir.\<close>

lemma expunge_dir_spec:
  assumes L: "lib_ok L" and d: "m_disk st path = Some d" "d_new d = []" "distinct (cur_keys d)"
    and u: "readUIDList (d_uids d) = Inr (Some u)" "uid_printable u" "snd ` set (entries u) = set (cur_keys d)"
    and e: "expunge_dir L flt now uids path d st = (st', None)" and ok: "dir_ok d"
  shows "\<exists>d' u'. m_disk st' path = Some d' \<and> d_new d' = [] \<and> dir_ok d' \<and> readUIDList (d_uids d') = Inr (Some u')
    \<and> uid_printable u' \<and> snd ` set (entries u') = set (cur_keys d')
    \<and> entries u' = filter (\<lambda>e. fst e \<notin> set uids) (entries u)
    \<and> mail_of d' = filter (\<lambda>p. fst p \<in> snd ` set (entries u')) (mail_of d)
    \<and> m_deleted st' = m_deleted st \<and> m_cfg st' = m_cfg st"
proof -
  note wf = uid_wfD[of u]
  have uw: "uid_wf u" using u(2) by (simp add: uid_printable_def)
  obtain st1 where sy: "sync_uids flt now path d st = (st1, Inr u)"
    using e sync_uids_stable[OF u] by (auto simp: expunge_dir_def split: prod.split_asm sum.split_asm)
  obtain f where f: "st1 = put_dir path (d\<lparr>d_uids := f\<rparr>) st" using sync_uids_spec[OF ok sy] by blast
  define ks where "ks = List.map_filter (uidToKey u) (remdups uids)"
  obtain d2 where rm: "removeMessages L ks (d\<lparr>d_uids := f\<rparr>) = (d2, True)" and
      wr: "FWrite \<notin> flt" and st': "st' = invalidateUIDListCache path (put_dir path
        (d2\<lparr>d_uids := UidBytes (uidlist_bytes (fst (reconcile (cur_keys d2) u)))\<rparr>) st1)"
    using e by (auto simp: expunge_dir_def sy f Let_def ks_def write_uidlist_def
        split: prod.split_asm bool.split_asm if_split_asm option.split_asm)
  have d2: "d2 = d\<lparr>d_uids := f, d_cur := filter (\<lambda>e. key_of_name (fst e) \<notin> set ks) (d_cur d)\<rparr>"
    using removeMessages_spec[OF _ _ _ rm] L d(3) by (simp add: lib_ok_def)
  have keys2: "set (cur_keys d2) = set (cur_keys d) - set ks" by (auto simp: d2 cur_keys_map)
  let ?v = "fst (reconcile (cur_keys d2) u)"
  have marked: "snd x \<in> set ks \<longleftrightarrow> fst x \<in> set uids" if "x \<in> set (entries u)" for x
  proof -
    obtain i k where x: "x = (i, k)" by (cases x)
    have i: "uidToKey u i = Some k" "keyToUID u k = Some i" using that uid_wfD(4,5)[OF uw] by (simp_all add: x)
    have uniq: "j = i" if "uidToKey u j = Some k" for j
    proof -
      have "keyToUID u k = Some j" using that uid_wfD(4,5)[OF uw] by simp
      then show ?thesis using i(2) by simp
    qed
    have "k \<in> set ks \<longleftrightarrow> (\<exists>j \<in> set uids. uidToKey u j = Some k)" by (simp add: ks_def set_map_filter)
    also have "\<dots> \<longleftrightarrow> i \<in> set uids" using i(1) uniq by blast
    finally show ?thesis by (simp add: x)
  qed
  have sub: "set (cur_keys d2) \<subseteq> snd ` set (entries u)" using keys2 u(3) by blast
  have ent: "entries ?v = filter (\<lambda>e. fst e \<notin> set uids) (entries u)"
    unfolding reconcile_subset(1)[OF uw sub] using keys2 u(3) marked by (intro filter_cong) auto
  have keysv: "snd ` set (entries ?v) = set (cur_keys d2)"
    unfolding reconcile_subset(1)[OF uw sub] using sub by auto
  have len: "length (cur_keys d2) \<le> length (cur_keys d)" by (simp add: d2 cur_keys_map)
  have room: "next_uid_of (d_uids d) = unat (uidNext u)" by (simp add: next_uid_of_def u(1))
  note dk = cur_keys_all[OF d(2)]
  have "unat (uidNext u) + length (cur_keys d2) < 2 ^ 32" using ok len room dk by (simp add: dir_ok_def)
  moreover have "distinct (cur_keys d2)" using d(3) by (simp add: d2 cur_keys_map distinct_map_filter)
  ultimately have dist2: "distinct (cur_keys d2)" "unat (uidNext u) + length (cur_keys d2) < 2 ^ 32" by simp_all
  have names: "list_all name_ok (cur_keys d2)" "list_all key_ok (cur_keys d2)"
    using ok keys2 dk by (auto simp: dir_ok_def list_all_iff name_ok_def)
  have pr: "uid_printable ?v" by (rule printable_reconcile[OF u(2) dist2(1,2) names(2)])
  have rd: "readUIDList (UidBytes (uidlist_bytes ?v)) = Inr (Some ?v)" by (rule read_written[OF pr])
  let ?d = "d2\<lparr>d_uids := UidBytes (uidlist_bytes ?v)\<rparr>"
  have new: "d_new ?d = []" by (simp add: d2 d(2))
  have "dir_ok ?d"
    using dist2 names(1) cur_keys_all[OF new] pr rd reconcile_subset(3)[OF uw sub]
    by (simp add: dir_ok_def list_all_iff file_wf_def next_uid_of_def)
  moreover have "mail_of ?d = filter (\<lambda>p. fst p \<in> snd ` set (entries ?v)) (mail_of d)"
  proof -
    have "mail_of ?d = filter (\<lambda>p. fst p \<notin> set ks) (mail_of d)"
      using d(2) by (simp add: mail_of_def d2 filter_map comp_def case_prod_unfold)
    also have "\<dots> = filter (\<lambda>p. fst p \<in> snd ` set (entries ?v)) (mail_of d)"
    proof (rule filter_cong)
      fix p assume "p \<in> set (mail_of d)"
      then have "fst p \<in> set (dir_keys d)" by (simp add: dir_keys_mail)
      then show "fst p \<notin> set ks \<longleftrightarrow> fst p \<in> snd ` set (entries ?v)" using keysv keys2 dk by simp
    qed simp
    finally show ?thesis .
  qed
  ultimately show ?thesis using new pr rd keysv ent st' f
    by (intro exI[of _ ?d] exI[of _ ?v]) simp
qed

lemma fold_delete:
  "fold (store_Delete mailbox) is s = s\<lparr>m_deleted := (m_deleted s)(mailbox := rev is @ m_deleted s mailbox)\<rparr>"
  by (induction "is" arbitrary: s) (simp_all add: store_Delete_def mark_deleted_def)

text \<open>The maildir after a listing, marks and an expunge.\<close>

lemma expunge_marked_spec:
  assumes "lib_ok L" "mailboxPath (m_cfg st) mailbox = Inr path" "dir_ok d" "m_deleted st mailbox = []"
    and "next_uid_of (d_uids d) + 2 * length (dir_keys d) < 2 ^ 32" "listed L path mailbox d u st st1 ms"
    and "store_Expunge L flt now mailbox (fold (store_Delete mailbox) uids st1) = (st2, None)"
  obtains d2 u2 where "m_disk st2 path = Some d2" "dir_ok d2" "readUIDList (d_uids d2) = Inr (Some u2)" "uid_printable u2"
    "snd ` set (entries u2) = set (dir_keys d2)" "entries u2 = filter (\<lambda>e. fst e \<notin> set uids) (entries u)"
    "mail_of d2 = filter (\<lambda>p. fst p \<in> snd ` set (entries u2)) (mail_of d)" "m_deleted st2 mailbox = []" "m_cfg st2 = m_cfg st"
proof -
  obtain f where f: "m_disk st1 path = Some ((seen d)\<lparr>d_uids := f\<rparr>)" "m_deleted st1 = m_deleted st" "m_cfg st1 = m_cfg st"
      "uid_printable u" "snd ` set (entries u) = set (dir_keys d)" "readUIDList f = Inr (Some u)"
      "unat (uidNext u) \<le> next_uid_of (d_uids d) + length (dir_keys d)"
    using assms(6) by (auto simp: listed_def)
  define d1 where "d1 = (seen d)\<lparr>d_uids := f\<rparr>"
  have keys1: "set (cur_keys d1) = set (dir_keys d)" "dir_keys d1 = dir_keys d" "mail_of d1 = mail_of d" "d_new d1 = []" "d_uids d1 = f"
    using cur_keys_seen[OF assms(3)] mail_of_seen[OF assms(3)] by (simp_all add: d1_def dir_keys_mail)
  have ok1: "dir_ok d1" using assms(3,5) f(4,6,7) keys1 by (simp add: dir_ok_def file_wf_def next_uid_of_def)
  define st1' where "st1' = st1\<lparr>m_deleted := (m_deleted st1)(mailbox := [])\<rparr>"
  have st1': "m_disk st1' path = Some d1" "m_cfg st1' = m_cfg st" "m_deleted st1' mailbox = []"
    using f(1,3) by (simp_all add: st1'_def d1_def)
  show thesis
  proof (cases "uids = []")
    case True
    have "mail_of d1 = filter (\<lambda>p. fst p \<in> snd ` set (entries u)) (mail_of d1)"
      using f(5) keys1 by (auto simp: dir_keys_mail intro!: filter_True[symmetric])
    moreover have "st2 = st1'" using assms(4,7) f(2) True
      by (simp add: store_Expunge_def expunge_at_def Let_def st1'_def)
    ultimately show thesis using True st1' ok1 f(4-6) keys1 by (intro that[of d1 u]) simp_all
  next
    case False
    have ex: "expunge_dir L flt now (rev uids) path d1 st1' = (st2, None)"
      using assms(2,4,7) False f(1-3)
      by (simp add: store_Expunge_def expunge_at_def Let_def fold_delete st1'_def d1_def)
    have "distinct (cur_keys d1)" using cur_keys_all(3)[OF keys1(4)] keys1(2) assms(3) by (simp add: dir_ok_def)
    then have h: "distinct (cur_keys d1)" "readUIDList (d_uids d1) = Inr (Some u)" "snd ` set (entries u) = set (cur_keys d1)"
      using f(5,6) keys1 by simp_all
    from expunge_dir_spec[OF assms(1) st1'(1) keys1(4) h(1,2) f(4) h(3) ex ok1] show thesis
    proof (elim exE conjE)
      fix d2 u2 assume d2: "m_disk st2 path = Some d2" "d_new d2 = []" "dir_ok d2" "readUIDList (d_uids d2) = Inr (Some u2)"
        "uid_printable u2" "snd ` set (entries u2) = set (cur_keys d2)"
        "entries u2 = filter (\<lambda>e. fst e \<notin> set (rev uids)) (entries u)"
        "mail_of d2 = filter (\<lambda>p. fst p \<in> snd ` set (entries u2)) (mail_of d1)"
        "m_deleted st2 = m_deleted st1'" "m_cfg st2 = m_cfg st1'"
      have k: "set (dir_keys d2) = set (cur_keys d2)" by (simp add: cur_keys_all[OF d2(2)])
      show thesis
      proof (rule that)
        show "snd ` set (entries u2) = set (dir_keys d2)" by (simp only: k d2(6))
        show "entries u2 = filter (\<lambda>e. fst e \<notin> set uids) (entries u)" using d2(7) by simp
        show "mail_of d2 = filter (\<lambda>p. fst p \<in> snd ` set (entries u2)) (mail_of d)" by (simp only: d2(8) keys1(3))
        show "m_deleted st2 mailbox = []" "m_cfg st2 = m_cfg st" by (simp_all only: d2(9,10) st1'(2,3))
      qed (fact d2)+
    qed
  qed
qed

lemma deliver_adds:
  assumes "lib_ok L" "lib_deliver L now d data = Some d'"
  shows "\<exists>key. name_ok key \<and> key \<notin> set (dir_keys d) \<and> d' = d\<lparr>d_new := d_new d @ [(key, \<lparr>f_data = data, f_time = now\<rparr>)]\<rparr>"
  using assms by (auto simp: lib_ok_def deliver_ok_def)

section \<open>Properties\<close>

text \<open>Delivered mail can be read.  After a message is delivered to a mailbox, a listing of the mailbox shows, and retrieval by
  the listed UIDs returns, exactly what was there before and the new message under a new key, byte for byte; no two
  messages share a UID.\<close>

theorem delivered_mail_can_be_read:
  assumes "lib_ok L" "rc_Extension (ParseRecipient r) = []" "mailbox = rc_Address (ParseRecipient r)"
    and "mailboxPath (m_cfg st) mailbox = Inr path" "m_disk st path = Some d" "dir_ok d"
    and "next_uid_of (d_uids d) + length (dir_keys d) + 1 < 2 ^ 32" "m_deleted st mailbox = []"
    and "store_Deliver L flt now [r] data st = (st1, folders, None)"
    and "store_List L flt' now' mailbox st1 = (st2, Inr ms)"
  shows "\<exists>key. key \<notin> set (dir_keys d) \<and> folders = [(mailbox, ''INBOX'')] \<and> distinct (map mi_UID ms)
    \<and> snd ` readable L mailbox st2 ms = insert (key, data) (set (mail_of d))"
proof -
  obtain d1 where d1: "lib_deliver L now d data = Some d1" and st1: "st1 = put_dir path d1 st" "folders = [(mailbox, ''INBOX'')]"
    using assms(2-5,9) by (auto simp: store_Deliver_def deliver_one_def ensureMaildir_def Let_def
        split: if_split_asm prod.split_asm sum.split_asm option.split_asm)
  obtain key where key: "name_ok key" "key \<notin> set (dir_keys d)"
      "d1 = d\<lparr>d_new := d_new d @ [(key, \<lparr>f_data = data, f_time = now\<rparr>)]\<rparr>"
    using deliver_adds[OF assms(1) d1] by blast
  have mail: "mail_of d1 = mail_of d @ [(key, data)]" "dir_keys d1 = dir_keys d @ [key]"
    by (simp_all add: key(3) mail_of_def dir_keys_def cur_keys_def)
  have ok1: "dir_ok d1" using assms(6,7) key(1,2) by (simp add: dir_ok_def mail(2)) (simp add: key(3))
  have path: "mailboxPath (m_cfg st1) mailbox = Inr path" "m_disk st1 path = Some d1" "m_deleted st1 mailbox = []"
    using assms(4,8) by (simp_all add: st1)
  obtain u where u: "listed L path mailbox d1 u st1 st2 ms"
    using store_List_listed[OF assms(1) path(1,2) ok1 assms(10)] by blast
  have "readable L mailbox st2 ms = {(i, k, c). (i, k) \<in> set (entries u) \<and> (k, c) \<in> set (mail_of d1)}"
    using listed_readable[OF assms(1) ok1 path(1) u] path(3) by simp
  moreover have "\<exists>i. (i, k) \<in> set (entries u)" if "(k, c) \<in> set (mail_of d1)" for k c
  proof -
    have "k \<in> snd ` set (entries u)" using that unfolding listed_keys[OF u] dir_keys_mail by force
    then show ?thesis by force
  qed
  ultimately have "snd ` readable L mailbox st2 ms = set (mail_of d1)" by (fastforce simp: image_iff)
  then show ?thesis using key(2) st1(2) listed_uids_distinct[OF u] mail(1) by auto
qed

definition demo_dir :: mdir where
  "demo_dir = \<lparr>d_new = [(''j'', \<lparr>f_data = ''kept'', f_time = 2\<rparr>)], d_cur = [(''k:2,S'', \<lparr>f_data = ''old'', f_time = 1\<rparr>)], d_uids = UidMissing\<rparr>"

definition demo_md_store :: mstore where
  "demo_md_store = NewStore demo_md_cfg [''/m/bob'' \<mapsto> demo_dir]"

definition demo_delivered :: "mstore \<times> (string \<times> string) list \<times> store_error option" where
  "demo_delivered = store_Deliver ref_lib {} 7 [''bob@d''] ''new'' demo_md_store"

definition demo_listed :: "mstore \<times> (store_error + messageInfo list)" where
  "demo_listed = store_List ref_lib {} 8 ''bob@d'' (fst demo_delivered)"

lemma demo_dir_ok: "dir_ok demo_dir" "mailboxPath (m_cfg demo_md_store) ''bob@d'' = Inr ''/m/bob''" "m_disk demo_md_store ''/m/bob'' = Some demo_dir"
  "m_deleted demo_md_store ''bob@d'' = []" "next_uid_of (d_uids demo_dir) + length (dir_keys demo_dir) + 1 < 2 ^ 32"
proof -
  have "file_wf (d_uids demo_dir)" by (simp add: demo_dir_def file_wf_def readUIDList_def)
  moreover have "distinct (dir_keys demo_dir)" "list_all name_ok (dir_keys demo_dir)"
    "next_uid_of (d_uids demo_dir) + length (dir_keys demo_dir) < 2 ^ 32" by code_simp+
  ultimately show "dir_ok demo_dir" by (simp add: dir_ok_def)
  show "mailboxPath (m_cfg demo_md_store) ''bob@d'' = Inr ''/m/bob''" by code_simp
  show "m_disk demo_md_store ''/m/bob'' = Some demo_dir" "m_deleted demo_md_store ''bob@d'' = []" by (simp_all add: demo_md_store_def NewStore_def)
  show "next_uid_of (d_uids demo_dir) + length (dir_keys demo_dir) + 1 < 2 ^ 32" by code_simp
qed

lemma demo_runs: "snd demo_delivered = ([(''bob@d'', ''INBOX'')], None)" "\<not> isl (snd demo_listed)"
  by code_simp+

theorem delivered_mail_can_be_read_witness:
  "\<exists>ms key. snd demo_listed = Inr ms \<and> key \<notin> set (dir_keys demo_dir)
     \<and> snd ` readable ref_lib ''bob@d'' (fst demo_listed) ms = insert (key, ''new'') (set (mail_of demo_dir))"
proof -
  obtain ms where ms: "snd demo_listed = Inr ms" using demo_runs(2) by (cases "snd demo_listed") auto
  have r: "rc_Extension (ParseRecipient ''bob@d'') = []" "''bob@d'' = rc_Address (ParseRecipient ''bob@d'')" by code_simp+
  have d: "store_Deliver ref_lib {} 7 [''bob@d''] ''new'' demo_md_store = (fst demo_delivered, [(''bob@d'', ''INBOX'')], None)"
    using demo_runs(1) by (metis demo_delivered_def prod.collapse)
  have l: "store_List ref_lib {} 8 ''bob@d'' (fst demo_delivered) = (fst demo_listed, Inr ms)"
    using ms by (metis demo_listed_def prod.collapse)
  show ?thesis
    using delivered_mail_can_be_read[OF ref_lib_ok r demo_dir_ok(2,3,1,5,4) d l] ms by blast
qed

text \<open>Expunging removes what was marked, and nothing else.  List a mailbox, mark any UIDs, expunge, and list it again: the second
  listing has the messages of the first whose UID was not marked, each with its UID, its key and its content.\<close>

theorem expunge_removes_exactly_marked:
  assumes "lib_ok L" "mailboxPath (m_cfg st) mailbox = Inr path" "m_disk st path = Some d" "dir_ok d" "m_deleted st mailbox = []"
    and "next_uid_of (d_uids d) + 2 * length (dir_keys d) < 2 ^ 32"
    and "store_List L flt1 now1 mailbox st = (st1, Inr ms)"
    and "store_Expunge L flt2 now2 mailbox (fold (store_Delete mailbox) uids st1) = (st2, None)"
    and "store_List L flt3 now3 mailbox st2 = (st3, Inr ms')"
  shows "readable L mailbox st3 ms' = {x \<in> readable L mailbox st1 ms. fst x \<notin> set uids}"
proof -
  obtain u where u: "listed L path mailbox d u st st1 ms" using store_List_listed[OF assms(1-4,7)] by blast
  obtain d2 u2 where d2: "m_disk st2 path = Some d2" "dir_ok d2" "readUIDList (d_uids d2) = Inr (Some u2)" "uid_printable u2"
      "snd ` set (entries u2) = set (dir_keys d2)" "entries u2 = filter (\<lambda>e. fst e \<notin> set uids) (entries u)"
      "mail_of d2 = filter (\<lambda>p. fst p \<in> snd ` set (entries u2)) (mail_of d)" "m_deleted st2 mailbox = []" "m_cfg st2 = m_cfg st"
    by (rule expunge_marked_spec[OF assms(1,2,4,5,6) u assms(8)])
  have path2: "mailboxPath (m_cfg st2) mailbox = Inr path" using assms(2) d2(9) by simp
  obtain u3 where u3: "listed L path mailbox d2 u3 st2 st3 ms'"
    using store_List_listed[OF assms(1) path2 d2(1,2) assms(9)] by blast
  have "u3 = u2" by (rule listed_stable[OF u3 d2(3-5)])
  then have "readable L mailbox st3 ms' = {(i, k, c). (i, k) \<in> set (entries u2) \<and> (k, c) \<in> set (mail_of d2)}"
    using listed_readable[OF assms(1) d2(2) path2 u3] d2(8) by simp
  moreover have "readable L mailbox st1 ms = {(i, k, c). (i, k) \<in> set (entries u) \<and> (k, c) \<in> set (mail_of d)}"
    using listed_readable[OF assms(1,4,2) u] assms(5) by simp
  moreover have "(i, k) \<in> set (entries u2) \<longleftrightarrow> (i, k) \<in> set (entries u) \<and> i \<notin> set uids" for i k
    unfolding d2(6) by simp
  moreover have "(k, c) \<in> set (mail_of d2) \<longleftrightarrow> (k, c) \<in> set (mail_of d)" if "(i, k) \<in> set (entries u2)" for i k c
    unfolding d2(7) using imageI[OF that, of snd] by simp
  ultimately show ?thesis by auto
qed

definition demo_first :: "mstore \<times> (store_error + messageInfo list)" where
  "demo_first = store_List ref_lib {} 8 ''bob@d'' demo_md_store"

definition demo_expunged :: "mstore \<times> store_error option" where
  "demo_expunged = store_Expunge ref_lib {} 9 ''bob@d'' (fold (store_Delete ''bob@d'') [1] (fst demo_first))"

definition demo_second :: "mstore \<times> (store_error + messageInfo list)" where
  "demo_second = store_List ref_lib {} 9 ''bob@d'' (fst demo_expunged)"

lemma demo_expunge_runs: "snd demo_expunged = None"
  "(case snd demo_first of Inr ms \<Rightarrow> map mi_UID ms | Inl _ \<Rightarrow> []) = [1, 2]"
  "(case snd demo_second of Inr ms \<Rightarrow> map mi_UID ms | Inl _ \<Rightarrow> []) = [2]"
  by code_simp+

theorem expunge_removes_exactly_marked_witness:
  "\<exists>ms ms'. snd demo_first = Inr ms \<and> map mi_UID ms = [1, 2] \<and> snd demo_second = Inr ms' \<and> map mi_UID ms' = [2]
     \<and> readable ref_lib ''bob@d'' (fst demo_second) ms' = {x \<in> readable ref_lib ''bob@d'' (fst demo_first) ms. fst x \<notin> set [1]}"
proof -
  obtain ms ms' where ms: "snd demo_first = Inr ms" "map mi_UID ms = [1, 2]" "snd demo_second = Inr ms'" "map mi_UID ms' = [2]"
    using demo_expunge_runs(2,3) by (cases "snd demo_first"; cases "snd demo_second") auto
  have room: "next_uid_of (d_uids demo_dir) + 2 * length (dir_keys demo_dir) < 2 ^ 32" by code_simp
  have l1: "store_List ref_lib {} 8 ''bob@d'' demo_md_store = (fst demo_first, Inr ms)"
    using ms(1) by (metis demo_first_def prod.collapse)
  have ex: "store_Expunge ref_lib {} 9 ''bob@d'' (fold (store_Delete ''bob@d'') [1] (fst demo_first)) = (fst demo_expunged, None)"
    using demo_expunge_runs(1) by (metis demo_expunged_def prod.collapse)
  have l2: "store_List ref_lib {} 9 ''bob@d'' (fst demo_expunged) = (fst demo_second, Inr ms')"
    using ms(3) by (metis demo_second_def prod.collapse)
  show ?thesis using expunge_removes_exactly_marked[OF ref_lib_ok demo_dir_ok(2,3,1,4) room l1 ex l2] ms
    by (intro exI[of _ ms] exI[of _ ms']) simp
qed

lemma newKey_delivered:
  assumes "key \<notin> fst ` set (d_new d)"
  shows "maildirNewKey (maildirNewKeys d) (d\<lparr>d_new := d_new d @ [(key, f)]\<rparr>) = Some key"
proof -
  let ?P = "\<lambda>k. k \<notin> set (maildirNewKeys d)" and ?xs = "sort (map fst (d_new d) @ [key])"
  obtain k where k: "List.find ?P ?xs = Some k"
    using assms by (cases "List.find ?P ?xs") (auto simp: find_None_iff maildirNewKeys_def)
  then have "k \<in> set ?xs \<and> ?P k" unfolding find_Some_iff using nth_mem by blast
  then have "k = key" by (auto simp: maildirNewKeys_def)
  then show ?thesis using k by (simp add: maildirNewKey_def)
qed

text \<open>A maildir after an append.\<close>

lemma moved_dir:
  assumes "name_ok key" "key \<notin> set (dir_keys d)"
    and "moveNewToCurWithFlags flt key flags (d\<lparr>d_new := d_new d @ [(key, f)]\<rparr>) = Some d'"
  shows "\<exists>name. key_of_name name = key \<and> d' = d\<lparr>d_cur := d_cur d @ [(name, f)]\<rparr>"
proof -
  let ?name = "key @ '':'' @ infoFromFlags flags"
  have key: "key_of_name ?name = key" using assms(1) by (simp add: key_of_name_def CutByte_append name_ok_def)
  have new: "key \<notin> fst ` set (d_new d)" and cur: "key \<notin> key_of_name ` fst ` set (d_cur d)"
    using assms(2) by (auto simp: dir_keys_def)
  have "filter (\<lambda>e. fst e \<noteq> key) (d_new d) = d_new d" using new by (intro filter_True) auto
  moreover have "filter (\<lambda>e. fst e \<noteq> ?name) (d_cur d) = d_cur d" using cur key by (intro filter_True) (metis imageI)
  moreover have "map_of (d_new d @ [(key, f)]) key = Some f"
    using new map_of_eq_None_iff[of "d_new d" key] by (simp add: map_add_def)
  ultimately have "d' = d\<lparr>d_cur := d_cur d @ [(?name, f)]\<rparr>"
    using assms(3) by (auto simp: moveNewToCurWithFlags_def Let_def split: if_split_asm)
  then show ?thesis using key by blast
qed

lemma append_dir:
  assumes "dir_ok d" "name_ok key" "key \<notin> set (dir_keys d)" "next_uid_of (d_uids d) + length (dir_keys d) + 1 < 2 ^ 32"
    and "moveNewToCurWithFlags flt key flags (d\<lparr>d_new := d_new d @ [(key, f)]\<rparr>) = Some d'"
  shows "\<exists>name. (name, f) \<in> set (d_cur d') \<and> key_of_name name = key \<and> dir_ok d'"
proof -
  obtain name where key: "key_of_name name = key" and d': "d' = d\<lparr>d_cur := d_cur d @ [(name, f)]\<rparr>"
    using moved_dir[OF assms(2,3,5)] by blast
  have "dir_keys d' = map (key_of_name \<circ> fst) (d_cur d) @ key # map fst (d_new d)" using key by (simp add: d' dir_keys_def)
  then have "dir_ok d'" using assms(1-4) by (auto simp: dir_ok_def dir_keys_def d')
  then show ?thesis using key by (auto simp: d')
qed

text \<open>C31: an append returns the UID of what was appended.  When appending to a folder returns a UID, looking that UID up afterwards
  finds a key that was not in the folder before, and retrieving the key returns the appended bytes.\<close>

theorem append_returns_its_uid:
  assumes "lib_ok L" "folderOrInboxPath (m_cfg st) mailbox folder = Inr path" "m_disk st path = Some d" "dir_ok d"
    and "next_uid_of (d_uids d) + length (dir_keys d) + 1 < 2 ^ 32"
    and "AppendToFolder L flt now mailbox folder data flags st = (st1, Inr uid)"
  shows "\<exists>st2 key. lookupKey {} now' path uid st1 = (st2, Inr key) \<and> key \<notin> set (dir_keys d)
    \<and> retrieveFromDir L path key st2 = Inr data"
proof -
  obtain st0 where st0: "init_dir L flt True path st = (st0, None)" "m_disk st0 path = Some d"
  proof -
    have "lib_init L (Some d) \<in> {InitOk d, InitExists, InitErr}" using assms(1) by (simp add: lib_ok_def)
    then show thesis using assms(2,3,6) that
      by (auto simp: AppendToFolder_def init_dir_def split: if_split_asm init_result.split_asm)
  qed
  obtain d1 key d2 st' u where d1: "lib_deliver L now d data = Some d1" "maildirNewKey (maildirNewKeys d) d1 = Some key"
      "moveNewToCurWithFlags flt key (convertFlagsFromIMAP flags) d1 = Some d2"
      "sync_uids flt now path d2 (put_dir path d2 st0) = (st', Inr u)" "st1 = invalidateUIDListCache path st'" "keyToUID u key = Some uid"
    using assms(2,6) st0 by (auto simp: AppendToFolder_def split: if_split_asm option.split_asm prod.split_asm sum.split_asm)
  obtain k where k: "name_ok k" "k \<notin> set (dir_keys d)" "d1 = d\<lparr>d_new := d_new d @ [(k, \<lparr>f_data = data, f_time = now\<rparr>)]\<rparr>"
    using deliver_adds[OF assms(1) d1(1)] by blast
  have "key = k" using newKey_delivered[of k d] d1(2) k(2,3) by (auto simp: dir_keys_def)
  then obtain name where name: "(name, \<lparr>f_data = data, f_time = now\<rparr>) \<in> set (d_cur d2)" "key_of_name name = key" "dir_ok d2"
    using append_dir[OF assms(4) k(1,2) assms(5)] d1(3) k(3) by blast
  obtain f where f: "st' = put_dir path (d2\<lparr>d_uids := f\<rparr>) (put_dir path d2 st0)" "uid_printable u"
      "snd ` set (entries u) = set (cur_keys d2)" "readUIDList f = Inr (Some u)"
    using sync_uids_spec[OF name(3) d1(4)] by blast
  let ?d = "d2\<lparr>d_uids := f\<rparr>"
  have "uidToKey u uid = Some key" using d1(6) f(2) uid_wfD(4,5)[of u] by (simp add: uid_printable_def)
  then have look: "lookupKey {} now' path uid st1 = (cacheUIDList path u (put_dir path ?d st1), Inr key)"
    using sync_uids_loads[of ?d u now' path st1] f d1(5) by (simp add: lookupKey_def invalidateUIDListCache_def)
  have "distinct (cur_keys ?d)" using name(3) by (simp add: dir_ok_def dir_keys_def cur_keys_map)
  then have "retrieveFromDir L path key (cacheUIDList path u (put_dir path ?d st1)) = Inr data"
    using retrieve_cur[of L _ path ?d name] name(1,2) assms(1) by (auto simp: lib_ok_def)
  then show ?thesis using look k(2) \<open>key = k\<close> by blast
qed

definition demo_appended :: "mstore \<times> (store_error + uint32)" where
  "demo_appended = AppendToFolder ref_lib {} 7 ''bob@d'' ''Inbox'' ''sent'' [imap_name ''Seen''] demo_md_store"

lemma demo_append_runs: "snd demo_appended = Inr 2"
  by code_simp

theorem append_returns_its_uid_witness:
  "\<exists>st key. lookupKey {} 8 ''/m/bob'' 2 (fst demo_appended) = (st, Inr key) \<and> key \<notin> set (dir_keys demo_dir)
     \<and> retrieveFromDir ref_lib ''/m/bob'' key st = Inr ''sent''"
proof -
  have path: "folderOrInboxPath (m_cfg demo_md_store) ''bob@d'' ''Inbox'' = Inr ''/m/bob''" by code_simp
  have "AppendToFolder ref_lib {} 7 ''bob@d'' ''Inbox'' ''sent'' [imap_name ''Seen''] demo_md_store = (fst demo_appended, Inr 2)"
    using demo_append_runs by (metis demo_appended_def prod.collapse)
  from append_returns_its_uid[OF ref_lib_ok path demo_dir_ok(3,1,5) this] show ?thesis .
qed

text \<open>The destination of a copy, with a message another program put there after the last listing.\<close>

definition demo_copy_store :: mstore where
  "demo_copy_store = NewStore demo_md_cfg [''/m/bob'' \<mapsto> demo_dir\<lparr>d_new := []\<rparr>,
     ''/m/bob/.Saved'' \<mapsto> \<lparr>d_new = [], d_cur = [(''z:2,'', \<lparr>f_data = ''other'', f_time = 3\<rparr>)], d_uids = UidMissing\<rparr>]"

definition demo_copied :: "mstore \<times> (store_error + uint32)" where
  "demo_copied = CopyMessage ref_lib {} 7 ''bob@d'' ''INBOX'' 1 ''Saved'' demo_copy_store"

text \<open>A copy can return the UID of another message.  \<open>CopyMessage\<close> returns one less than the next UID, whichever message got
  it; when the destination holds a message that has no UID yet and whose file name sorts after the copy, the returned UID is that
  message's and the copy has another one.\<close>

theorem copy_returns_another_uid:
  "snd demo_copied = Inr 2
   \<and> snd (RetrieveFromFolder ref_lib {} 8 ''bob@d'' ''Saved'' 2 (fst demo_copied)) = Inr ''other''
   \<and> snd (RetrieveFromFolder ref_lib {} 8 ''bob@d'' ''Saved'' 1 (fst demo_copied)) = Inr ''old''"
  by code_simp

end
