(* ===== verification/MaildirPaths.thy ===== *)
theory MaildirPaths
  imports MaildirLib
begin

text \<open>Where the Maildir store works: with an absolute base directory, whatever the mailbox and folder names, template and
  subdirectory are, no operation changes a directory outside the base directory.\<close>

section \<open>Absolute paths\<close>

lemma clean_step_rooted: "list_all plain_comp stk \<Longrightarrow> CHR ''/'' \<notin> set c \<Longrightarrow> list_all plain_comp (clean_step True stk c)"
  by (auto simp: clean_step_def plain_comp_def split: list.splits)

lemma path_comps_plain:
  assumes "IsAbs p"
  shows "list_all plain_comp (path_comps p)"
proof -
  have "list_all plain_comp (foldl (clean_step True) stk cs)"
    if "list_all plain_comp stk" "\<forall>c \<in> set cs. CHR ''/'' \<notin> set c" for stk cs
    using that by (induction cs arbitrary: stk) (simp_all add: clean_step_rooted)
  from this[of "[]" "SplitByte (CHR ''/'') p"] show ?thesis
    using assms SplitByte_pieces[of _ "CHR ''/''" p] by (simp add: path_comps_def clean_comps_def)
qed

lemma IsAbs_render [simp]: "IsAbs (render_path True cs)"
  by (simp add: render_path_def IsAbs_def HasPrefix_def)

lemma path_comps_render:
  assumes "list_all plain_comp cs"
  shows "path_comps (render_path True cs) = cs"
proof (cases "cs = []")
  case False
  then have "SplitByte (CHR ''/'') (JoinBytes ''/'' cs) = cs"
    using assms by (intro SplitByte_JoinBytes) (auto simp: list_all_iff plain_comp_def)
  then have "SplitByte (CHR ''/'') (render_path True cs) = [[]] @ cs"
    using SplitByte_append_sep[of "CHR ''/''" "[]" "JoinBytes ''/'' cs"] by (simp add: render_path_def)
  then show ?thesis using assms by (simp add: path_comps_def clean_comps_def clean_step_def foldl_clean_step_plain)
qed (simp add: path_comps_def clean_comps_def clean_step_def render_path_def)

lemma Clean_abs:
  assumes "IsAbs p"
  shows "IsAbs (Clean p)" "path_comps (Clean p) = path_comps p"
  using assms path_comps_plain[OF assms] by (simp_all add: Clean_path_comps path_comps_render)

lemma IsAbs_Join:
  assumes "IsAbs b"
  shows "IsAbs (Join (b # es))"
proof -
  have "b \<noteq> []" using assms by (auto simp: IsAbs_def HasPrefix_def)
  moreover have "IsAbs (JoinBytes ''/'' (b # es))"
    using assms \<open>b \<noteq> []\<close> by (cases es) (simp_all add: IsAbs_append)
  ultimately show ?thesis by (simp add: Join_def Clean_abs(1))
qed

lemma slash_parts:
  assumes "b @ CHR ''/'' # x = c @ CHR ''/'' # y" "CHR ''/'' \<notin> set b" "CHR ''/'' \<notin> set c"
  shows "b = c \<and> x = y"
  using assms by (induction b arbitrary: c) (auto simp: Cons_eq_append_conv append_eq_Cons_conv)

text \<open>A textual prefix up to a separator is a prefix of components.\<close>

lemma prefix_components:
  assumes "prefix (concat (map (\<lambda>c. c @ ''/'') bs)) (concat (map (\<lambda>c. c @ ''/'') cs))"
    and "list_all plain_comp bs" "list_all plain_comp cs"
  shows "prefix bs cs"
  using assms
proof (induction bs arbitrary: cs)
  case (Cons b bs)
  then obtain c cs' where cs: "cs = c # cs'" by (cases cs) auto
  obtain z where z: "(b @ CHR ''/'' # concat (map (\<lambda>c. c @ ''/'') bs)) @ z = c @ CHR ''/'' # concat (map (\<lambda>c. c @ ''/'') cs')"
    using Cons.prems(1) by (auto simp: cs prefix_def)
  then have eq: "b = c \<and> concat (map (\<lambda>c. c @ ''/'') bs) @ z = concat (map (\<lambda>c. c @ ''/'') cs')"
    using Cons.prems(2,3) by (intro slash_parts) (auto simp: cs plain_comp_def)
  then have "prefix (concat (map (\<lambda>c. c @ ''/'') bs)) (concat (map (\<lambda>c. c @ ''/'') cs'))"
    by (metis prefixI)
  then show ?case using eq Cons.IH[of cs'] Cons.prems(2,3) by (simp add: cs)
qed simp

lemma JoinBytes_concat: "cs \<noteq> [] \<Longrightarrow> JoinBytes ''/'' cs @ ''/'' = concat (map (\<lambda>c. c @ ''/'') cs)"
  by (induction "''/''" cs rule: JoinBytes.induct) auto

lemma prefix_inside:
  assumes "IsAbs b" "IsAbs p" "HasPrefix (Clean p @ ''/'') (Clean b @ ''/'')"
  shows "prefix (path_comps b) (path_comps p)"
proof (cases "path_comps b = []")
  case False
  have pre: "prefix (JoinBytes ''/'' (path_comps b) @ ''/'') (JoinBytes ''/'' (path_comps p) @ ''/'')"
    using assms by (simp add: Clean_path_comps render_path_def HasPrefix_iff_prefix)
  have "path_comps p \<noteq> []"
  proof
    assume "path_comps p = []"
    then have "length (JoinBytes ''/'' (path_comps b)) = 0" using prefix_length_le[OF pre] by simp
    then show False using False path_comps_plain[OF assms(1)]
      by (cases "path_comps b"; cases "tl (path_comps b)") (auto simp: plain_comp_def)
  qed
  then show ?thesis
    using pre False prefix_components path_comps_plain[OF assms(1)] path_comps_plain[OF assms(2)]
    by (simp add: JoinBytes_concat)
qed simp

section \<open>The base directory\<close>

definition inside :: "string \<Rightarrow> string \<Rightarrow> bool" where
  "inside base p = (IsAbs p \<and> prefix (path_comps base) (path_comps p) \<and> ''..'' \<notin> set (SplitByte (CHR ''/'') p))"

lemma Clean_no_dotdot:
  assumes "IsAbs p"
  shows "''..'' \<notin> set (SplitByte (CHR ''/'') (Clean p))"
proof -
  have plain: "list_all plain_comp (path_comps p)" by (rule path_comps_plain[OF assms])
  have "Clean p = [] @ CHR ''/'' # JoinBytes ''/'' (path_comps p)" using assms by (simp add: Clean_path_comps render_path_def)
  then have split: "SplitByte (CHR ''/'') (Clean p) = [] # SplitByte (CHR ''/'') (JoinBytes ''/'' (path_comps p))"
    by (simp only: SplitByte_append_sep) simp
  show ?thesis
  proof (cases "path_comps p = []")
    case False
    then have "SplitByte (CHR ''/'') (JoinBytes ''/'' (path_comps p)) = path_comps p"
      using plain by (intro SplitByte_JoinBytes) (auto simp: list_all_iff plain_comp_def)
    then show ?thesis using plain by (auto simp: split list_all_iff plain_comp_def)
  qed (simp add: split)
qed

lemma insideI:
  assumes "IsAbs b" "IsAbs p" "HasPrefix (Clean p @ ''/'') (Clean b @ ''/'')"
  shows "inside b (Clean p)"
  using assms prefix_inside Clean_abs Clean_no_dotdot by (simp add: inside_def)

lemma mailboxPath_inside:
  assumes "IsAbs (sc_basePath cfg)" "mailboxPath cfg mailbox = Inr p"
  shows "inside (sc_basePath cfg) p"
  using assms insideI IsAbs_Join by (auto simp: mailboxPath_def Let_def split: if_split_asm)

lemma folderPath_inside:
  assumes "IsAbs (sc_basePath cfg)" "folderPath cfg mailbox folder = Inr p"
  shows "inside (sc_basePath cfg) p"
proof -
  obtain b where b: "mailboxPath cfg mailbox = Inr b" "p = Clean (Join [b, ''.'' @ folder])"
      "HasPrefix (p @ ''/'') (Clean b @ ''/'')"
    using assms(2) by (auto simp: folderPath_def Let_def split: if_split_asm sum.split_asm)
  have in_b: "inside (sc_basePath cfg) b" by (rule mailboxPath_inside[OF assms(1) b(1)])
  then have abs: "IsAbs b" "IsAbs (Join [b, ''.'' @ folder])" by (auto simp: inside_def intro: IsAbs_Join)
  have "inside b p" using insideI[OF abs] b(2,3) by simp
  then show ?thesis using in_b by (auto simp: inside_def intro: prefix_order.trans)
qed

lemma folderOrInboxPath_inside:
  assumes "IsAbs (sc_basePath cfg)" "folderOrInboxPath cfg mailbox folder = Inr p"
  shows "inside (sc_basePath cfg) p"
  using assms mailboxPath_inside folderPath_inside by (auto simp: folderOrInboxPath_def split: if_split_asm)

section \<open>The operations\<close>

datatype store_op =
    OpDeliver "string list" string | OpList string | OpStat string | OpRetrieve string uint32
  | OpDelete string uint32 | OpExpunge string
  | OpEnsureDefaultFolders string | OpCreateFolder string string | OpDeleteFolder string string | OpRenameFolder string string string
  | OpListInFolder string string | OpStatFolder string string | OpRetrieveFromFolder string string uint32
  | OpDeleteInFolder string string uint32 | OpExpungeFolder string string | OpDeliverToFolder string string string
  | OpAppendToFolder string string string "string list" | OpSetFlagsInFolder string string uint32 "string list"
  | OpCopyMessage string string uint32 string | OpUIDValidity string string | OpUIDNext string string

fun store_step :: "maildir_lib \<Rightarrow> fault set \<Rightarrow> int \<Rightarrow> store_op \<Rightarrow> mstore \<Rightarrow> mstore" where
  "store_step L flt now (OpDeliver rs data) st = fst (store_Deliver L flt now rs data st)"
| "store_step L flt now (OpList m) st = fst (store_List L flt now m st)"
| "store_step L flt now (OpStat m) st = fst (store_Stat L flt now m st)"
| "store_step L flt now (OpRetrieve m uid) st = fst (store_Retrieve L flt now m uid st)"
| "store_step L flt now (OpDelete m uid) st = store_Delete m uid st"
| "store_step L flt now (OpExpunge m) st = fst (store_Expunge L flt now m st)"
| "store_step L flt now (OpEnsureDefaultFolders m) st = fst (EnsureDefaultFolders L flt m st)"
| "store_step L flt now (OpCreateFolder m f) st = fst (CreateFolder L flt m f st)"
| "store_step L flt now (OpDeleteFolder m f) st = fst (DeleteFolder flt m f st)"
| "store_step L flt now (OpRenameFolder m f g) st = fst (RenameFolder flt m f g st)"
| "store_step L flt now (OpListInFolder m f) st = fst (ListInFolder L flt now m f st)"
| "store_step L flt now (OpStatFolder m f) st = fst (StatFolder L flt now m f st)"
| "store_step L flt now (OpRetrieveFromFolder m f uid) st = fst (RetrieveFromFolder L flt now m f uid st)"
| "store_step L flt now (OpDeleteInFolder m f uid) st = fst (DeleteInFolder m f uid st)"
| "store_step L flt now (OpExpungeFolder m f) st = fst (ExpungeFolder L flt now m f st)"
| "store_step L flt now (OpDeliverToFolder m f data) st = fst (DeliverToFolder L flt now m f data st)"
| "store_step L flt now (OpAppendToFolder m f data flags) st = fst (AppendToFolder L flt now m f data flags st)"
| "store_step L flt now (OpSetFlagsInFolder m f uid flags) st = fst (SetFlagsInFolder L flt now m f uid flags st)"
| "store_step L flt now (OpCopyMessage m f uid g) st = fst (CopyMessage L flt now m f uid g st)"
| "store_step L flt now (OpUIDValidity m f) st = fst (UIDValidity L flt now m f st)"
| "store_step L flt now (OpUIDNext m f) st = fst (UIDNext L flt now m f st)"

text \<open>A history: each operation with the faults it meets and the time it runs at.\<close>

fun store_run :: "maildir_lib \<Rightarrow> (fault set \<times> int \<times> store_op) list \<Rightarrow> mstore \<Rightarrow> mstore" where
  "store_run L [] st = st"
| "store_run L ((flt, now, op) # ops) st = store_run L ops (store_step L flt now op st)"

text \<open>The store has the configuration and, outside the base directory, the disk it started with.\<close>

definition kept :: "store_cfg \<Rightarrow> (string \<Rightarrow> mdir option) \<Rightarrow> mstore \<Rightarrow> bool" where
  "kept cfg D st = (m_cfg st = cfg \<and> IsAbs (sc_basePath cfg) \<and> (\<forall>p. \<not> inside (sc_basePath cfg) p \<longrightarrow> m_disk st p = D p))"

named_theorems kept_intro

lemma kept_state [kept_intro]:
  "kept cfg D st \<Longrightarrow> kept cfg D (cacheUIDList path u st)" "kept cfg D st \<Longrightarrow> kept cfg D (invalidateUIDListCache path st)"
  "kept cfg D st \<Longrightarrow> kept cfg D (st\<lparr>m_deleted := x\<rparr>)"
  by (simp_all add: kept_def cacheUIDList_def invalidateUIDListCache_def)

lemma kept_put [kept_intro]: "kept cfg D st \<Longrightarrow> inside (sc_basePath cfg) path \<Longrightarrow> kept cfg D (put_dir path d st)"
  by (auto simp: kept_def put_dir_def)

lemma kept_path:
  assumes "kept cfg D st"
  shows "mailboxPath (m_cfg st) m = Inr p \<Longrightarrow> inside (sc_basePath cfg) p"
    "folderPath (m_cfg st) m f = Inr p \<Longrightarrow> inside (sc_basePath cfg) p"
    "folderOrInboxPath (m_cfg st) m f = Inr p \<Longrightarrow> inside (sc_basePath cfg) p"
  using assms mailboxPath_inside folderPath_inside folderOrInboxPath_inside by (auto simp: kept_def)

named_theorems kept_dest

lemma kept_init_dir [kept_dest]:
  "init_dir L flt accept path st = (st', r) \<Longrightarrow> kept cfg D st \<Longrightarrow> inside (sc_basePath cfg) path \<Longrightarrow> kept cfg D st'"
  by (auto simp: init_dir_def intro: kept_intro split: if_split_asm init_result.split_asm)

lemma kept_default_folders [kept_intro]: "kept cfg D st \<Longrightarrow> kept cfg D (default_folders L flt m names st)"
proof (induction names arbitrary: st)
  case (Cons name names)
  then show ?case
    by (auto split: sum.split prod.split option.split dest: kept_init_dir kept_path(2))
qed simp

lemma kept_ensureMaildir:
  assumes "ensureMaildir L flt m st = (st', r)" "kept cfg D st"
  shows "kept cfg D st'" "r = Inr p \<Longrightarrow> inside (sc_basePath cfg) p"
proof -
  have "kept cfg D st' \<and> (r = Inr p \<longrightarrow> inside (sc_basePath cfg) p)"
  proof (cases "mailboxPath (m_cfg st) m")
    case (Inr q)
    then show ?thesis using assms kept_path(1)[OF assms(2) Inr]
      by (auto simp: ensureMaildir_def intro: kept_intro dest: kept_dest split: if_split_asm prod.split_asm option.split_asm)
  qed (use assms in \<open>auto simp: ensureMaildir_def\<close>)
  then show "kept cfg D st'" "r = Inr p \<Longrightarrow> inside (sc_basePath cfg) p" by blast+
qed

lemma kept_ensureFolderMaildir:
  assumes "ensureFolderMaildir L flt m f st = (st', r)" "kept cfg D st"
  shows "kept cfg D st'" "r = Inr p \<Longrightarrow> inside (sc_basePath cfg) p"
proof -
  obtain st1 r1 where e: "ensureMaildir L flt m st = (st1, r1)" by (cases "ensureMaildir L flt m st")
  note k = kept_ensureMaildir(1)[OF e assms(2)]
  have "kept cfg D st' \<and> (r = Inr p \<longrightarrow> inside (sc_basePath cfg) p)"
  proof (cases "folderPath (m_cfg st1) m f")
    case (Inr q)
    then show ?thesis using assms e k kept_path(2)[OF k Inr]
      by (auto simp: ensureFolderMaildir_def dest: kept_dest split: if_split_asm prod.split_asm sum.split_asm option.split_asm)
  qed (use assms e k in \<open>auto simp: ensureFolderMaildir_def split: sum.split_asm\<close>)
  then show "kept cfg D st'" "r = Inr p \<Longrightarrow> inside (sc_basePath cfg) p" by blast+
qed

lemmas kept_ensure [kept_dest] = kept_ensureMaildir(1) kept_ensureFolderMaildir(1)

lemma kept_sync_uids [kept_dest]:
  "sync_uids flt now path d st = (st', r) \<Longrightarrow> kept cfg D st \<Longrightarrow> inside (sc_basePath cfg) path \<Longrightarrow> kept cfg D st'"
  by (auto simp: sync_uids_def intro: kept_intro split: if_split_asm prod.split_asm sum.split_asm)

lemma kept_listDir [kept_dest]:
  assumes "listDir L flt now path delKey st = (st', r)" "kept cfg D st" "inside (sc_basePath cfg) path"
  shows "kept cfg D st'"
  using assms kept_put[OF assms(2,3)]
  by (auto simp: listDir_def Let_def intro: kept_intro dest: kept_sync_uids split: option.split_asm prod.split_asm sum.split_asm)

lemma kept_lookupKey [kept_dest]:
  "lookupKey flt now path uid st = (st', r) \<Longrightarrow> kept cfg D st \<Longrightarrow> inside (sc_basePath cfg) path \<Longrightarrow> kept cfg D st'"
  by (auto simp: lookupKey_def intro: kept_intro dest: kept_dest split: option.split_asm prod.split_asm sum.split_asm)

lemma kept_CreateFolder [kept_dest]:
  assumes "CreateFolder L flt m f st = (st', r)" "kept cfg D st"
  shows "kept cfg D st'"
proof (cases "folderPath (m_cfg st) m f")
  case (Inr p)
  then show ?thesis using assms kept_path(2)[OF assms(2) Inr]
    by (auto simp: CreateFolder_def dest: kept_dest split: if_split_asm prod.split_asm sum.split_asm)
qed (use assms in \<open>simp add: CreateFolder_def\<close>)

lemma kept_ensure_folders [kept_dest]: "ensure_folders L flt m names st = (st', r) \<Longrightarrow> kept cfg D st \<Longrightarrow> kept cfg D st'"
  by (induction names arbitrary: st) (auto dest: kept_CreateFolder split: prod.split_asm option.split_asm if_split_asm)

lemma kept_deliver_one [kept_dest]:
  assumes "deliver_one L flt now data r st = (st', res)" "kept cfg D st"
  shows "kept cfg D st'"
proof -
  let ?ext = "if rc_Extension (ParseRecipient r) = [] then None
    else folderIfExists (rc_Address (ParseRecipient r)) (rc_Extension (ParseRecipient r)) st"
  have ext: "inside (sc_basePath cfg) p" if "?ext = Some p" for p
    using that kept_path(2)[OF assms(2)] by (auto simp: folderIfExists_def split: if_split_asm sum.split_asm)
  obtain st1 r1 where e: "ensureMaildir L flt (rc_Address (ParseRecipient r)) st = (st1, r1)"
    by (cases "ensureMaildir L flt (rc_Address (ParseRecipient r)) st")
  note k = kept_ensureMaildir[OF e assms(2)]
  show ?thesis
  proof (cases ?ext)
    case None
    then show ?thesis using assms(1) e k
      by (cases r1) (auto simp: deliver_one_def Let_def intro: kept_intro split: option.split_asm if_split_asm)
  next
    case (Some p)
    then show ?thesis using assms ext[OF Some]
      by (auto simp: deliver_one_def Let_def intro: kept_intro split: option.split_asm if_split_asm)
  qed
qed

lemma kept_deliver_each [kept_dest]: "deliver_each L flt now data rs st = (st', folders, err) \<Longrightarrow> kept cfg D st \<Longrightarrow> kept cfg D st'"
proof (induction rs arbitrary: st st' folders err)
  case (Cons r rs)
  obtain st1 res where one: "deliver_one L flt now data r st = (st1, res)" by (cases "deliver_one L flt now data r st")
  obtain st2 fs e where each: "deliver_each L flt now data rs st1 = (st2, fs, e)" by (cases "deliver_each L flt now data rs st1")
  have "kept cfg D st2" by (rule Cons.IH[OF each kept_deliver_one[OF one Cons.prems(2)]])
  moreover have "st' = st2" using Cons.prems(1) one each by (auto split: sum.split_asm option.split_asm)
  ultimately show ?case by simp
qed simp

lemma kept_retrieve_at [kept_dest]:
  assumes "retrieve_at L flt now delKey at missing uid st = (st', r)" "kept cfg D st" "\<And>p. at = Inr p \<Longrightarrow> inside (sc_basePath cfg) p"
  shows "kept cfg D st'"
proof (cases "at")
  case (Inr p)
  then show ?thesis using assms(1,2) assms(3)[OF Inr]
    by (auto simp: retrieve_at_def dest: kept_dest split: if_split_asm prod.split_asm sum.split_asm)
qed (use assms(1,2) in \<open>auto simp: retrieve_at_def split: if_split_asm\<close>)

lemma kept_expunge_dir [kept_dest]:
  assumes "expunge_dir L flt now uids path d st = (st', r)" "kept cfg D st" "inside (sc_basePath cfg) path"
  shows "kept cfg D st'"
proof -
  obtain st1 r1 where e: "sync_uids flt now path d st = (st1, r1)" by (cases "sync_uids flt now path d st")
  have "kept cfg D st1" by (rule kept_sync_uids[OF e assms(2,3)])
  then show ?thesis using assms(1,3) e
    by (auto simp: expunge_dir_def Let_def intro!: kept_intro split: if_split_asm sum.split_asm prod.split_asm bool.split_asm)
qed

lemma kept_expunge_at:
  assumes "expunge_at L flt now delKey at missing st = (st', r)" "kept cfg D st" "\<And>p. at = Inr p \<Longrightarrow> inside (sc_basePath cfg) p"
  shows "kept cfg D st'"
proof (cases "at")
  case (Inr p)
  then show ?thesis using assms(1) kept_state(3)[OF assms(2)] assms(3)[OF Inr]
    by (auto simp: expunge_at_def Let_def dest: kept_dest split: if_split_asm option.split_asm)
qed (use assms(1) kept_state(3)[OF assms(2)] in \<open>auto simp: expunge_at_def Let_def split: if_split_asm\<close>)

lemma kept_AppendToFolder [kept_dest]:
  assumes "AppendToFolder L flt now m f data flags st = (st', r)" "kept cfg D st"
  shows "kept cfg D st'"
proof (cases "folderOrInboxPath (m_cfg st) m f")
  case (Inr p)
  note i = kept_path(3)[OF assms(2) Inr]
  obtain st1 r1 where e: "init_dir L flt True p st = (st1, r1)" by (cases "init_dir L flt True p st")
  have k: "kept cfg D st1" by (rule kept_init_dir[OF e assms(2) i])
  show ?thesis using assms(1) Inr e k i kept_put[OF k i]
    by (auto simp: AppendToFolder_def intro: kept_intro dest: kept_sync_uids split: option.split_asm if_split_asm prod.split_asm sum.split_asm)
qed (use assms in \<open>auto simp: AppendToFolder_def\<close>)

lemma kept_SetFlagsInFolder [kept_dest]:
  assumes "SetFlagsInFolder L flt now m f uid flags st = (st', r)" "kept cfg D st"
  shows "kept cfg D st'"
proof (cases "folderOrInboxPath (m_cfg st) m f")
  case (Inr p)
  note i = kept_path(3)[OF assms(2) Inr]
  obtain st1 r1 where e: "lookupKey flt now p uid st = (st1, r1)" by (cases "lookupKey flt now p uid st")
  have k: "kept cfg D st1" by (rule kept_lookupKey[OF e assms(2) i])
  show ?thesis using assms(1) Inr e k i
    by (auto simp: SetFlagsInFolder_def intro: kept_intro split: option.split_asm if_split_asm sum.split_asm)
qed (use assms in \<open>auto simp: SetFlagsInFolder_def\<close>)

lemma kept_CopyMessage [kept_dest]:
  assumes "CopyMessage L flt now m f uid g st = (st', r)" "kept cfg D st"
  shows "kept cfg D st'"
proof (cases "folderOrInboxPath (m_cfg st) m f")
  case (Inr p)
  note p = Inr
  show ?thesis
  proof (cases "folderOrInboxPath (m_cfg st) m g")
    case (Inr q)
    note i = kept_path(3)[OF assms(2) p] kept_path(3)[OF assms(2) Inr]
    obtain st1 r1 where e: "lookupKey flt now p uid st = (st1, r1)" by (cases "lookupKey flt now p uid st")
    have k1: "kept cfg D st1" by (rule kept_lookupKey[OF e assms(2) i(1)])
    obtain st2 r2 where e2: "init_dir L flt True q st1 = (st2, r2)" by (cases "init_dir L flt True q st1")
    have k: "kept cfg D st2" by (rule kept_init_dir[OF e2 k1 i(2)])
    show ?thesis using assms(1) p Inr e e2 k1 k i kept_put[OF k i(2)]
      by (auto simp: CopyMessage_def intro: kept_intro dest: kept_sync_uids split: option.split_asm prod.split_asm sum.split_asm)
  qed (use assms p in \<open>auto simp: CopyMessage_def\<close>)
qed (use assms in \<open>auto simp: CopyMessage_def\<close>)

lemma kept_with_uids [kept_dest]:
  assumes "with_uids L flt now m f pick st = (st', r)" "kept cfg D st"
  shows "kept cfg D st'"
proof -
  let ?E = "if ToLower f = ''inbox'' then ensureMaildir L flt m st else ensureFolderMaildir L flt m f st"
  obtain st1 r1 where e: "?E = (st1, r1)" by (cases ?E)
  have k: "kept cfg D st1" using e assms(2) by (auto dest: kept_dest split: if_split_asm)
  show ?thesis
  proof (cases "folderOrInboxPath (m_cfg st1) m f")
    case (Inr p)
    then show ?thesis using assms(1) e k kept_path(3)[OF k Inr]
      by (auto simp: with_uids_def dest: kept_sync_uids split: option.split_asm prod.split_asm sum.split_asm)
  qed (use assms(1) e k in \<open>auto simp: with_uids_def split: sum.split_asm\<close>)
qed

lemma kept_disk: "kept cfg D st \<Longrightarrow> inside (sc_basePath cfg) p \<Longrightarrow> kept cfg D (st\<lparr>m_disk := (m_disk st)(p := x)\<rparr>)"
  by (simp add: kept_def)

lemma kept_DeleteFolder:
  assumes "kept cfg D st"
  shows "kept cfg D (fst (DeleteFolder flt m f st))"
proof (cases "folderPath (m_cfg st) m f")
  case (Inr p)
  let ?st = "st\<lparr>m_deleted := (m_deleted st)(folderDeletionKey m f := [])\<rparr>"
  have k: "kept cfg D ?st" by (rule kept_state(3)[OF assms])
  show ?thesis using assms k kept_disk[OF k kept_path(2)[OF assms Inr], of None] by (simp add: DeleteFolder_def Inr Let_def)
qed (use assms in \<open>simp add: DeleteFolder_def\<close>)

lemma kept_RenameFolder:
  assumes "kept cfg D st"
  shows "kept cfg D (fst (RenameFolder flt m f g st))"
proof (cases "folderPath (m_cfg st) m f")
  case (Inr p)
  note p = Inr
  show ?thesis
  proof (cases "folderPath (m_cfg st) m g")
    case (Inr q)
    let ?st = "st\<lparr>m_deleted := (m_deleted st)(folderDeletionKey m f := [])\<rparr>"
    have k: "kept cfg D ?st" by (rule kept_state(3)[OF assms])
    show ?thesis
      using assms k kept_disk[OF kept_disk[OF k kept_path(2)[OF assms Inr], of "m_disk st p"] kept_path(2)[OF assms p], of None]
      by (simp add: RenameFolder_def p Inr Let_def)
  qed (use assms p in \<open>simp add: RenameFolder_def\<close>)
qed (use assms in \<open>simp add: RenameFolder_def\<close>)

lemma kept_store_List:
  assumes "kept cfg D st"
  shows "kept cfg D (fst (store_List L flt now m st))"
proof -
  obtain st1 r1 where e: "ensureMaildir L flt m st = (st1, r1)" by (cases "ensureMaildir L flt m st")
  show ?thesis
  proof (cases r1)
    case (Inr p)
    obtain st2 r2 where l: "listDir L flt now p m st1 = (st2, r2)" by (cases "listDir L flt now p m st1")
    have "kept cfg D st2"
      by (rule kept_listDir[OF l kept_ensureMaildir(1)[OF e assms] kept_ensureMaildir(2)[OF e assms Inr]])
    then show ?thesis by (simp add: store_List_def e Inr l)
  qed (simp add: store_List_def e kept_ensureMaildir(1)[OF e assms])
qed

lemma kept_ListInFolder:
  assumes "kept cfg D st"
  shows "kept cfg D (fst (ListInFolder L flt now m f st))"
proof (cases "folderPath (m_cfg st) m f")
  case (Inr p)
  obtain st2 r2 where l: "listDir L flt now p (folderDeletionKey m f) st = (st2, r2)"
    by (cases "listDir L flt now p (folderDeletionKey m f) st")
  show ?thesis using kept_listDir[OF l assms kept_path(2)[OF assms Inr]] assms by (simp add: ListInFolder_def Inr l)
qed (use assms in \<open>simp add: ListInFolder_def\<close>)

lemma kept_DeliverToFolder:
  assumes "kept cfg D st"
  shows "kept cfg D (fst (DeliverToFolder L flt now m f data st))"
proof -
  obtain st1 r1 where e: "ensureFolderMaildir L flt m f st = (st1, r1)" by (cases "ensureFolderMaildir L flt m f st")
  note k = kept_ensureFolderMaildir[OF e assms]
  show ?thesis by (cases r1) (simp_all add: DeliverToFolder_def e k(1) kept_put[OF k] split: option.split)
qed

lemma kept_fst: "(\<And>st' r. f = (st', r) \<Longrightarrow> kept cfg D st') \<Longrightarrow> kept cfg D (fst f)"
  by (cases f) simp

lemma kept_Deliver: "kept cfg D st \<Longrightarrow> kept cfg D (fst (store_Deliver L flt now rs data st))"
  by (simp add: store_Deliver_def kept_deliver_each split: prod.split)

lemma kept_totals: "fst (store_Stat L flt now m st) = fst (store_List L flt now m st)"
  "fst (StatFolder L flt now m f st) = fst (ListInFolder L flt now m f st)"
  by (simp_all add: store_Stat_def StatFolder_def split: prod.split sum.split)

lemma kept_marks: "kept cfg D st \<Longrightarrow> kept cfg D (store_Delete m uid st)"
  "kept cfg D st \<Longrightarrow> kept cfg D (fst (DeleteInFolder m f uid st))"
  by (simp_all add: store_Delete_def DeleteInFolder_def mark_deleted_def kept_state(3))

lemma kept_reads:
  assumes "kept cfg D st"
  shows "kept cfg D (fst (store_Retrieve L flt now m uid st))" "kept cfg D (fst (RetrieveFromFolder L flt now m f uid st))"
    "kept cfg D (fst (store_Expunge L flt now m st))" "kept cfg D (fst (ExpungeFolder L flt now m f st))"
    "kept cfg D (fst (UIDValidity L flt now m f st))" "kept cfg D (fst (UIDNext L flt now m f st))"
    "kept cfg D (fst (EnsureDefaultFolders L flt m st))"
  unfolding store_Retrieve_def RetrieveFromFolder_def store_Expunge_def ExpungeFolder_def UIDValidity_def UIDNext_def
    EnsureDefaultFolders_def
  by (rule kept_fst, erule kept_retrieve_at[OF _ assms kept_path(1)[OF assms]] kept_retrieve_at[OF _ assms kept_path(2)[OF assms]]
      kept_expunge_at[OF _ assms kept_path(1)[OF assms]] kept_expunge_at[OF _ assms kept_path(2)[OF assms]]
      kept_with_uids[OF _ assms] kept_ensure_folders[OF _ assms], assumption?)+

lemma kept_step:
  assumes "kept cfg D st"
  shows "kept cfg D (store_step L flt now op st)"
  by (cases op) (simp_all add: assms kept_Deliver kept_totals kept_store_List kept_ListInFolder kept_marks kept_reads
      kept_DeleteFolder kept_RenameFolder kept_DeliverToFolder kept_fst kept_CreateFolder[OF _ assms]
      kept_AppendToFolder[OF _ assms] kept_SetFlagsInFolder[OF _ assms] kept_CopyMessage[OF _ assms])

lemma kept_run: "kept cfg D st \<Longrightarrow> kept cfg D (store_run L ops st)"
  by (induction L ops st rule: store_run.induct) (simp_all add: kept_step)

section \<open>Properties\<close>

text \<open>C21: the store never leaves its base directory.  With an absolute base directory, no history of operations, with
  whatever mailbox names, folder names and faults, changes a directory that is not below the base directory.\<close>

theorem store_stays_below_base:
  assumes "IsAbs (sc_basePath cfg)" "m_disk (store_run L ops (NewStore cfg disk)) p \<noteq> disk p"
  shows "prefix (path_comps (sc_basePath cfg)) (path_comps p) \<and> ''..'' \<notin> set (SplitByte (CHR ''/'') p)"
proof -
  have "kept cfg disk (NewStore cfg disk)" using assms(1) by (simp add: kept_def NewStore_def)
  then have "kept cfg disk (store_run L ops (NewStore cfg disk))" by (rule kept_run)
  then show ?thesis using assms(2) unfolding kept_def inside_def by blast
qed

definition demo_md_ops :: "(fault set \<times> int \<times> store_op) list" where
  "demo_md_ops = [({}, 5, OpDeliver [''x/../bob@d''] ''hi'')]"

theorem store_stays_below_base_witness:
  "IsAbs (sc_basePath demo_md_cfg) \<and> m_disk (store_run ref_lib demo_md_ops (NewStore demo_md_cfg Map.empty)) ''/m/bob'' \<noteq> None
   \<and> prefix (path_comps (sc_basePath demo_md_cfg)) (path_comps ''/m/bob'') \<and> ''..'' \<notin> set (SplitByte (CHR ''/'') ''/m/bob'')"
proof -
  have "IsAbs (sc_basePath demo_md_cfg)" by code_simp
  moreover have "m_disk (store_run ref_lib demo_md_ops (NewStore demo_md_cfg Map.empty)) ''/m/bob'' \<noteq> None" by code_simp
  ultimately show ?thesis using store_stays_below_base[of demo_md_cfg ref_lib demo_md_ops Map.empty "''/m/bob''"] by simp
qed

end
