(* ===== verification/SessionManager.thy ===== *)
theory SessionManager
  imports Identity AuthRouter Base64
begin

text \<open>The session manager (\<open>internal/session-manager/manager/manager.go\<close>): starting mail-session processes under the identity
  of their user, and the registry of sessions.  A login takes the lock of the registry twice and starts the process in between, timers
  and the exits of processes run concurrently, so the registry is a step system whose steps are the critical sections.  The random
  token of a login is an argument of its step, different from every token issued before.\<close>

section \<open>Starting a mail-session\<close>

record sm_cfg =
  cf_DomainsPath :: string
  cf_DomainsDataPath :: string

datatype spawn_fault = SpMkdir | SpChown | SpPipe | SpStart | SpNotReady | SpDial

datatype spawn_error =
    InvalidUsername | CredentialLookup cred_error | SocketDirErr | SocketDirChown | KeyPipeErr | StartErr | DialErr

record child =
  ch_uid :: uint32
  ch_gid :: uint32
  ch_args :: "string list"
  ch_fd3 :: "string option"

text \<open>The directories and processes of the manager.\<close>

record os_state =
  os_dirs :: "string list"
  os_procs :: "child list"

definition keyEnvelope :: "string \<Rightarrow> string" where
  "keyEnvelope key = ''{\"version\":1,\"key\":\"'' @ b64_encode key @ ''\"}'' @ [CHR 10]"

definition keyPipe :: "spawn_fault set \<Rightarrow> string \<Rightarrow> spawn_error + string" where
  "keyPipe flt privKey = (if SpPipe \<in> flt then Inl KeyPipeErr else Inr (keyEnvelope privKey))"

definition startAndWaitReady :: "spawn_fault set \<Rightarrow> child \<Rightarrow> os_state \<Rightarrow> os_state \<times> spawn_error option" where
  "startAndWaitReady flt ch os =
     (if SpStart \<in> flt then (os, Some StartErr)
      else let os1 = os\<lparr>os_procs := ch # os_procs os\<rparr>
           in if SpNotReady \<in> flt then (os1\<lparr>os_procs := remove1 ch (os_procs os1)\<rparr>, Some StartErr) else (os1, None))"

text \<open>Making the directory of the socket, starting the process in it and dialling it.\<close>

definition start_in_dir :: "spawn_fault set \<Rightarrow> string \<Rightarrow> (spawn_error + child) \<Rightarrow> os_state \<Rightarrow> os_state \<times> (spawn_error + child)" where
  "start_in_dir flt dir prepared os =
     (if SpMkdir \<in> flt then (os, Inl SocketDirErr)
      else let os1 = os\<lparr>os_dirs := dir # os_dirs os\<rparr>;
               removed = (\<lambda>x. x\<lparr>os_dirs := remove1 dir (os_dirs x)\<rparr>)
           in if SpChown \<in> flt then (removed os1, Inl SocketDirChown)
              else case prepared of
                Inl e \<Rightarrow> (removed os1, Inl e)
              | Inr ch \<Rightarrow> (case startAndWaitReady flt ch os1 of
                    (os2, Some e) \<Rightarrow> (removed os2, Inl e)
                  | (os2, None) \<Rightarrow>
                      if SpDial \<in> flt then (removed (os2\<lparr>os_procs := remove1 ch (os_procs os2)\<rparr>), Inl DialErr)
                      else (os2, Inr ch)))"

definition session_args :: "sm_cfg \<Rightarrow> string \<Rightarrow> string \<Rightarrow> cred_info \<Rightarrow> string list" where
  "session_args cfg dir mailbox creds =
     [''--mode=daemon'', ''--socket='' @ Join [dir, ''session.sock''], ''--mailbox='' @ mailbox,
      ''--type='' @ cred_type creds, ''--basepath='' @ cred_base creds]
     @ (if cf_DomainsPath cfg \<noteq> [] then [''--domains-path='' @ cf_DomainsPath cfg] else [])
     @ (if cf_DomainsDataPath cfg \<noteq> [] then [''--domains-data-path='' @ cf_DomainsDataPath cfg] else [])"

definition delivery_args :: "sm_cfg \<Rightarrow> string \<Rightarrow> string \<Rightarrow> cred_info \<Rightarrow> string list" where
  "delivery_args cfg dir recipient creds =
     [''--mode=oneshot'', ''--socket='' @ Join [dir, ''session.sock''], ''--mailbox='' @ recipient,
      ''--type='' @ cred_type creds, ''--basepath='' @ cred_base creds, ''--domains-path='' @ cf_DomainsPath cfg]
     @ (if cf_DomainsDataPath cfg \<noteq> [] then [''--domains-data-path='' @ cf_DomainsDataPath cfg] else [])"

text \<open>The lookup of credentials is a function of the local part and the domain; the directory is the one the system made.\<close>

definition spawnSession :: "sm_cfg \<Rightarrow> (string \<Rightarrow> string \<Rightarrow> cred_error + cred_info) \<Rightarrow> spawn_fault set \<Rightarrow> string \<Rightarrow> string \<Rightarrow> string \<Rightarrow> string
    \<Rightarrow> os_state \<Rightarrow> os_state \<times> (spawn_error + child)" where
  "spawnSession cfg lookup flt dir username mailbox privKey os = (case CutByte (CHR ''@'') username of
       None \<Rightarrow> (os, Inl InvalidUsername)
     | Some (localpart, domainName) \<Rightarrow> (case lookup localpart domainName of
           Inl e \<Rightarrow> (os, Inl (CredentialLookup e))
         | Inr creds \<Rightarrow>
             (let prepared = (\<lambda>fd. \<lparr>ch_uid = cred_uid creds, ch_gid = cred_gid creds,
                    ch_args = session_args cfg dir mailbox creds, ch_fd3 = fd\<rparr>)
              in start_in_dir flt dir
                   (if length privKey = 32
                    then case keyPipe flt privKey of Inl e \<Rightarrow> Inl e | Inr env \<Rightarrow> Inr (prepared (Some env))
                    else Inr (prepared None)) os)))"

definition DeliverySession :: "sm_cfg \<Rightarrow> (string \<Rightarrow> string \<Rightarrow> cred_error + cred_info) \<Rightarrow> spawn_fault set \<Rightarrow> string \<Rightarrow> string
    \<Rightarrow> os_state \<Rightarrow> os_state \<times> (spawn_error + child)" where
  "DeliverySession cfg lookup flt dir recipient os = (case CutByte (CHR ''@'') recipient of
       None \<Rightarrow> (os, Inl InvalidUsername)
     | Some (localpart, domainName) \<Rightarrow> (case lookup localpart domainName of
           Inl e \<Rightarrow> (os, Inl (CredentialLookup e))
         | Inr creds \<Rightarrow> start_in_dir flt dir
             (Inr \<lparr>ch_uid = cred_uid creds, ch_gid = cred_gid creds, ch_args = delivery_args cfg dir recipient creds,
                   ch_fd3 = None\<rparr>) os))"

text \<open>The cleanup of a delivery ends the process and removes its directory.\<close>

definition delivery_cleanup :: "string \<Rightarrow> child \<Rightarrow> os_state \<Rightarrow> os_state" where
  "delivery_cleanup dir ch os = os\<lparr>os_procs := remove1 ch (os_procs os), os_dirs := remove1 dir (os_dirs os)\<rparr>"

section \<open>Recipients\<close>

definition sm_ValidateRecipient :: "'d router \<Rightarrow> ('d \<Rightarrow> string) \<Rightarrow> string \<Rightarrow> (bool \<times> bool \<times> bool) option" where
  "sm_ValidateRecipient r rejection address = (case CutByte (CHR ''@'') address of
       None \<Rightarrow> None
     | Some (localpart, domainName) \<Rightarrow>
         (if domainName = [] then None
          else case r_provider r of
            None \<Rightarrow> Some (False, False, False)
          | Some get \<Rightarrow> (case get domainName of
                None \<Rightarrow> Some (False, False, False)
              | Some d \<Rightarrow> (let deferRejection = (rejection d = ''data'') in
                  case router_UserExists r address of
                    Inl e \<Rightarrow> Some (True, False, deferRejection)
                  | Inr ex \<Rightarrow> Some (True, ex, deferRejection)))))"

definition ResolveForward :: "(string \<Rightarrow> 'd option) option \<Rightarrow> ('d \<Rightarrow> (string \<Rightarrow> string list option) option) \<Rightarrow> string \<Rightarrow> string list option" where
  "ResolveForward provider agent recipient = (case provider of
       None \<Rightarrow> None
     | Some get \<Rightarrow> (case CutByte (CHR ''@'') recipient of
           None \<Rightarrow> None
         | Some (localpart, domainName) \<Rightarrow>
             (if domainName = [] then None
              else case get domainName of
                None \<Rightarrow> None
              | Some d \<Rightarrow> (case agent d of None \<Rightarrow> None | Some resolve \<Rightarrow> resolve localpart))))"

section \<open>The registry\<close>

text \<open>An entry is known by its address.  Beside the maps of the manager, the state has what runs concurrently: the processes, the
  timers that are armed, the reaper calls of timers that have fired, the monitors, the logins that are starting a process and
  those that have one and wait for the lock.  \<open>g_issued\<close> is the history of the tokens that were answered, with the name of the login they answered.\<close>

record sessionEntry =
  se_username :: string
  se_mailbox :: string
  se_child :: child
  se_refCount :: int
  se_idleTimer :: "nat option"
  se_waited :: bool
  se_open :: bool

record smgr =
  g_heap :: "nat \<Rightarrow> sessionEntry option"
  g_byToken :: "string \<Rightarrow> nat option"
  g_byUser :: "string \<Rightarrow> nat option"
  g_running :: "nat set"
  g_armed :: "(nat \<times> nat) set"
  g_fired :: "nat list"
  g_monitors :: "nat set"
  g_spawning :: "(string \<times> string) list"
  g_spawned :: "nat list"
  g_issued :: "(string \<times> string) list"
  g_next :: nat
  g_nextTimer :: nat

definition New_Manager :: smgr where
  "New_Manager = \<lparr>g_heap = Map.empty, g_byToken = Map.empty, g_byUser = Map.empty, g_running = {}, g_armed = {}, g_fired = [],
     g_monitors = {}, g_spawning = [], g_spawned = [], g_issued = [], g_next = 0, g_nextTimer = 0\<rparr>"

definition entry_upd :: "nat \<Rightarrow> (sessionEntry \<Rightarrow> sessionEntry) \<Rightarrow> smgr \<Rightarrow> smgr" where
  "entry_upd e f g = g\<lparr>g_heap := (g_heap g)(e := map_option f (g_heap g e))\<rparr>"

definition username_of :: "nat \<Rightarrow> smgr \<Rightarrow> string" where
  "username_of e g = (case g_heap g e of None \<Rightarrow> [] | Some en \<Rightarrow> se_username en)"

text \<open>A timer that has fired already is not stopped: its reaper waits for the lock.\<close>

definition disarm :: "nat \<Rightarrow> smgr \<Rightarrow> smgr" where
  "disarm e g = (case Option.bind (g_heap g e) se_idleTimer of None \<Rightarrow> g | Some t \<Rightarrow> g\<lparr>g_armed := g_armed g - {(t, e)}\<rparr>)"

definition stop_timer :: "nat \<Rightarrow> smgr \<Rightarrow> smgr" where
  "stop_timer e g = entry_upd e (se_idleTimer_update (\<lambda>_. None)) (disarm e g)"

definition generateTokenLocked :: "string \<Rightarrow> nat \<Rightarrow> smgr \<Rightarrow> smgr" where
  "generateTokenLocked token e g = g\<lparr>g_byToken := (g_byToken g)(token \<mapsto> e)\<rparr>"

definition isAliveLocked :: "nat \<Rightarrow> smgr \<Rightarrow> bool" where
  "isAliveLocked e g = (e \<in> g_running g)"

text \<open>A process that was sent the signal to end has ended.\<close>

definition killEntry :: "nat \<Rightarrow> smgr \<Rightarrow> smgr" where
  "killEntry e g = (entry_upd e (\<lambda>en. en\<lparr>se_open := False, se_waited := True\<rparr>) g)\<lparr>g_running :=
     (case g_heap g e of None \<Rightarrow> g_running g
      | Some en \<Rightarrow> if se_waited en then g_running g else g_running g - {e})\<rparr>"

definition drop_tokens :: "nat \<Rightarrow> smgr \<Rightarrow> smgr" where
  "drop_tokens e g = g\<lparr>g_byToken := (\<lambda>token. if g_byToken g token = Some e then None else g_byToken g token)\<rparr>"

definition removeEntryLocked :: "nat \<Rightarrow> smgr \<Rightarrow> smgr" where
  "removeEntryLocked e g =
     (let g1 = stop_timer e g;
          g2 = g1\<lparr>g_byUser := (g_byUser g1)(username_of e g1 := None)\<rparr>
      in killEntry e (drop_tokens e g2))"

definition reuse_entry :: "nat \<Rightarrow> string \<Rightarrow> smgr \<Rightarrow> smgr" where
  "reuse_entry e token g =
     generateTokenLocked token e (entry_upd e (\<lambda>en. en\<lparr>se_refCount := se_refCount en + 1\<rparr>) (stop_timer e g))"

text \<open>The two critical sections of a login; the first answers whether an entry was reused.\<close>

definition login_reuse :: "string \<Rightarrow> string \<Rightarrow> smgr \<Rightarrow> smgr \<times> bool" where
  "login_reuse username token g = (case g_byUser g username of
       None \<Rightarrow> (g, False)
     | Some e \<Rightarrow> (if \<not> isAliveLocked e g then (removeEntryLocked e g, False) else (reuse_entry e token g, True)))"

definition login_register :: "string \<Rightarrow> nat \<Rightarrow> string \<Rightarrow> smgr \<Rightarrow> smgr" where
  "login_register username e token g = (case g_byUser g username of
       Some existing \<Rightarrow> reuse_entry existing token (killEntry e g)
     | None \<Rightarrow> (generateTokenLocked token e (g\<lparr>g_byUser := (g_byUser g)(username \<mapsto> e)\<rparr>))\<lparr>g_monitors := insert e (g_monitors g)\<rparr>)"

text \<open>The entry of a started process.\<close>

definition new_entry :: "string \<Rightarrow> string \<Rightarrow> child \<Rightarrow> smgr \<Rightarrow> smgr" where
  "new_entry username mailbox ch g =
     g\<lparr>g_heap := (g_heap g)(g_next g \<mapsto> \<lparr>se_username = username, se_mailbox = mailbox, se_child = ch, se_refCount = 1,
         se_idleTimer = None, se_waited = False, se_open = True\<rparr>),
       g_running := insert (g_next g) (g_running g), g_spawned := g_next g # g_spawned g, g_next := g_next g + 1\<rparr>"

definition sm_Logout :: "string \<Rightarrow> smgr \<Rightarrow> smgr \<times> bool" where
  "sm_Logout token g = (case g_byToken g token of
       None \<Rightarrow> (g, False)
     | Some e \<Rightarrow>
         (let g1 = entry_upd e (\<lambda>en. en\<lparr>se_refCount := se_refCount en - 1\<rparr>) (g\<lparr>g_byToken := (g_byToken g)(token := None)\<rparr>)
          in case g_heap g1 e of
               None \<Rightarrow> (g1, True)
             | Some en \<Rightarrow>
                 (if se_refCount en \<le> 0
                  then ((entry_upd e (se_idleTimer_update (\<lambda>_. Some (g_nextTimer g1))) g1)
                          \<lparr>g_armed := insert (g_nextTimer g1, e) (g_armed g1), g_nextTimer := g_nextTimer g1 + 1\<rparr>, True)
                  else (g1, True))))"

definition SessionForToken :: "string \<Rightarrow> smgr \<Rightarrow> nat option" where
  "SessionForToken token g = g_byToken g token"

definition monitorProcess :: "nat \<Rightarrow> smgr \<Rightarrow> smgr" where
  "monitorProcess e g =
     (let g1 = entry_upd e (se_waited_update (\<lambda>_. True)) g
      in if g_byUser g1 (username_of e g1) = Some e
         then let g2 = stop_timer e g1;
                  g3 = g2\<lparr>g_byUser := (g_byUser g2)(username_of e g2 := None)\<rparr>
              in entry_upd e (se_open_update (\<lambda>_. False)) (drop_tokens e g3)
         else g1)"

definition reapSession :: "nat \<Rightarrow> smgr \<Rightarrow> smgr" where
  "reapSession e g = (case g_heap g e of
       None \<Rightarrow> g
     | Some en \<Rightarrow>
         (if 0 < se_refCount en then g
          else killEntry e (drop_tokens e (g\<lparr>g_byUser := (g_byUser g)(se_username en := None)\<rparr>))))"

definition registered :: "smgr \<Rightarrow> nat \<Rightarrow> bool" where
  "registered g e = (g_byUser g (username_of e g) = Some e)"

definition sm_Close :: "smgr \<Rightarrow> smgr" where
  "sm_Close g =
     (fold (\<lambda>e. killEntry e \<circ> disarm e) (filter (registered g) [0..<g_next g]) g)\<lparr>g_byToken := Map.empty, g_byUser := Map.empty\<rparr>"

section \<open>A login on its own\<close>

record sm_LoginResult =
  lr_Token :: string
  lr_Mailbox :: string
  lr_Extension :: string
  lr_MaxSendsPerHour :: int

text \<open>The manager reads the mailbox of the authenticated user, which fails when the agent gave none.\<close>

datatype login_error = AuthenticationFailed auth_error | NilUser | SpawnFailed spawn_error

definition login_result :: "('d \<Rightarrow> int) \<Rightarrow> 'd AuthResult \<Rightarrow> string \<Rightarrow> string \<Rightarrow> sm_LoginResult" where
  "login_result maxSends res mailbox token = \<lparr>lr_Token = token, lr_Mailbox = mailbox, lr_Extension = ar_Extension res,
     lr_MaxSendsPerHour = (case ar_Domain res of None \<Rightarrow> 0 | Some d \<Rightarrow> maxSends d)\<rparr>"

definition sm_Login :: "sm_cfg \<Rightarrow> (string \<Rightarrow> string \<Rightarrow> cred_error + cred_info) \<Rightarrow> ('d \<Rightarrow> int) \<Rightarrow> spawn_fault set \<Rightarrow> string \<Rightarrow> string \<Rightarrow> string
    \<Rightarrow> (auth_error + 'd AuthResult) \<Rightarrow> string \<Rightarrow> smgr \<times> os_state \<Rightarrow> (smgr \<times> os_state) \<times> (login_error + sm_LoginResult)" where
  "sm_Login cfg lookup maxSends flt dir token privKey auth username = (\<lambda>(g, os).
     case auth of
       Inl e \<Rightarrow> ((g, os), Inl (AuthenticationFailed e))
     | Inr res \<Rightarrow> (case ar_User res of
           None \<Rightarrow> ((g, os), Inl NilUser)
         | Some u \<Rightarrow>
             (let mailbox = u_Mailbox u in
              case login_reuse username token g of
                (g1, True) \<Rightarrow> ((g1, os), Inr (login_result maxSends res mailbox token))
              | (g1, False) \<Rightarrow> (case spawnSession cfg lookup flt dir username mailbox privKey os of
                    (os1, Inl e) \<Rightarrow> ((g1, os1), Inl (SpawnFailed e))
                  | (os1, Inr ch) \<Rightarrow>
                      (let e = g_next g1; g2 = new_entry username mailbox ch g1
                       in ((login_register username e token (g2\<lparr>g_spawned := remove1 e (g_spawned g2)\<rparr>), os1),
                           Inr (login_result maxSends res mailbox token)))))))"

section \<open>Interleavings\<close>

datatype sm_event =
    EvLogin string string string
  | EvSpawn string string child
  | EvSpawnFail string string
  | EvRegister nat string
  | EvLogout string
  | EvTimer nat nat
  | EvReap nat
  | EvExit nat
  | EvMonitor nat
  | EvClose

text \<open>A step is taken when it is enabled: a login carries the name, the mailbox of the authenticated user and a new token.\<close>

fun sm_step :: "sm_event \<Rightarrow> smgr \<Rightarrow> smgr option" where
  "sm_step (EvLogin username mailbox token) g =
     (if token \<in> fst ` set (g_issued g) then None
      else case login_reuse username token g of
        (g', True) \<Rightarrow> Some (g'\<lparr>g_issued := (token, username) # g_issued g'\<rparr>)
      | (g', False) \<Rightarrow> Some (g'\<lparr>g_spawning := (username, mailbox) # g_spawning g'\<rparr>))"
| "sm_step (EvSpawn username mailbox ch) g =
     (if (username, mailbox) \<in> set (g_spawning g)
      then Some (new_entry username mailbox ch (g\<lparr>g_spawning := remove1 (username, mailbox) (g_spawning g)\<rparr>)) else None)"
| "sm_step (EvSpawnFail username mailbox) g =
     (if (username, mailbox) \<in> set (g_spawning g)
      then Some (g\<lparr>g_spawning := remove1 (username, mailbox) (g_spawning g)\<rparr>) else None)"
| "sm_step (EvRegister e token) g =
     (if e \<in> set (g_spawned g) \<and> token \<notin> fst ` set (g_issued g)
      then Some ((login_register (username_of e g) e token (g\<lparr>g_spawned := remove1 e (g_spawned g)\<rparr>))
                   \<lparr>g_issued := (token, username_of e g) # g_issued g\<rparr>) else None)"
| "sm_step (EvLogout token) g = Some (fst (sm_Logout token g))"
| "sm_step (EvTimer t e) g =
     (if (t, e) \<in> g_armed g then Some (g\<lparr>g_armed := g_armed g - {(t, e)}, g_fired := e # g_fired g\<rparr>) else None)"
| "sm_step (EvReap e) g = (if e \<in> set (g_fired g) then Some (reapSession e (g\<lparr>g_fired := remove1 e (g_fired g)\<rparr>)) else None)"
| "sm_step (EvExit e) g = (if e \<in> g_running g then Some (g\<lparr>g_running := g_running g - {e}\<rparr>) else None)"
| "sm_step (EvMonitor e) g =
     (if e \<in> g_monitors g \<and> e \<notin> g_running g then Some (monitorProcess e (g\<lparr>g_monitors := g_monitors g - {e}\<rparr>)) else None)"
| "sm_step EvClose g = Some (sm_Close g)"

fun sm_run :: "sm_event list \<Rightarrow> smgr \<Rightarrow> smgr option" where
  "sm_run [] g = Some g"
| "sm_run (ev # evs) g = (case sm_step ev g of None \<Rightarrow> None | Some g' \<Rightarrow> sm_run evs g')"

inductive sm_reachable :: "smgr \<Rightarrow> bool" where
  sm_start: "sm_reachable New_Manager"
| sm_next: "sm_reachable g \<Longrightarrow> sm_step ev g = Some g' \<Longrightarrow> sm_reachable g'"

end
