(* ===== verification/SessionInv.thy ===== *)
theory SessionInv
  imports SessionManager
begin

text \<open>The invariant of the session manager under every interleaving of logins, logouts, timers and process exits.  Most operations
  only remove; \<open>shrinks\<close> is the relation they share, and the others add a token, an entry or a timer.\<close>

section \<open>Effects of the operations\<close>

lemma entry_upd_fields [simp]:
  "g_heap (entry_upd e f g) = (g_heap g)(e := map_option f (g_heap g e))"
  "g_byToken (entry_upd e f g) = g_byToken g" "g_byUser (entry_upd e f g) = g_byUser g" "g_running (entry_upd e f g) = g_running g"
  "g_armed (entry_upd e f g) = g_armed g" "g_fired (entry_upd e f g) = g_fired g" "g_monitors (entry_upd e f g) = g_monitors g"
  "g_spawning (entry_upd e f g) = g_spawning g" "g_spawned (entry_upd e f g) = g_spawned g" "g_issued (entry_upd e f g) = g_issued g"
  "g_next (entry_upd e f g) = g_next g" "g_nextTimer (entry_upd e f g) = g_nextTimer g"
  by (simp_all add: entry_upd_def)

lemma disarm_fields [simp]:
  "g_heap (disarm e g) = g_heap g" "g_byToken (disarm e g) = g_byToken g" "g_byUser (disarm e g) = g_byUser g"
  "g_running (disarm e g) = g_running g" "g_fired (disarm e g) = g_fired g" "g_monitors (disarm e g) = g_monitors g"
  "g_spawning (disarm e g) = g_spawning g" "g_spawned (disarm e g) = g_spawned g" "g_issued (disarm e g) = g_issued g"
  "g_next (disarm e g) = g_next g" "g_nextTimer (disarm e g) = g_nextTimer g"
  by (simp_all add: disarm_def split: option.split)

lemma disarm_armed: "g_armed (disarm e g) = g_armed g - {(t, e') . e' = e \<and> Option.bind (g_heap g e) se_idleTimer = Some t}"
  by (auto simp: disarm_def split: option.split)

lemma stop_timer_fields [simp]:
  "g_heap (stop_timer e g) = (g_heap g)(e := map_option (se_idleTimer_update (\<lambda>_. None)) (g_heap g e))"
  "g_byToken (stop_timer e g) = g_byToken g" "g_byUser (stop_timer e g) = g_byUser g"
  "g_running (stop_timer e g) = g_running g" "g_fired (stop_timer e g) = g_fired g" "g_monitors (stop_timer e g) = g_monitors g"
  "g_spawning (stop_timer e g) = g_spawning g" "g_spawned (stop_timer e g) = g_spawned g" "g_issued (stop_timer e g) = g_issued g"
  "g_next (stop_timer e g) = g_next g" "g_nextTimer (stop_timer e g) = g_nextTimer g" "g_armed (stop_timer e g) = g_armed (disarm e g)"
  by (simp_all add: stop_timer_def)

lemma token_fields [simp]:
  "g_heap (generateTokenLocked k e g) = g_heap g" "g_byToken (generateTokenLocked k e g) = (g_byToken g)(k \<mapsto> e)"
  "g_byUser (generateTokenLocked k e g) = g_byUser g" "g_running (generateTokenLocked k e g) = g_running g"
  "g_armed (generateTokenLocked k e g) = g_armed g" "g_fired (generateTokenLocked k e g) = g_fired g"
  "g_monitors (generateTokenLocked k e g) = g_monitors g" "g_spawning (generateTokenLocked k e g) = g_spawning g"
  "g_spawned (generateTokenLocked k e g) = g_spawned g" "g_next (generateTokenLocked k e g) = g_next g"
  "g_issued (generateTokenLocked k e g) = g_issued g" "g_nextTimer (generateTokenLocked k e g) = g_nextTimer g"
  by (simp_all add: generateTokenLocked_def)

lemma kill_fields [simp]:
  "g_heap (killEntry e g) = (g_heap g)(e := map_option (\<lambda>en. en\<lparr>se_open := False, se_waited := True\<rparr>) (g_heap g e))"
  "g_byToken (killEntry e g) = g_byToken g" "g_byUser (killEntry e g) = g_byUser g" "g_armed (killEntry e g) = g_armed g"
  "g_fired (killEntry e g) = g_fired g" "g_monitors (killEntry e g) = g_monitors g" "g_spawning (killEntry e g) = g_spawning g"
  "g_spawned (killEntry e g) = g_spawned g" "g_issued (killEntry e g) = g_issued g" "g_next (killEntry e g) = g_next g"
  "g_nextTimer (killEntry e g) = g_nextTimer g"
  by (simp_all add: killEntry_def)

lemma drop_fields [simp]:
  "g_heap (drop_tokens e g) = g_heap g" "g_byUser (drop_tokens e g) = g_byUser g" "g_running (drop_tokens e g) = g_running g"
  "g_byToken (drop_tokens e g) = (\<lambda>k. if g_byToken g k = Some e then None else g_byToken g k)"
  "g_armed (drop_tokens e g) = g_armed g" "g_fired (drop_tokens e g) = g_fired g" "g_monitors (drop_tokens e g) = g_monitors g"
  "g_spawning (drop_tokens e g) = g_spawning g" "g_spawned (drop_tokens e g) = g_spawned g" "g_issued (drop_tokens e g) = g_issued g"
  "g_next (drop_tokens e g) = g_next g" "g_nextTimer (drop_tokens e g) = g_nextTimer g"
  by (simp_all add: drop_tokens_def)

section \<open>The invariant\<close>

text \<open>Tokens lead to entries of the name they were issued for.\<close>

definition tokens_ok :: "smgr \<Rightarrow> bool" where
  "tokens_ok g = (distinct (map fst (g_issued g)) \<and>
     (\<forall>k e. g_byToken g k = Some e \<longrightarrow> (\<exists>en. g_heap g e = Some en \<and> (k, se_username en) \<in> set (g_issued g))))"

definition tokens_of :: "smgr \<Rightarrow> nat \<Rightarrow> string set" where
  "tokens_of g e = {k. g_byToken g k = Some e}"

text \<open>The count of an entry covers its tokens.\<close>

definition counts_ok :: "smgr \<Rightarrow> bool" where
  "counts_ok g = (finite (dom (g_byToken g)) \<and>
     (\<forall>e en. g_heap g e = Some en \<longrightarrow> int (card (tokens_of g e)) \<le> se_refCount en))"

definition users_ok :: "smgr \<Rightarrow> bool" where
  "users_ok g = ((\<forall>u e. g_byUser g u = Some e \<longrightarrow> (\<exists>en. g_heap g e = Some en \<and> se_username en = u))
     \<and> (\<forall>e. g_next g \<le> e \<longrightarrow> g_heap g e = None) \<and> (\<forall>e \<in> g_running g. \<exists>en. g_heap g e = Some en \<and> \<not> se_waited en))"

text \<open>An entry between the two sections of its login has no token and no name yet.\<close>

definition spawned_ok :: "smgr \<Rightarrow> bool" where
  "spawned_ok g = (distinct (g_spawned g) \<and> (\<forall>e \<in> set (g_spawned g).
     (\<exists>en. g_heap g e = Some en \<and> se_refCount en = 1) \<and> tokens_of g e = {} \<and> (\<forall>u. g_byUser g u \<noteq> Some e)))"

text \<open>An idle entry has a timer or a reaper.\<close>

definition idle_ok :: "smgr \<Rightarrow> bool" where
  "idle_ok g = (\<forall>u e en. g_byUser g u = Some e \<and> g_heap g e = Some en \<and> se_refCount en \<le> 0 \<longrightarrow>
     (\<exists>t. se_idleTimer en = Some t \<and> (t, e) \<in> g_armed g) \<or> e \<in> set (g_fired g))"

definition sm_inv :: "smgr \<Rightarrow> bool" where
  "sm_inv g = (tokens_ok g \<and> counts_ok g \<and> users_ok g \<and> spawned_ok g \<and> idle_ok g)"

lemmas sm_inv_defs = sm_inv_def tokens_ok_def counts_ok_def users_ok_def spawned_ok_def idle_ok_def

lemma sm_inv_start: "sm_inv New_Manager"
  by (simp add: sm_inv_defs New_Manager_def tokens_of_def)

section \<open>Operations that only remove\<close>

definition same_entry :: "smgr \<Rightarrow> nat \<Rightarrow> sessionEntry option \<Rightarrow> sessionEntry option \<Rightarrow> bool" where
  "same_entry g' e x y = (case (x, y) of
       (None, None) \<Rightarrow> True
     | (Some a, Some b) \<Rightarrow> se_username b = se_username a \<and> se_refCount b = se_refCount a
         \<and> (se_waited b \<longrightarrow> se_waited a \<or> e \<notin> g_running g')
     | _ \<Rightarrow> False)"

definition shrinks :: "smgr \<Rightarrow> smgr \<Rightarrow> bool" where
  "shrinks g g' = (map_le (g_byToken g') (g_byToken g) \<and> map_le (g_byUser g') (g_byUser g) \<and> g_issued g' = g_issued g
     \<and> g_spawned g' = g_spawned g \<and> g_next g' = g_next g \<and> g_running g' \<subseteq> g_running g
     \<and> (\<forall>e. same_entry g' e (g_heap g e) (g_heap g' e))
     \<and> (\<forall>u e en'. g_byUser g' u = Some e \<and> g_heap g' e = Some en' \<and> se_refCount en' \<le> 0 \<longrightarrow>
          (\<exists>en. g_heap g e = Some en \<and> se_idleTimer en' = se_idleTimer en) \<and> (\<forall>t. (t, e) \<in> g_armed g \<longrightarrow> (t, e) \<in> g_armed g')
          \<and> (e \<in> set (g_fired g) \<longrightarrow> e \<in> set (g_fired g'))))"

lemma map_leD: "map_le f h \<Longrightarrow> f k = Some v \<Longrightarrow> h k = Some v"
  by (auto simp: map_le_def dom_def)

lemma same_entryD:
  assumes "same_entry g' e x y"
  shows "y = Some b \<Longrightarrow> \<exists>a. x = Some a \<and> se_username b = se_username a \<and> se_refCount b = se_refCount a"
    "x = Some a \<Longrightarrow> \<exists>b. y = Some b \<and> se_username b = se_username a \<and> se_refCount b = se_refCount a
       \<and> (se_waited b \<longrightarrow> se_waited a \<or> e \<notin> g_running g')" "x = None \<Longrightarrow> y = None"
  using assms by (auto simp: same_entry_def split: option.splits)

lemma shrinks_tokens: "shrinks g g' \<Longrightarrow> tokens_of g' e \<subseteq> tokens_of g e"
  by (auto simp: shrinks_def tokens_of_def dest: map_leD)

lemma tokens_of_finite: "counts_ok g \<Longrightarrow> finite (tokens_of g e)"
  by (rule finite_subset[of _ "dom (g_byToken g)"]) (auto simp: tokens_of_def counts_ok_def)

lemma shrinks_parts:
  assumes "shrinks g g'"
  shows "g_byToken g' k = Some e \<Longrightarrow> g_byToken g k = Some e" "g_byUser g' u = Some e \<Longrightarrow> g_byUser g u = Some e"
    "g_issued g' = g_issued g" "g_spawned g' = g_spawned g" "g_next g' = g_next g" "g_running g' \<subseteq> g_running g"
    "same_entry g' e (g_heap g e) (g_heap g' e)"
  using assms by (auto simp: shrinks_def dest: map_leD)

lemmas shrinks_down = same_entryD(1)[OF shrinks_parts(7)] and shrinks_up = same_entryD(2)[OF shrinks_parts(7)]

lemma shrinks_tokens_ok: "shrinks g g' \<Longrightarrow> tokens_ok g \<Longrightarrow> tokens_ok g'"
  using shrinks_parts[of g g'] shrinks_up[of g g'] unfolding tokens_ok_def by metis

lemma shrinks_counts_ok:
  assumes sh: "shrinks g g'" and i: "counts_ok g"
  shows "counts_ok g'"
  unfolding counts_ok_def
proof (intro conjI allI impI)
  show "finite (dom (g_byToken g'))"
    using i shrinks_parts(1)[OF sh] by (auto simp: counts_ok_def intro: finite_subset[of _ "dom (g_byToken g)"])
  fix e en' assume "g_heap g' e = Some en'"
  then obtain en where "g_heap g e = Some en" "se_refCount en' = se_refCount en" using shrinks_down[OF sh] by blast
  moreover have "card (tokens_of g' e) \<le> card (tokens_of g e)"
    by (rule card_mono[OF tokens_of_finite[OF i] shrinks_tokens[OF sh]])
  ultimately show "int (card (tokens_of g' e)) \<le> se_refCount en'" using i by (fastforce simp: counts_ok_def)
qed

lemma shrinks_users_ok:
  assumes sh: "shrinks g g'" and i: "users_ok g"
  shows "users_ok g'"
  unfolding users_ok_def shrinks_parts(5)[OF sh]
proof (intro conjI allI impI ballI)
  fix u e assume "g_byUser g' u = Some e"
  then show "\<exists>en. g_heap g' e = Some en \<and> se_username en = u"
    using i shrinks_parts(2)[OF sh] shrinks_up[OF sh] unfolding users_ok_def by metis
next
  fix e assume "g_next g \<le> e"
  then show "g_heap g' e = None" using i same_entryD(3)[OF shrinks_parts(7)[OF sh]] by (simp add: users_ok_def)
next
  fix e assume e: "e \<in> g_running g'"
  then show "\<exists>en. g_heap g' e = Some en \<and> \<not> se_waited en"
    using i shrinks_parts(6)[OF sh] shrinks_up[OF sh] unfolding users_ok_def by (metis subsetD)
qed

lemma shrinks_spawned_ok:
  assumes sh: "shrinks g g'" and i: "spawned_ok g"
  shows "spawned_ok g'"
  unfolding spawned_ok_def shrinks_parts(4)[OF sh]
proof (intro conjI ballI allI)
  fix e u assume e: "e \<in> set (g_spawned g)"
  then show "\<exists>en. g_heap g' e = Some en \<and> se_refCount en = 1" using i shrinks_up[OF sh] unfolding spawned_ok_def by metis
  show "tokens_of g' e = {}" using e i shrinks_tokens[OF sh, of e] by (auto simp: spawned_ok_def)
  show "g_byUser g' u \<noteq> Some e" using e i shrinks_parts(2)[OF sh] unfolding spawned_ok_def by blast
qed (use i in \<open>simp add: spawned_ok_def\<close>)

lemma shrinks_idle_ok:
  assumes sh: "shrinks g g'" and i: "idle_ok g"
  shows "idle_ok g'"
  unfolding idle_ok_def
proof (intro allI impI, elim conjE)
  fix u e en' assume h: "g_byUser g' u = Some e" "g_heap g' e = Some en'" "se_refCount en' \<le> 0"
  obtain en where en: "g_heap g e = Some en" "se_idleTimer en' = se_idleTimer en" and k: "\<And>t. (t, e) \<in> g_armed g \<Longrightarrow> (t, e) \<in> g_armed g'"
      "e \<in> set (g_fired g) \<Longrightarrow> e \<in> set (g_fired g')"
    using sh h unfolding shrinks_def by metis
  have "se_refCount en \<le> 0" using shrinks_down[OF sh h(2)] en(1) h(3) by auto
  then have "(\<exists>t. se_idleTimer en = Some t \<and> (t, e) \<in> g_armed g) \<or> e \<in> set (g_fired g)"
    using i shrinks_parts(2)[OF sh h(1)] en(1) unfolding idle_ok_def by blast
  then show "(\<exists>t. se_idleTimer en' = Some t \<and> (t, e) \<in> g_armed g') \<or> e \<in> set (g_fired g')" using k en(2) by auto
qed

lemma shrinks_inv: "shrinks g g' \<Longrightarrow> sm_inv g \<Longrightarrow> sm_inv g'"
  by (simp add: sm_inv_def shrinks_tokens_ok shrinks_counts_ok shrinks_users_ok shrinks_spawned_ok shrinks_idle_ok)

lemma kill_running:
  assumes "e \<in> g_running g \<longrightarrow> (\<exists>en. g_heap g e = Some en \<and> \<not> se_waited en)"
  shows "g_running (killEntry e g) = g_running g - {e}"
  using assms by (auto simp: killEntry_def split: option.split)

lemma running_waited: "users_ok g \<Longrightarrow> e \<in> g_running g \<longrightarrow> (\<exists>en. g_heap g e = Some en \<and> \<not> se_waited en)"
  by (simp add: users_ok_def)

lemma byUser_username: "users_ok g \<Longrightarrow> g_byUser g u = Some e \<Longrightarrow> username_of e g = u"
  by (force simp: users_ok_def username_of_def)

lemma users_heap: "users_ok g \<Longrightarrow> g_byUser g u = Some e \<Longrightarrow> g_heap g e = Some en \<Longrightarrow> se_username en = u"
  by (force simp: users_ok_def)

text \<open>Removing an entry with its tokens and its name; the timer may be stopped and the process ended.\<close>

lemma remove_shrinks:
  assumes "users_ok g"
    and "g_byUser g' = (g_byUser g)(username_of e g := None) \<or> (g_byUser g' = g_byUser g \<and> (\<forall>u. g_byUser g u \<noteq> Some e))"
    and "g_byToken g' = g_byToken g \<or> g_byToken g' = (\<lambda>k. if g_byToken g k = Some e then None else g_byToken g k)"
    and "g_heap g' = (g_heap g)(e := map_option f (g_heap g e))" "\<And>en. se_username (f en) = se_username en" "\<And>en. se_refCount (f en) = se_refCount en"
    and "g_running g' = g_running g - {e} \<or> (g_running g' = g_running g \<and> (\<forall>en. se_waited (f en) \<longrightarrow> se_waited en \<or> e \<notin> g_running g))"
    and "g_issued g' = g_issued g" "g_spawned g' = g_spawned g" "g_next g' = g_next g"
    and "\<And>t x. x \<noteq> e \<Longrightarrow> (t, x) \<in> g_armed g \<Longrightarrow> (t, x) \<in> g_armed g'" "\<And>x. x \<noteq> e \<Longrightarrow> x \<in> set (g_fired g) \<Longrightarrow> x \<in> set (g_fired g')"
  shows "shrinks g g'"
proof -
  have gone: "x \<noteq> e" if "g_byUser g' u = Some x" for u x
    using that assms(2) byUser_username[OF assms(1)] by (auto split: if_split_asm)
  have "map_le (g_byUser g') (g_byUser g)" using assms(2) by (auto simp: map_le_def split: if_split_asm)
  moreover have "map_le (g_byToken g') (g_byToken g)" using assms(3) by (auto simp: map_le_def split: if_split_asm)
  moreover have "same_entry g' x (g_heap g x) (g_heap g' x)" for x
    using assms(4-7) by (auto simp: same_entry_def split: option.split)
  moreover have "g_running g' \<subseteq> g_running g" using assms(7) by auto
  moreover have "(\<exists>en. g_heap g x = Some en \<and> se_idleTimer en' = se_idleTimer en) \<and> (\<forall>t. (t, x) \<in> g_armed g \<longrightarrow> (t, x) \<in> g_armed g')
      \<and> (x \<in> set (g_fired g) \<longrightarrow> x \<in> set (g_fired g'))" if "g_byUser g' u = Some x" "g_heap g' x = Some en'" for u x en'
    using gone[OF that(1)] that(2) assms(4,11,12) by auto
  ultimately show ?thesis using assms(8-10) unfolding shrinks_def by blast
qed

lemma username_of_fields [simp]:
  "username_of x (stop_timer e g) = username_of x g" "username_of x (disarm e g) = username_of x g"
  "username_of x (killEntry e g) = username_of x g"
  by (auto simp: username_of_def split: option.split)

lemma removeEntryLocked_shrinks:
  assumes "users_ok g"
  shows "shrinks g (removeEntryLocked e g)"
proof (rule remove_shrinks[where e = e and f = "\<lambda>en. en\<lparr>se_idleTimer := None, se_open := False, se_waited := True\<rparr>"])
  have "g_running (removeEntryLocked e g) = g_running g - {e}"
    unfolding removeEntryLocked_def Let_def
    by (subst kill_running) (use running_waited[OF assms, of e] in auto)
  then show "g_running (removeEntryLocked e g) = g_running g - {e} \<or> (g_running (removeEntryLocked e g) = g_running g \<and>
      (\<forall>en. se_waited (en\<lparr>se_idleTimer := None, se_open := False, se_waited := True\<rparr>) \<longrightarrow> se_waited en \<or> e \<notin> g_running g))" ..
qed (use assms in \<open>auto simp: removeEntryLocked_def Let_def disarm_armed option.map_comp comp_def\<close>)

lemma monitorProcess_shrinks:
  assumes "users_ok g" "e \<notin> g_running g"
  shows "shrinks g (monitorProcess e g)"
proof (cases "g_byUser g (username_of e g) = Some e")
  case True
  have "username_of e (entry_upd e (se_waited_update (\<lambda>_. True)) g) = username_of e g"
    by (simp add: username_of_def split: option.split)
  then show ?thesis using assms True
    by (intro remove_shrinks[where e = e and f = "\<lambda>en. en\<lparr>se_waited := True, se_idleTimer := None, se_open := False\<rparr>"])
      (auto simp: monitorProcess_def Let_def disarm_armed option.map_comp comp_def)
next
  case False
  have "username_of e (entry_upd e (se_waited_update (\<lambda>_. True)) g) = username_of e g"
    by (simp add: username_of_def split: option.split)
  moreover have "\<forall>u. g_byUser g u \<noteq> Some e" using False byUser_username[OF assms(1)] by auto
  ultimately show ?thesis using assms False
    by (intro remove_shrinks[where e = e and f = "se_waited_update (\<lambda>_. True)"])
      (auto simp: monitorProcess_def Let_def)
qed

lemma same_entry_refl [simp]: "same_entry g' e x x"
  by (auto simp: same_entry_def split: option.split)

lemma shrinks_fields:
  assumes "g_heap g' = g_heap g" "g_byToken g' = g_byToken g" "g_byUser g' = g_byUser g" "g_issued g' = g_issued g"
    "g_spawned g' = g_spawned g" "g_next g' = g_next g" "g_running g' \<subseteq> g_running g" "g_armed g \<subseteq> g_armed g'"
    and "\<And>x en. g_heap g x = Some en \<Longrightarrow> se_refCount en \<le> 0 \<Longrightarrow> x \<in> set (g_fired g) \<Longrightarrow> x \<in> set (g_fired g')"
  shows "shrinks g g'"
  using assms(7-9) unfolding shrinks_def assms(1-6) by auto

lemma reapSession_shrinks:
  assumes "users_ok g"
  shows "shrinks g (reapSession e (g\<lparr>g_fired := remove1 e (g_fired g)\<rparr>))"
proof -
  let ?g = "g\<lparr>g_fired := remove1 e (g_fired g)\<rparr>"
  have fired: "x \<in> set (remove1 e (g_fired g))" if "x \<noteq> e" "x \<in> set (g_fired g)" for x using that by simp
  consider "g_heap g e = None" | en where "g_heap g e = Some en" "0 < se_refCount en" | en where "g_heap g e = Some en" "se_refCount en \<le> 0"
    by (cases "g_heap g e") (auto, meson not_less)
  then show ?thesis
  proof cases
    case 1
    then have "\<forall>u. g_byUser g u \<noteq> Some e" using assms by (force simp: users_ok_def)
    then show ?thesis using 1 fired
      by (intro remove_shrinks[OF assms, where e = e and f = id]) (auto simp: reapSession_def)
  next
    case 2
    then have "reapSession e ?g = ?g" by (simp add: reapSession_def)
    moreover have "shrinks g ?g"
    proof (rule shrinks_fields)
      fix x en' assume "g_heap g x = Some en'" "se_refCount en' \<le> 0" "x \<in> set (g_fired g)"
      moreover then have "x \<noteq> e" using 2 by auto
      ultimately show "x \<in> set (g_fired ?g)" by simp
    qed simp_all
    ultimately show ?thesis by simp
  next
    case 3
    let ?h = "?g\<lparr>g_byUser := (g_byUser g)(se_username en := None)\<rparr>"
    have "g_running (killEntry e (drop_tokens e ?h)) = g_running g - {e}"
      by (subst kill_running) (use running_waited[OF assms, of e] in auto)
    then have run: "g_running (reapSession e ?g) = g_running g - {e}" using 3 by (simp add: reapSession_def)
    have eq: "reapSession e ?g = killEntry e (drop_tokens e ?h)" using 3 by (simp add: reapSession_def)
    have "username_of e g = se_username en" using 3 by (simp add: username_of_def)
    then show ?thesis using run fired
      by (intro remove_shrinks[OF assms, where e = e and f = "\<lambda>en. en\<lparr>se_open := False, se_waited := True\<rparr>"]) (simp_all add: eq cong: if_cong)
  qed
qed

lemma exit_shrinks: "shrinks g (g\<lparr>g_running := g_running g - {e}\<rparr>)"
  by (rule shrinks_fields) auto

lemma spawning_shrinks: "shrinks g (g\<lparr>g_spawning := x\<rparr>)" "shrinks g (g\<lparr>g_monitors := y\<rparr>)"
  by (rule shrinks_fields; simp)+

lemma kill_unregistered_shrinks:
  assumes "users_ok g" "\<forall>u. g_byUser g u \<noteq> Some e"
  shows "shrinks g (killEntry e g)"
proof (rule remove_shrinks[OF assms(1), where e = e and f = "\<lambda>en. en\<lparr>se_open := False, se_waited := True\<rparr>"])
  show "g_running (killEntry e g) = g_running g - {e} \<or> (g_running (killEntry e g) = g_running g \<and>
      (\<forall>en. se_waited (en\<lparr>se_open := False, se_waited := True\<rparr>) \<longrightarrow> se_waited en \<or> e \<notin> g_running g))"
    using kill_running[OF running_waited[OF assms(1)]] by blast
qed (use assms(2) in auto)

lemma same_entry_trans:
  assumes "same_entry g1 x a b" "same_entry g2 x b c" "g_running g2 \<subseteq> g_running g1"
  shows "same_entry g2 x a c"
  using assms by (cases a; cases b; cases c) (auto simp: same_entry_def)

lemma kill_disarm:
  assumes "users_ok g"
  shows "users_ok (killEntry e (disarm e g))" "g_running (killEntry e (disarm e g)) = g_running g - {e}"
    "same_entry (killEntry e (disarm e g)) x (g_heap g x) (g_heap (killEntry e (disarm e g)) x)"
proof -
  show run: "g_running (killEntry e (disarm e g)) = g_running g - {e}"
    by (subst kill_running) (use running_waited[OF assms, of e] in simp_all)
  show same: "same_entry (killEntry e (disarm e g)) x (g_heap g x) (g_heap (killEntry e (disarm e g)) x)" for x
    by (simp add: same_entry_def run split: option.split)
  have "(\<exists>en. g_heap (killEntry e (disarm e g)) y = Some en \<and> se_username en = u)" if "g_byUser g u = Some y" for u y
    using that assms by (fastforce simp: users_ok_def)
  moreover have "\<exists>en. g_heap (killEntry e (disarm e g)) y = Some en \<and> \<not> se_waited en" if "y \<in> g_running g - {e}" for y
    using that assms by (simp add: users_ok_def)
  ultimately show "users_ok (killEntry e (disarm e g))" using assms unfolding users_ok_def run by simp
qed

lemma close_kills:
  assumes "users_ok g"
  defines "h \<equiv> fold (\<lambda>e. killEntry e \<circ> disarm e)"
  shows "users_ok (h es g) \<and> g_running (h es g) = g_running g - set es \<and> (\<forall>x. same_entry (h es g) x (g_heap g x) (g_heap (h es g) x))
    \<and> g_issued (h es g) = g_issued g \<and> g_spawned (h es g) = g_spawned g \<and> g_next (h es g) = g_next g"
  using assms(1)
proof (induction es arbitrary: g)
  case (Cons e es)
  let ?k = "killEntry e (disarm e g)"
  have step: "h (e # es) g = h es ?k" by (simp add: h_def)
  note k = kill_disarm[OF Cons.prems, of e]
  note IH = Cons.IH[OF k(1)]
  have "same_entry (h es ?k) x (g_heap g x) (g_heap (h es ?k) x)" for x
    by (rule same_entry_trans[OF k(3)]) (use IH k(2) in auto)
  then show ?case unfolding step using IH k(2) by auto
qed (simp add: h_def)

lemma same_entry_running: "g_running g1 = g_running g2 \<Longrightarrow> same_entry g1 = same_entry g2"
  unfolding same_entry_def by metis

lemma sm_Close_shrinks:
  assumes "users_ok g"
  shows "shrinks g (sm_Close g)"
proof -
  let ?es = "filter (registered g) [0..<g_next g]"
  let ?h = "fold (\<lambda>e. killEntry e \<circ> disarm e) ?es g"
  note h = close_kills[OF assms, of ?es]
  have "same_entry (sm_Close g) x (g_heap g x) (g_heap (sm_Close g) x)" for x
    using h same_entry_running[of "sm_Close g" ?h] by (simp add: sm_Close_def)
  then show ?thesis using h by (simp add: shrinks_def) (auto simp: sm_Close_def)
qed

section \<open>Operations that add\<close>

lemma new_token_free: "tokens_ok g \<Longrightarrow> k \<notin> fst ` set (g_issued g) \<Longrightarrow> g_byToken g k = None"
  by (cases "g_byToken g k") (force simp: tokens_ok_def)+

lemma tokens_of_insert:
  assumes "g_byToken g' = (g_byToken g)(k \<mapsto> e)" "g_byToken g k = None"
  shows "tokens_of g' x = (if x = e then insert k (tokens_of g e) else tokens_of g x)"
  using assms by (auto simp: tokens_of_def)

lemma card_insert_le: "finite A \<Longrightarrow> int (card (insert k A)) \<le> int (card A) + 1"
  by (simp add: card_insert_if)

text \<open>A new token for an entry whose count covers it.\<close>

lemma token_inv:
  assumes inv: "sm_inv g" and new: "k \<notin> fst ` set (g_issued g)" and e: "g_heap g e = Some en"
    and g': "g_byToken g' = (g_byToken g)(k \<mapsto> e)" "g_issued g' = (k, se_username en) # g_issued g"
      "g_heap g' = (g_heap g)(e \<mapsto> en')" "se_username en' = se_username en" "int (card (tokens_of g e)) + 1 \<le> se_refCount en'"
      "se_waited en' = se_waited en" "g_next g' = g_next g" "g_running g' = g_running g" "e \<notin> set (g_spawned g)" "g_spawned g' = g_spawned g"
    and user: "g_byUser g' = g_byUser g \<or> g_byUser g' = (g_byUser g)(se_username en \<mapsto> e)"
    and idle: "\<And>t x. x \<noteq> e \<Longrightarrow> (t, x) \<in> g_armed g \<Longrightarrow> (t, x) \<in> g_armed g'" "g_fired g' = g_fired g"
  shows "sm_inv g'"
proof -
  have i: "tokens_ok g" "counts_ok g" "users_ok g" "spawned_ok g" "idle_ok g" using inv by (auto simp: sm_inv_def)
  have free: "g_byToken g k = None" by (rule new_token_free[OF i(1) new])
  note toks = tokens_of_insert[OF g'(1) free]
  have "tokens_ok g'" using i(1) new e by (fastforce simp: tokens_ok_def g'(1-4))
  moreover have "counts_ok g'" unfolding counts_ok_def
  proof (intro conjI allI impI)
    show "finite (dom (g_byToken g'))" using i(2) by (simp add: counts_ok_def g'(1))
    fix x en2 assume x: "g_heap g' x = Some en2"
    show "int (card (tokens_of g' x)) \<le> se_refCount en2"
    proof (cases "x = e")
      case True
      then show ?thesis using x g'(3,5) card_insert_le[OF tokens_of_finite[OF i(2)], of k e] by (simp add: toks)
    next
      case False
      then show ?thesis using x i(2) by (simp add: toks g'(3) counts_ok_def)
    qed
  qed
  moreover have "users_ok g'"
    using i(3) user e users_heap[OF i(3) _ e] by (auto simp: users_ok_def g'(3,4,6-8) split: if_split_asm)
  moreover have "spawned_ok g'"
    using i(4) user g'(9) by (auto simp: spawned_ok_def toks g'(3,10) split: if_split_asm)
  moreover have "idle_ok g'" unfolding idle_ok_def
  proof (intro allI impI, elim conjE)
    fix u x en2 assume h: "g_byUser g' u = Some x" "g_heap g' x = Some en2" "se_refCount en2 \<le> 0"
    have "x \<noteq> e" using h(2,3) g'(3,5) by auto
    moreover then have "g_byUser g u = Some x" using h(1) user by (auto split: if_split_asm)
    ultimately show "(\<exists>t. se_idleTimer en2 = Some t \<and> (t, x) \<in> g_armed g') \<or> x \<in> set (g_fired g')"
      using i(5) h(2,3) idle g'(3) unfolding idle_ok_def by (metis fun_upd_other)
  qed
  ultimately show ?thesis by (simp add: sm_inv_def)
qed

lemma reuse_inv:
  assumes inv: "sm_inv g" and new: "k \<notin> fst ` set (g_issued g)" and u: "g_byUser g u = Some e"
  shows "sm_inv ((reuse_entry e k g)\<lparr>g_issued := (k, u) # g_issued g\<rparr>)"
proof -
  obtain en where en: "g_heap g e = Some en" "se_username en = u" using inv u by (force simp: sm_inv_def users_ok_def)
  have "e \<notin> set (g_spawned g)" using inv u by (auto simp: sm_inv_def spawned_ok_def)
  moreover have "int (card (tokens_of g e)) \<le> se_refCount en" using inv en by (simp add: sm_inv_def counts_ok_def)
  ultimately show ?thesis
    by (intro token_inv[OF inv new en(1), where en' = "en\<lparr>se_idleTimer := None, se_refCount := se_refCount en + 1\<rparr>"])
      (simp_all add: reuse_entry_def en username_of_def disarm_armed)
qed

lemma spawned_removed:
  assumes "sm_inv g"
  shows "sm_inv (g\<lparr>g_spawned := remove1 e (g_spawned g)\<rparr>)"
proof -
  let ?g = "g\<lparr>g_spawned := remove1 e (g_spawned g)\<rparr>"
  have "spawned_ok g" using assms by (simp add: sm_inv_def)
  then have "spawned_ok ?g" using set_remove1_subset[of e "g_spawned g"] by (auto simp: spawned_ok_def tokens_of_def)
  moreover have "tokens_ok ?g = tokens_ok g" "counts_ok ?g = counts_ok g" "users_ok ?g = users_ok g" "idle_ok ?g = idle_ok g"
    by (simp_all add: tokens_ok_def counts_ok_def users_ok_def idle_ok_def tokens_of_def)
  ultimately show ?thesis using assms by (simp add: sm_inv_def)
qed

lemma register_inv:
  assumes inv: "sm_inv g" and new: "k \<notin> fst ` set (g_issued g)" and e: "e \<in> set (g_spawned g)"
  shows "sm_inv ((login_register (username_of e g) e k (g\<lparr>g_spawned := remove1 e (g_spawned g)\<rparr>))
    \<lparr>g_issued := (k, username_of e g) # g_issued g\<rparr>)"
proof -
  let ?g = "g\<lparr>g_spawned := remove1 e (g_spawned g)\<rparr>"
  have inv': "sm_inv ?g" by (rule spawned_removed[OF inv])
  have sp: "spawned_ok g" using inv by (simp add: sm_inv_def)
  obtain en where en: "g_heap g e = Some en" "se_refCount en = 1" "tokens_of g e = {}" "\<forall>u. g_byUser g u \<noteq> Some e"
    using sp e by (auto simp: spawned_ok_def)
  show ?thesis
  proof (cases "g_byUser g (username_of e g)")
    case None
    have "e \<notin> set (g_spawned ?g)" using sp by (simp add: spawned_ok_def)
    then show ?thesis using None en
      by (intro token_inv[OF inv', where k = k and e = e and en = en and en' = en])
        (use new in \<open>simp_all add: login_register_def username_of_def tokens_of_def fun_upd_idem\<close>)
  next
    case (Some x)
    have "users_ok ?g" using inv' by (simp add: sm_inv_def)
    then have "shrinks ?g (killEntry e ?g)" by (rule kill_unregistered_shrinks) (use en(4) in simp)
    then have "sm_inv (killEntry e ?g)" by (rule shrinks_inv[OF _ inv'])
    from reuse_inv[OF this, of k "username_of e g" x] new Some show ?thesis by (simp add: login_register_def)
  qed
qed

lemma new_entry_inv:
  assumes inv: "sm_inv g"
  shows "sm_inv (new_entry u m ch (g\<lparr>g_spawning := x\<rparr>))"
proof -
  let ?g = "new_entry u m ch (g\<lparr>g_spawning := x\<rparr>)"
  have i: "tokens_ok g" "counts_ok g" "users_ok g" "spawned_ok g" "idle_ok g" using inv by (auto simp: sm_inv_def)
  have free: "g_heap g (g_next g) = None" using i(3) by (simp add: users_ok_def)
  have fresh: "g_byUser g v \<noteq> Some (g_next g)" "g_byToken g k \<noteq> Some (g_next g)" for v k
    using i(1,3) free unfolding users_ok_def tokens_ok_def by (metis option.distinct(1))+
  then have toks: "tokens_of ?g y = tokens_of g y" "tokens_of g (g_next g) = {}" for y by (auto simp: tokens_of_def new_entry_def)
  have "tokens_ok ?g" using i(1) fresh(2) by (auto simp: tokens_ok_def new_entry_def)
  moreover have "counts_ok ?g"
    using i(2) toks(2) unfolding counts_ok_def toks(1) by (auto simp: new_entry_def)
  moreover have "users_ok ?g" using i(3) fresh(1) by (auto simp: users_ok_def new_entry_def)
  moreover have "spawned_ok ?g"
    using i(4) free fresh(1) toks(2) unfolding spawned_ok_def toks(1) by (auto simp: new_entry_def)
  moreover have "idle_ok ?g" using i(5) fresh(1) by (auto simp: idle_ok_def new_entry_def)
  ultimately show ?thesis by (simp add: sm_inv_def)
qed

lemma timer_inv:
  assumes "sm_inv g" "(t, e) \<in> g_armed g"
  shows "sm_inv (g\<lparr>g_armed := g_armed g - {(t, e)}, g_fired := e # g_fired g\<rparr>)"
proof -
  let ?g = "g\<lparr>g_armed := g_armed g - {(t, e)}, g_fired := e # g_fired g\<rparr>"
  have "idle_ok ?g" using assms(1) by (auto simp: sm_inv_def idle_ok_def)
  then show ?thesis using assms(1) by (simp add: sm_inv_defs tokens_of_def)
qed

text \<open>A logout gives back one token and one count.\<close>

lemma logout_inv:
  assumes inv: "sm_inv g"
  shows "sm_inv (fst (sm_Logout k g))"
proof (cases "g_byToken g k")
  case (Some e)
  have i: "tokens_ok g" "counts_ok g" "users_ok g" "spawned_ok g" "idle_ok g" using inv by (auto simp: sm_inv_def)
  obtain en where en: "g_heap g e = Some en" using i(1) Some by (auto simp: tokens_ok_def)
  let ?g = "fst (sm_Logout k g)" and ?t = "g_nextTimer g"
  define en' where "en' = (if se_refCount en - 1 \<le> 0 then en\<lparr>se_refCount := se_refCount en - 1, se_idleTimer := Some ?t\<rparr>
    else en\<lparr>se_refCount := se_refCount en - 1\<rparr>)"
  have f: "g_heap ?g = (g_heap g)(e \<mapsto> en')" "g_byToken ?g = (g_byToken g)(k := None)" "g_byUser ?g = g_byUser g"
      "g_issued ?g = g_issued g" "g_spawned ?g = g_spawned g" "g_next ?g = g_next g" "g_running ?g = g_running g" "g_fired ?g = g_fired g"
      "g_armed ?g = (if se_refCount en - 1 \<le> 0 then insert (?t, e) (g_armed g) else g_armed g)"
    by (simp_all add: sm_Logout_def Some Let_def en en'_def)
  have en': "se_username en' = se_username en" "se_refCount en' = se_refCount en - 1" "se_waited en' = se_waited en"
    by (simp_all add: en'_def)
  have k: "k \<in> tokens_of g e" by (simp add: tokens_of_def Some)
  have toks: "tokens_of ?g x = tokens_of g x - {k}" for x by (auto simp: tokens_of_def f)
  have "tokens_ok ?g" using i(1) en en'(1) unfolding tokens_ok_def f by (auto split: if_split_asm) fastforce+
  moreover have "counts_ok ?g" unfolding counts_ok_def toks
  proof (intro conjI allI impI)
    show "finite (dom (g_byToken ?g))" using i(2) by (simp add: counts_ok_def f)
    fix x en2 assume x: "g_heap ?g x = Some en2"
    show "int (card (tokens_of g x - {k})) \<le> se_refCount en2"
    proof (cases "x = e")
      case True
      have "0 < card (tokens_of g e)" using k tokens_of_finite[OF i(2), of e] by (auto simp: card_gt_0_iff)
      then have "int (card (tokens_of g e - {k})) = int (card (tokens_of g e)) - 1" using k by (simp add: card_Diff_singleton of_nat_diff)
      moreover have "int (card (tokens_of g e)) \<le> se_refCount en" using i(2) en by (simp add: counts_ok_def)
      moreover have "se_refCount en2 = se_refCount en - 1" using x True by (simp add: f flip: en'(2))
      ultimately show ?thesis using True by simp
    next
      case False
      have "card (tokens_of g x - {k}) \<le> card (tokens_of g x)" by (rule card_mono[OF tokens_of_finite[OF i(2)]]) auto
      then show ?thesis using False x i(2) by (force simp: f counts_ok_def)
    qed
  qed
  moreover have "users_ok ?g" using i(3) en en' users_heap[OF i(3) _ en] by (auto simp: users_ok_def f)
  moreover have "e \<notin> set (g_spawned g)" using i(4) k by (auto simp: spawned_ok_def)
  then have "spawned_ok ?g" using i(4) unfolding spawned_ok_def toks by (auto simp: f)
  moreover have "idle_ok ?g" using i(5) by (auto simp: idle_ok_def f en'_def split: if_split_asm)
  ultimately show ?thesis by (simp add: sm_inv_def)
qed (use inv in \<open>simp add: sm_Logout_def\<close>)

lemma sm_inv_step:
  assumes inv: "sm_inv g" and step: "sm_step ev g = Some g'"
  shows "sm_inv g'"
proof -
  have u: "users_ok g" using inv by (simp add: sm_inv_def)
  note shr = shrinks_inv[OF _ inv]
  show ?thesis
  proof (cases ev)
    case (EvLogin n m k)
    then have k: "k \<notin> fst ` set (g_issued g)" using step by (auto split: if_split_asm)
    show ?thesis
    proof (cases "g_byUser g n")
      case None
      then have "g' = g\<lparr>g_spawning := (n, m) # g_spawning g\<rparr>" using step EvLogin k by (simp add: login_reuse_def)
      then show ?thesis using shr[OF spawning_shrinks(1)] by simp
    next
      case (Some e)
      have "sm_inv (removeEntryLocked e g)" by (rule shr[OF removeEntryLocked_shrinks[OF u]])
      then show ?thesis using step EvLogin k Some reuse_inv[OF inv k Some] shrinks_inv[OF spawning_shrinks(1)]
        by (auto simp: login_reuse_def reuse_entry_def split: if_split_asm)
    qed
  next
    case (EvMonitor e)
    then have e: "e \<notin> g_running g" "g' = monitorProcess e (g\<lparr>g_monitors := g_monitors g - {e}\<rparr>)"
      using step by (auto split: if_split_asm)
    let ?m = "g\<lparr>g_monitors := g_monitors g - {e}\<rparr>"
    have "sm_inv ?m" by (rule shr[OF spawning_shrinks(2)])
    moreover then have "shrinks ?m (monitorProcess e ?m)" using e(1) by (intro monitorProcess_shrinks) (simp_all add: sm_inv_def)
    ultimately show ?thesis using shrinks_inv e(2) by blast
  qed (use step inv shr in \<open>auto split: if_split_asm intro: register_inv new_entry_inv logout_inv timer_inv
      shr[OF reapSession_shrinks[OF u]] shr[OF exit_shrinks] shr[OF spawning_shrinks(1)] shr[OF sm_Close_shrinks[OF u]]\<close>)
qed

lemma sm_inv_reachable: "sm_reachable g \<Longrightarrow> sm_inv g"
  by (induction rule: sm_reachable.induct) (auto intro: sm_inv_start sm_inv_step)

end
