(* ===== verification/SessionManagerProps.thy ===== *)
theory SessionManagerProps
  imports SessionInv
begin

text \<open>Properties of the session manager: under every interleaving a token leads to a session of the name it was issued for, the
  reaper spares sessions in use, an idle session is always due to be reaped; processes run under the identity of their user,
  and a failed start leaves nothing behind.\<close>

section \<open>The registry\<close>

text \<open>C10: a token never opens another user's session.  Under every interleaving, a token that the manager resolves was issued to
  exactly one login, and the session it leads to was started for the name of that login.\<close>

theorem token_opens_own_session:
  assumes "sm_reachable g" "SessionForToken k g = Some e"
  shows "(k, username_of e g) \<in> set (g_issued g) \<and> (\<exists>!u. (k, u) \<in> set (g_issued g))"
proof -
  have t: "tokens_ok g" using sm_inv_reachable[OF assms(1)] by (simp add: sm_inv_def)
  obtain en where "g_heap g e = Some en" "(k, se_username en) \<in> set (g_issued g)"
    using t assms(2) unfolding tokens_ok_def SessionForToken_def by blast
  then have i: "(k, username_of e g) \<in> set (g_issued g)" by (simp add: username_of_def)
  have "distinct (map fst (g_issued g))" using t by (simp add: tokens_ok_def)
  then have "u = username_of e g" if "(k, u) \<in> set (g_issued g)" for u using i that by (metis eq_key_imp_eq_value)
  then show ?thesis using i by blast
qed

lemma sm_run_reachable: "sm_reachable g \<Longrightarrow> sm_run evs g = Some g' \<Longrightarrow> sm_reachable g'"
  by (induction evs arbitrary: g) (auto intro: sm_next split: option.split_asm)

definition demo_child :: child where
  "demo_child = \<lparr>ch_uid = 10001, ch_gid = 10000, ch_args = [], ch_fd3 = None\<rparr>"

text \<open>Alice logs in twice and uses one session; Bob has another.\<close>

definition demo_logins :: "sm_event list" where
  "demo_logins = [EvLogin ''alice@d'' ''alice@d'' ''k1'', EvLogin ''bob@d'' ''bob@d'' ''k2'', EvSpawn ''alice@d'' ''alice@d'' demo_child,
     EvSpawn ''bob@d'' ''bob@d'' demo_child, EvRegister 1 ''k2'', EvRegister 0 ''k1'', EvLogin ''alice@d'' ''alice@d'' ''k3'']"

definition demo_mgr :: smgr where
  "demo_mgr = the (sm_run demo_logins New_Manager)"

lemma demo_mgr_run: "sm_run demo_logins New_Manager = Some demo_mgr"
proof -
  have "sm_run demo_logins New_Manager \<noteq> None" by code_simp
  then show ?thesis by (auto simp: demo_mgr_def)
qed

theorem token_opens_own_session_witness:
  "SessionForToken ''k3'' demo_mgr = Some 0 \<and> username_of 0 demo_mgr = ''alice@d''
   \<and> (''k3'', ''alice@d'') \<in> set (g_issued demo_mgr) \<and> (\<exists>!u. (''k3'', u) \<in> set (g_issued demo_mgr))"
proof -
  have s: "SessionForToken ''k3'' demo_mgr = Some 0" "username_of 0 demo_mgr = ''alice@d''" by code_simp+
  from token_opens_own_session[OF sm_run_reachable[OF sm_start demo_mgr_run] s(1)] s show ?thesis by simp
qed


definition demo_idle :: "sm_event list" where
  "demo_idle = demo_logins @ [EvLogout ''k2'', EvTimer 0 1]"

definition demo_idle_mgr :: smgr where
  "demo_idle_mgr = the (sm_run demo_idle New_Manager)"

lemma demo_idle_run: "sm_run demo_idle New_Manager = Some demo_idle_mgr"
proof -
  have "sm_run demo_idle New_Manager \<noteq> None" by code_simp
  then show ?thesis by (auto simp: demo_idle_mgr_def)
qed

lemma demo_idle_state: "1 \<in> set (g_fired demo_idle_mgr)" "g_byUser demo_idle_mgr ''bob@d'' = Some 1"
  "map_option (\<lambda>en. (se_username en, se_refCount en)) (g_heap demo_idle_mgr 1) = Some (''bob@d'', 0)"
  by code_simp+


text \<open>C29: an idle session ends.  In every reachable state, a registered session that no client uses has a timer that can fire or a reaper
  that waits for the lock, and after these steps its name is free and its process has ended.\<close>

theorem idle_session_is_reaped:
  assumes "sm_reachable g" "g_byUser g u = Some e" "g_heap g e = Some en" "se_refCount en \<le> 0"
  shows "\<exists>evs g'. (evs = [EvReap e] \<or> (\<exists>t. evs = [EvTimer t e, EvReap e])) \<and> sm_run evs g = Some g'
    \<and> g_byUser g' u = None \<and> e \<notin> g_running g'"
proof -
  have inv: "sm_inv g" by (rule sm_inv_reachable[OF assms(1)])
  have reaps: "\<exists>g'. sm_run [EvReap e] h = Some g' \<and> g_byUser g' u = None \<and> e \<notin> g_running g'"
    if h: "sm_inv h" "e \<in> set (g_fired h)" "g_heap h e = Some en" for h
  proof -
    have us: "users_ok h" "users_ok g" using h(1) inv by (simp_all add: sm_inv_def)
    have "se_username en = u" by (rule users_heap[OF us(2) assms(2,3)])
    let ?r = "drop_tokens e (h\<lparr>g_fired := remove1 e (g_fired h), g_byUser := (g_byUser h)(se_username en := None)\<rparr>)"
    have "e \<notin> g_running (killEntry e ?r)" by (subst kill_running) (use running_waited[OF us(1), of e] in auto)
    then show ?thesis using h(2,3) assms(4) \<open>se_username en = u\<close> by (simp add: reapSession_def)
  qed
  have "(\<exists>t. (t, e) \<in> g_armed g) \<or> e \<in> set (g_fired g)"
    using inv assms(2-4) unfolding sm_inv_def idle_ok_def by blast
  then show ?thesis
  proof
    assume "\<exists>t. (t, e) \<in> g_armed g"
    then obtain t where t: "(t, e) \<in> g_armed g" by blast
    from reaps[OF timer_inv[OF inv t]] assms(3) t show ?thesis by (intro exI[of _ "[EvTimer t e, EvReap e]"]) auto
  next
    assume "e \<in> set (g_fired g)"
    from reaps[OF inv this assms(3)] show ?thesis by blast
  qed
qed

theorem idle_session_is_reaped_witness:
  "\<exists>evs g'. (evs = [EvReap 1] \<or> (\<exists>t. evs = [EvTimer t 1, EvReap 1])) \<and> sm_run evs demo_idle_mgr = Some g'
     \<and> g_byUser demo_idle_mgr ''bob@d'' = Some 1 \<and> g_byUser g' ''bob@d'' = None \<and> 1 \<notin> g_running g'"
proof -
  obtain en where en: "g_heap demo_idle_mgr 1 = Some en" "se_refCount en \<le> 0" using demo_idle_state(3) by auto
  from idle_session_is_reaped[OF sm_run_reachable[OF sm_start demo_idle_run] demo_idle_state(2) en] demo_idle_state(2)
  show ?thesis by auto
qed

text \<open>Alice's session is idle and its timer fires; before the reaper gets the lock the process exits, is cleaned up, and Alice logs in
  again.\<close>

definition demo_stale :: "sm_event list" where
  "demo_stale = [EvLogin ''alice@d'' ''alice@d'' ''k1'', EvSpawn ''alice@d'' ''alice@d'' demo_child, EvRegister 0 ''k1'', EvLogout ''k1'',
     EvTimer 0 0, EvExit 0, EvMonitor 0, EvLogin ''alice@d'' ''alice@d'' ''k2'', EvSpawn ''alice@d'' ''alice@d'' demo_child,
     EvRegister 1 ''k2'', EvReap 0]"


section \<open>Processes\<close>

lemma start_in_dir_result:
  "snd (start_in_dir flt dir p os) = Inr ch \<Longrightarrow> p = Inr ch \<and> fst (start_in_dir flt dir p os) = os\<lparr>os_dirs := dir # os_dirs os, os_procs := ch # os_procs os\<rparr>"
  "snd (start_in_dir flt dir p os) = Inl e \<Longrightarrow> fst (start_in_dir flt dir p os) = os"
  by (auto simp: start_in_dir_def startAndWaitReady_def Let_def split: if_split_asm sum.split_asm)

text \<open>What a start depends on: the address has a domain, the credentials were found, and the process got them.\<close>

lemma start_credentials:
  assumes "snd (spawnSession cfg lookup flt dir address mailbox key os) = Inr ch \<or> snd (DeliverySession cfg lookup flt dir address os) = Inr ch"
  obtains l d creds where "address = l @ ''@'' @ d" "CHR ''@'' \<notin> set l" "lookup l d = Inr creds" "ch_uid ch = cred_uid creds" "ch_gid ch = cred_gid creds"
proof (cases "CutByte (CHR ''@'') address")
  case None
  then show ?thesis using assms by (simp add: spawnSession_def DeliverySession_def del: CutByte_None_iff)
next
  case (Some p)
  obtain l d where p: "p = (l, d)" by (cases p)
  show ?thesis
  proof (cases "lookup l d")
    case (Inl e)
    then show ?thesis using assms Some p by (simp add: spawnSession_def DeliverySession_def)
  next
    case (Inr creds)
    have "ch_uid ch = cred_uid creds \<and> ch_gid ch = cred_gid creds"
      using assms Some p Inr
      by (auto simp: spawnSession_def DeliverySession_def Let_def keyPipe_def split: if_split_asm dest!: start_in_dir_result(1))
    then show ?thesis using that[OF _ _ Inr] Some p by (simp add: CutByte_Some_iff)
  qed
qed

text \<open>C16: a mail-session runs as its user.  Whatever starts a process, a login or a delivery, it runs under the uid of the
  local part and the gid of the domain in the identity maps, and neither is root nor reserved.\<close>

theorem mail_session_runs_as_its_user:
  assumes "snd (spawnSession cfg (\<lambda>l d. Identity.Lookup gf uf ids (dcfg d) dp ddp l d) flt dir address mailbox key os) = Inr ch
         \<or> snd (DeliverySession cfg (\<lambda>l d. Identity.Lookup gf uf ids (dcfg d) dp ddp l d) flt dir address os) = Inr ch"
  shows "\<exists>l d. address = l @ ''@'' @ d \<and> uid_maps ids d l = Some (ch_uid ch) \<and> gid_map ids d = Some (ch_gid ch)
    \<and> Allocatable (ch_uid ch) \<and> Allocatable (ch_gid ch) \<and> ch_uid ch \<noteq> 0 \<and> ch_gid ch \<noteq> 0"
proof -
  obtain l d creds where c: "address = l @ ''@'' @ d" "Identity.Lookup gf uf ids (dcfg d) dp ddp l d = Inr creds"
      "ch_uid ch = cred_uid creds" "ch_gid ch = cred_gid creds"
    using start_credentials[OF assms] by metis
  then show ?thesis using lookup_returns_allocatable_ids[OF c(2)] by (intro exI[of _ l] exI[of _ d]) simp
qed

definition demo_ids :: id_trees where
  "demo_ids = id_run [OpAllocGID no_faults ''d'', OpAllocUID no_faults ''d'' ''bob''] fresh_trees"

definition demo_lookup :: "string \<Rightarrow> string \<Rightarrow> cred_error + cred_info" where
  "demo_lookup = (\<lambda>l d. Identity.Lookup False False demo_ids None ''/e'' [] l d)"

definition demo_sm_cfg :: sm_cfg where
  "demo_sm_cfg = \<lparr>cf_DomainsPath = ''/e'', cf_DomainsDataPath = []\<rparr>"

definition demo_os :: os_state where
  "demo_os = \<lparr>os_dirs = [], os_procs = []\<rparr>"

definition demo_session :: child where
  "demo_session = \<lparr>ch_uid = 10001, ch_gid = 10000, ch_args = [''--mode=daemon'', ''--socket=/t/1/session.sock'', ''--mailbox=bob@d'',
     ''--type=maildir'', ''--basepath=/e/d/users'', ''--domains-path=/e''], ch_fd3 = None\<rparr>"

lemma demo_session_started:
  "snd (spawnSession demo_sm_cfg demo_lookup {} ''/t/1'' ''bob@d'' ''bob@d'' [] demo_os) = Inr demo_session"
  by code_simp

theorem mail_session_runs_as_its_user_witness:
  "snd (spawnSession demo_sm_cfg demo_lookup {} ''/t/1'' ''bob@d'' ''bob@d'' [] demo_os) = Inr demo_session
   \<and> Allocatable (ch_uid demo_session) \<and> ch_uid demo_session \<noteq> 0"
  using demo_session_started mail_session_runs_as_its_user[OF disjI1, OF demo_session_started[unfolded demo_lookup_def]] by blast

text \<open>C32: what a start leaves behind.  A login or a delivery whose start fails, at whatever point, leaves no directory and no process
  behind, and the cleanup of a delivery undoes its start.\<close>

theorem failed_start_leaves_nothing:
  "(\<exists>e. snd (spawnSession cfg lookup flt dir address mailbox key os) = Inl e) = (fst (spawnSession cfg lookup flt dir address mailbox key os) = os)
   \<and> (case DeliverySession cfg lookup flt dir address os of
        (os', Inl e) \<Rightarrow> os' = os
      | (os', Inr ch) \<Rightarrow> os_dirs os' = dir # os_dirs os \<and> os_procs os' = ch # os_procs os \<and> delivery_cleanup dir ch os' = os)"
proof -
  have diff: "os\<lparr>os_dirs := dir # os_dirs os, os_procs := ch # os_procs os\<rparr> \<noteq> os" for ch
    by (metis not_Cons_self2 os_state.select_convs(1) os_state.surjective os_state.update_convs(1,2))
  have one: "(\<exists>e. snd (start_in_dir flt dir p os) = Inl e) = (fst (start_in_dir flt dir p os) = os)" for p
    using start_in_dir_result diff by (cases "snd (start_in_dir flt dir p os)") auto
  have two: "case start_in_dir flt dir p os of
        (os', Inl e) \<Rightarrow> os' = os
      | (os', Inr ch) \<Rightarrow> os_dirs os' = dir # os_dirs os \<and> os_procs os' = ch # os_procs os \<and> delivery_cleanup dir ch os' = os" for p
    using start_in_dir_result[of flt dir p os]
    by (auto simp: delivery_cleanup_def split: prod.split sum.split)
  show ?thesis using one two
    by (simp add: spawnSession_def DeliverySession_def Let_def split: option.split sum.split)
qed

text \<open>C39: subaddressed mail is accepted and refused.  A recipient is validated by its base address, without the extension, but the
  credentials of the delivery are looked up by the whole local part, which has no uid.\<close>

theorem subaddressed_mail_is_refused:
  assumes "CHR ''@'' \<notin> set (base @ ext @ d)" "CHR ''+'' \<notin> set base" "d \<noteq> []"
    and "r_provider r = Some get" "get d = Some dd" "r_agent_exists r dd base = Inr True"
    and "gid_map ids d = Some gid" "uid_maps ids d (base @ ''+'' @ ext) = None"
  shows "(\<exists>defer. sm_ValidateRecipient r rejection (base @ ''+'' @ ext @ ''@'' @ d) = Some (True, True, defer))
    \<and> DeliverySession cfg (\<lambda>l d. Identity.Lookup False False ids (dcfg d) dp ddp l d) flt dir (base @ ''+'' @ ext @ ''@'' @ d) os
        = (os, Inl (CredentialLookup (CredUID ErrNoUID)))"
proof -
  let ?l = "base @ ''+'' @ ext"
  have cut: "CutByte (CHR ''@'') (base @ ''+'' @ ext @ ''@'' @ d) = Some (?l, d)"
    using assms(1) by (simp add: CutByte_Some_iff)
  have split: "SplitUsername (base @ ''+'' @ ext @ ''@'' @ d) = (?l, d)"
  proof -
    have "CutLastByte (CHR ''@'') (base @ ''+'' @ ext @ ''@'' @ d) = Some (?l, d)" using assms(1) by (simp add: CutLastByte_Some_iff)
    then show ?thesis by (simp only: SplitUsername_def option.case prod.case)
  qed
  have parse: "ParseLocalPart ?l = (base, ext)" using assms(2) by (simp add: ParseLocalPart_def)
  have uid: "Identity.Lookup False False ids c dp ddp ?l d = Inl (CredUID ErrNoUID)" for c
    using assms(7,8) by (simp add: Lookup_def Let_def DomainGID_def UserUID_def loadMap_def split: prod.split)
  show ?thesis using assms(3-6) cut split parse uid
    by (simp add: sm_ValidateRecipient_def router_UserExists_def DeliverySession_def Let_def del: append.simps)
qed

definition demo_sm_router :: "unit router" where
  "demo_sm_router = \<lparr>r_provider = Some (\<lambda>d. if d = ''d'' then Some () else None), r_domains = [''d''],
     r_agent = (\<lambda>_ _ _. Inl ErrAuthFailed), r_agent_exists = (\<lambda>_ u. Inr (u = ''bob'')), r_fallback = None\<rparr>"

lemma demo_ids_eval:
  "gid_map demo_ids ''d'' = Some 10000" "uid_maps demo_ids ''d'' ''bob+lists'' = None"
  by (simp_all add: demo_ids_def id_eval)

theorem subaddressed_mail_is_refused_witness:
  "(\<exists>defer. sm_ValidateRecipient demo_sm_router (\<lambda>_. []) ''bob+lists@d'' = Some (True, True, defer))
   \<and> DeliverySession demo_sm_cfg demo_lookup {} ''/t/1'' ''bob+lists@d'' demo_os = (demo_os, Inl (CredentialLookup (CredUID ErrNoUID)))"
  using subaddressed_mail_is_refused[where base = "''bob''" and ext = "''lists''" and d = "''d''" and r = demo_sm_router
      and get = "\<lambda>d. if d = ''d'' then Some () else None" and dd = "()" and ids = demo_ids and gid = 10000 and rejection = "\<lambda>_. []"
      and cfg = demo_sm_cfg and dcfg = "\<lambda>_. None" and dp = "''/e''" and ddp = "[]" and flt = "{}" and dir = "''/t/1''" and os = demo_os]
  by (simp add: demo_sm_router_def demo_ids_eval demo_lookup_def)

end
