(* ===== verification/AtRest.thy ===== *)
theory AtRest
  imports Maildir
begin

text \<open>Encryption at rest (\<open>msgstore/encrypting_delivery.go\<close>, \<open>msgstore/decrypting_store.go\<close>) and the store interfaces it
  wraps (\<open>msgstore/store.go\<close>).  NaCl is a record of functions, and what the random source yields is an argument of the operation
  that reads it.  The interfaces are records of functions over the state of the store, so that the decrypting wrapper maps a record
  to a record, as it wraps one store in another in the code.\<close>

section \<open>NaCl boxes\<close>

text \<open>The public key of a private key, sealing a message with a nonce for a public key by a private key, and opening.\<close>

record nacl =
  box_public :: "string \<Rightarrow> string option"
  box_seal :: "string \<Rightarrow> string \<Rightarrow> string \<Rightarrow> string \<Rightarrow> string"
  box_open :: "string \<Rightarrow> string \<Rightarrow> string \<Rightarrow> string \<Rightarrow> string option"

text \<open>An ephemeral private key and a nonce, or a failing source.\<close>

type_synonym entropy = "(string \<times> string) option"

definition PublicKeySize :: nat where
  "PublicKeySize = 32"

definition NonceSize :: nat where
  "NonceSize = 24"

definition box_Overhead :: nat where
  "box_Overhead = 16"

definition EncryptMessage :: "nacl \<Rightarrow> entropy \<Rightarrow> string \<Rightarrow> string \<Rightarrow> string option" where
  "EncryptMessage N rnd message recipientPubKey =
     (if length recipientPubKey \<noteq> PublicKeySize then None
      else case rnd of
        None \<Rightarrow> None
      | Some (ephemeralPriv, nonce) \<Rightarrow> (case box_public N ephemeralPriv of
            None \<Rightarrow> None
          | Some ephemeralPub \<Rightarrow> Some (ephemeralPub @ nonce @ box_seal N message nonce recipientPubKey ephemeralPriv)))"

definition DecryptMessage :: "nacl \<Rightarrow> string \<Rightarrow> string \<Rightarrow> string option" where
  "DecryptMessage N encryptedData privateKey =
     (if length privateKey \<noteq> PublicKeySize then None
      else if length encryptedData < PublicKeySize + NonceSize + box_Overhead then None
      else box_open N (drop (PublicKeySize + NonceSize) encryptedData) (take NonceSize (drop PublicKeySize encryptedData))
             (take PublicKeySize encryptedData) privateKey)"

definition extractUsername :: "string \<Rightarrow> string" where
  "extractUsername email = (case CutByte (CHR ''@'') email of None \<Rightarrow> email | Some (l, d) \<Rightarrow> l)"

section \<open>The delivery agent that encrypts\<close>

text \<open>The key provider answers whether a user has encryption and with a key, or fails.  Recipients it cannot answer for get
  plaintext.\<close>

record key_provider =
  HasEncryption :: "string \<Rightarrow> bool option"
  GetPublicKey :: "string \<Rightarrow> string option"

definition recipient_key :: "key_provider \<Rightarrow> string \<Rightarrow> string option" where
  "recipient_key kp recipient =
     (let username = extractUsername (rc_Address (ParseRecipient recipient)) in
      case HasEncryption kp username of Some True \<Rightarrow> GetPublicKey kp username | _ \<Rightarrow> None)"

text \<open>A delivery agent takes recipients and a message, and answers whether it succeeded.\<close>

fun encrypted_deliveries :: "nacl \<Rightarrow> (string \<Rightarrow> entropy) \<Rightarrow> (string list \<Rightarrow> string \<Rightarrow> 's \<Rightarrow> 's \<times> bool) \<Rightarrow> string \<Rightarrow> (string \<times> string) list
    \<Rightarrow> 's \<Rightarrow> 's \<times> bool" where
  "encrypted_deliveries N rnd deliver message [] st = (st, True)"
| "encrypted_deliveries N rnd deliver message ((recipient, pubKey) # rest) st = (case EncryptMessage N (rnd recipient) message pubKey of
       None \<Rightarrow> (st, False)
     | Some blob \<Rightarrow> (case deliver [recipient] blob st of
           (st1, False) \<Rightarrow> (st1, False)
         | (st1, True) \<Rightarrow> encrypted_deliveries N rnd deliver message rest st1))"

definition EncryptingDeliveryAgent_Deliver :: "nacl \<Rightarrow> (string \<Rightarrow> entropy) \<Rightarrow> key_provider \<Rightarrow> (string list \<Rightarrow> string \<Rightarrow> 's \<Rightarrow> 's \<times> bool)
    \<Rightarrow> string list \<Rightarrow> string \<Rightarrow> 's \<Rightarrow> 's \<times> bool" where
  "EncryptingDeliveryAgent_Deliver N rnd kp deliver recipients message st =
     (let plaintextRecipients = filter (\<lambda>r. recipient_key kp r = None) recipients;
          encryptedRecipients = List.map_filter (\<lambda>r. map_option (Pair r) (recipient_key kp r)) recipients
      in case (if plaintextRecipients \<noteq> [] then deliver plaintextRecipients message st else (st, True)) of
           (st1, False) \<Rightarrow> (st1, False)
         | (st1, True) \<Rightarrow> encrypted_deliveries N rnd deliver message encryptedRecipients st1)"

section \<open>Store interfaces\<close>

record 's folder_store =
  fo_CreateFolder :: "string \<Rightarrow> string \<Rightarrow> 's \<Rightarrow> 's \<times> store_error option"
  fo_ListFolders :: "string \<Rightarrow> 's \<Rightarrow> store_error + string list"
  fo_DeleteFolder :: "string \<Rightarrow> string \<Rightarrow> 's \<Rightarrow> 's \<times> store_error option"
  fo_ListInFolder :: "string \<Rightarrow> string \<Rightarrow> 's \<Rightarrow> 's \<times> (store_error + messageInfo list)"
  fo_StatFolder :: "string \<Rightarrow> string \<Rightarrow> 's \<Rightarrow> 's \<times> (store_error + int \<times> int)"
  fo_RetrieveFromFolder :: "string \<Rightarrow> string \<Rightarrow> uint32 \<Rightarrow> 's \<Rightarrow> 's \<times> (store_error + string)"
  fo_DeleteInFolder :: "string \<Rightarrow> string \<Rightarrow> uint32 \<Rightarrow> 's \<Rightarrow> 's \<times> store_error option"
  fo_ExpungeFolder :: "string \<Rightarrow> string \<Rightarrow> 's \<Rightarrow> 's \<times> store_error option"
  fo_DeliverToFolder :: "string \<Rightarrow> string \<Rightarrow> string \<Rightarrow> 's \<Rightarrow> 's \<times> store_error option"
  fo_RenameFolder :: "string \<Rightarrow> string \<Rightarrow> string \<Rightarrow> 's \<Rightarrow> 's \<times> store_error option"
  fo_AppendToFolder :: "string \<Rightarrow> string \<Rightarrow> string \<Rightarrow> string list \<Rightarrow> int \<Rightarrow> 's \<Rightarrow> 's \<times> (store_error + uint32)"
  fo_SetFlagsInFolder :: "string \<Rightarrow> string \<Rightarrow> uint32 \<Rightarrow> string list \<Rightarrow> 's \<Rightarrow> 's \<times> store_error option"
  fo_CopyMessage :: "string \<Rightarrow> string \<Rightarrow> uint32 \<Rightarrow> string \<Rightarrow> 's \<Rightarrow> 's \<times> (store_error + uint32)"
  fo_UIDValidity :: "string \<Rightarrow> string \<Rightarrow> 's \<Rightarrow> 's \<times> (store_error + uint32)"
  fo_UIDNext :: "string \<Rightarrow> string \<Rightarrow> 's \<Rightarrow> 's \<times> (store_error + uint32)"

text \<open>A store that is also a folder store has its folder operations.\<close>

record 's msg_store =
  ms_List :: "string \<Rightarrow> 's \<Rightarrow> 's \<times> (store_error + messageInfo list)"
  ms_Retrieve :: "string \<Rightarrow> uint32 \<Rightarrow> 's \<Rightarrow> 's \<times> (store_error + string)"
  ms_Delete :: "string \<Rightarrow> uint32 \<Rightarrow> 's \<Rightarrow> 's \<times> store_error option"
  ms_Expunge :: "string \<Rightarrow> 's \<Rightarrow> 's \<times> store_error option"
  ms_Stat :: "string \<Rightarrow> 's \<Rightarrow> 's \<times> (store_error + int \<times> int)"
  ms_folders :: "'s folder_store option"

text \<open>The Maildir store; the internal date of an append is not used by it.\<close>

definition maildir_folders :: "maildir_lib \<Rightarrow> fault set \<Rightarrow> (string \<Rightarrow> (string \<times> bool) list) \<Rightarrow> int \<Rightarrow> mstore folder_store" where
  "maildir_folders L flt readdir now = \<lparr>
     fo_CreateFolder = CreateFolder L flt, fo_ListFolders = ListFolders flt readdir, fo_DeleteFolder = DeleteFolder flt,
     fo_ListInFolder = ListInFolder L flt now, fo_StatFolder = StatFolder L flt now,
     fo_RetrieveFromFolder = RetrieveFromFolder L flt now, fo_DeleteInFolder = DeleteInFolder,
     fo_ExpungeFolder = ExpungeFolder L flt now, fo_DeliverToFolder = DeliverToFolder L flt now,
     fo_RenameFolder = RenameFolder flt,
     fo_AppendToFolder = (\<lambda>mailbox folder data flags date. AppendToFolder L flt now mailbox folder data flags),
     fo_SetFlagsInFolder = SetFlagsInFolder L flt now, fo_CopyMessage = CopyMessage L flt now,
     fo_UIDValidity = UIDValidity L flt now, fo_UIDNext = UIDNext L flt now\<rparr>"

definition maildir_store :: "maildir_lib \<Rightarrow> fault set \<Rightarrow> (string \<Rightarrow> (string \<times> bool) list) \<Rightarrow> int \<Rightarrow> mstore msg_store" where
  "maildir_store L flt readdir now = \<lparr>
     ms_List = store_List L flt now, ms_Retrieve = store_Retrieve L flt now,
     ms_Delete = (\<lambda>mailbox uid st. (store_Delete mailbox uid st, None)), ms_Expunge = store_Expunge L flt now,
     ms_Stat = store_Stat L flt now, ms_folders = Some (maildir_folders L flt readdir now)\<rparr>"

section \<open>The decrypting store\<close>

record session_key =
  dk_sessionKey :: "string option"
  dk_publicKey :: "string option"

definition no_session_key :: session_key where
  "no_session_key = \<lparr>dk_sessionKey = None, dk_publicKey = None\<rparr>"

definition SetSessionKey :: "nacl \<Rightarrow> string \<Rightarrow> session_key" where
  "SetSessionKey N key = \<lparr>dk_sessionKey = Some key,
     dk_publicKey = (if length key = PublicKeySize then box_public N key else None)\<rparr>"

definition ClearSessionKey :: "session_key \<Rightarrow> session_key" where
  "ClearSessionKey k = no_session_key"

definition decryptOrRaw :: "nacl \<Rightarrow> string \<Rightarrow> string \<Rightarrow> string" where
  "decryptOrRaw N sessionKey data = (case DecryptMessage N data sessionKey of Some plain \<Rightarrow> plain | None \<Rightarrow> data)"

definition decrypt_result :: "nacl \<Rightarrow> session_key \<Rightarrow> 's \<times> (store_error + string) \<Rightarrow> 's \<times> (store_error + string)" where
  "decrypt_result N k r = (case r of
       (st, Inl e) \<Rightarrow> (st, Inl e)
     | (st, Inr data) \<Rightarrow> (st, Inr (case dk_sessionKey k of None \<Rightarrow> data | Some key \<Rightarrow> decryptOrRaw N key data)))"

definition encryptForWrite :: "nacl \<Rightarrow> entropy \<Rightarrow> session_key \<Rightarrow> string \<Rightarrow> string option" where
  "encryptForWrite N rnd k data = (case dk_publicKey k of None \<Rightarrow> Some data | Some pub \<Rightarrow> EncryptMessage N rnd data pub)"

definition decrypting_folders :: "nacl \<Rightarrow> entropy \<Rightarrow> session_key \<Rightarrow> 's folder_store \<Rightarrow> 's folder_store" where
  "decrypting_folders N rnd k fs = fs\<lparr>
     fo_RetrieveFromFolder := (\<lambda>mailbox folder uid st. decrypt_result N k (fo_RetrieveFromFolder fs mailbox folder uid st)),
     fo_DeliverToFolder := (\<lambda>mailbox folder message st. case encryptForWrite N rnd k message of
         None \<Rightarrow> (st, Some ErrIO) | Some data \<Rightarrow> fo_DeliverToFolder fs mailbox folder data st),
     fo_AppendToFolder := (\<lambda>mailbox folder message flags date st. case encryptForWrite N rnd k message of
         None \<Rightarrow> (st, Inl ErrIO) | Some data \<Rightarrow> fo_AppendToFolder fs mailbox folder data flags date st)\<rparr>"

definition NewDecryptingStore :: "nacl \<Rightarrow> entropy \<Rightarrow> session_key \<Rightarrow> 's msg_store \<Rightarrow> 's msg_store" where
  "NewDecryptingStore N rnd k underlying = underlying\<lparr>
     ms_Retrieve := (\<lambda>mailbox uid st. decrypt_result N k (ms_Retrieve underlying mailbox uid st)),
     ms_folders := map_option (decrypting_folders N rnd k) (ms_folders underlying)\<rparr>"

section \<open>What the store relies on of NaCl\<close>

text \<open>A public key has 32 bytes, a sealed message is 16 bytes longer, and the owner of the private key of the box opens it with the
  public key of the sender.\<close>

definition nacl_ok :: "nacl \<Rightarrow> bool" where
  "nacl_ok N = ((\<forall>sk pk. box_public N sk = Some pk \<longrightarrow> length pk = 32)
     \<and> (\<forall>m n pk sk. length (box_seal N m n pk sk) = length m + 16)
     \<and> (\<forall>m n sk1 pk1 sk2 pk2. box_public N sk1 = Some pk1 \<longrightarrow> box_public N sk2 = Some pk2 \<longrightarrow>
          box_open N (box_seal N m n pk2 sk1) n pk1 sk2 = Some m))"

text \<open>Functions that satisfy it: the key pairs are equal, and a seal is the start of the shared key, masked by the nonce.\<close>

definition mix :: "string \<Rightarrow> string \<Rightarrow> nat \<Rightarrow> string" where
  "mix a b n = map (\<lambda>i. char_of ((of_char ((a @ replicate n (CHR 0x00)) ! i) + of_char ((b @ replicate n (CHR 0x00)) ! i) :: nat))) [0..<n]"

definition ref_nacl :: nacl where
  "ref_nacl = \<lparr>
     box_public = (\<lambda>sk. if length sk = 32 then Some sk else None),
     box_seal = (\<lambda>m n pk sk. mix pk sk 16 @ rev m),
     box_open = (\<lambda>c n pk sk. if take 16 c = mix pk sk 16 then Some (rev (drop 16 c)) else None)\<rparr>"

lemma mix_simps: "length (mix a b n) = n" "mix a b n = mix b a n"
  by (simp_all add: mix_def add.commute)

lemma ref_nacl_ok: "nacl_ok ref_nacl"
  using mix_simps(2) by (auto simp: nacl_ok_def ref_nacl_def mix_simps(1) split: if_split_asm)

text \<open>What is encrypted for the public key of a private key can be read with it.\<close>

definition entropy_ok :: "entropy \<Rightarrow> bool" where
  "entropy_ok rnd = (case rnd of None \<Rightarrow> True | Some (sk, nonce) \<Rightarrow> length nonce = NonceSize)"

lemma encrypt_decrypt:
  assumes "nacl_ok N" "entropy_ok rnd" "length sk = PublicKeySize" "box_public N sk = Some pub" "EncryptMessage N rnd m pub = Some blob"
  shows "DecryptMessage N blob sk = Some m"
proof -
  obtain esk nonce epk where r: "rnd = Some (esk, nonce)" "box_public N esk = Some epk"
      "blob = epk @ nonce @ box_seal N m nonce pub esk"
    using assms(5) by (auto simp: EncryptMessage_def split: if_split_asm option.split_asm)
  have l: "length epk = 32" "length nonce = 24" "length (box_seal N m nonce pub esk) = length m + 16"
    using assms(1,2) r by (auto simp: nacl_ok_def entropy_ok_def NonceSize_def)
  have "box_open N (box_seal N m nonce pub esk) nonce epk sk = Some m"
    using assms(1,4) r(2) by (simp add: nacl_ok_def)
  then show ?thesis using l assms(3) by (simp add: DecryptMessage_def r(3) PublicKeySize_def NonceSize_def box_Overhead_def)
qed

end
