(* ===== verification/MailSession.thy ===== *)
theory MailSession
  imports AtRest
begin

text \<open>The mailbox state of a mail-session process (\<open>internal/mail-session/session/session.go\<close>) over any store: the
  selected folder, the cached list of its messages, and the marks of a POP3 session.\<close>

section \<open>The session (session.go)\<close>

record session =
  ss_mailbox :: string
  ss_selectedFolder :: string
  ss_msgs :: "messageInfo list"
  ss_deleted :: "uint32 list"

datatype sess_error =
    SeMessageNotFound | SeAlreadyDeleted | SeNotDeleted | SeMailboxNotOpen | SeNoFolders | SeSameFolder | SeStore store_error

type_synonym ('s, 'a) sess_result = "(session \<times> 's) \<times> (sess_error + 'a)"

definition New_Session :: session where
  "New_Session = \<lparr>ss_mailbox = [], ss_selectedFolder = [], ss_msgs = [], ss_deleted = []\<rparr>"

definition flagDeleted :: string where
  "flagDeleted = imap_name ''Deleted''"

definition hasFlag :: "string list \<Rightarrow> string \<Rightarrow> bool" where
  "hasFlag flags flag = (flag \<in> set flags)"

definition eq_fold :: "string \<Rightarrow> string \<Rightarrow> bool" where
  "eq_fold a b = (ToLower a = ToLower b)"

text \<open>A folder that is not named is the inbox.\<close>

definition is_inbox :: "string \<Rightarrow> bool" where
  "is_inbox folder = (folder = [] \<or> eq_fold folder ''INBOX'')"

definition store_value :: "session \<Rightarrow> 's \<times> (store_error + 'a) \<Rightarrow> ('s, 'a) sess_result" where
  "store_value s r = (case r of (st, Inl e) \<Rightarrow> ((s, st), Inl (SeStore e)) | (st, Inr x) \<Rightarrow> ((s, st), Inr x))"

definition store_done :: "session \<Rightarrow> 's \<times> store_error option \<Rightarrow> ('s, unit) sess_result" where
  "store_done s r = (case r of (st, Some e) \<Rightarrow> ((s, st), Inl (SeStore e)) | (st, None) \<Rightarrow> ((s, st), Inr ()))"

definition with_folders :: "'s msg_store \<Rightarrow> session \<times> 's \<Rightarrow> ('s folder_store \<Rightarrow> ('s, 'a) sess_result) \<Rightarrow> ('s, 'a) sess_result" where
  "with_folders S x f = (case ms_folders S of None \<Rightarrow> (x, Inl SeNoFolders) | Some fs \<Rightarrow> f fs)"

definition sess_Open :: "'s msg_store \<Rightarrow> string \<Rightarrow> session \<times> 's \<Rightarrow> ('s, unit) sess_result" where
  "sess_Open S mailbox x = (case ms_List S mailbox (snd x) of
       (st, Inl e) \<Rightarrow> ((fst x, st), Inl (SeStore e))
     | (st, Inr msgs) \<Rightarrow>
         (((fst x)\<lparr>ss_mailbox := mailbox, ss_selectedFolder := [], ss_msgs := msgs, ss_deleted := []\<rparr>, st), Inr ()))"

definition sess_Stat :: "session \<Rightarrow> int \<times> int" where
  "sess_Stat s = (int (length (ss_msgs s)), sum_list (map mi_Size (ss_msgs s)))"

definition GetUID :: "uint32 \<Rightarrow> session \<Rightarrow> sess_error + messageInfo" where
  "GetUID uid s = (case List.find (\<lambda>m. mi_UID m = uid) (ss_msgs s) of None \<Rightarrow> Inl SeMessageNotFound | Some m \<Rightarrow> Inr m)"

definition RetrieveFrom :: "'s msg_store \<Rightarrow> string \<Rightarrow> uint32 \<Rightarrow> session \<times> 's \<Rightarrow> ('s, string) sess_result" where
  "RetrieveFrom S folder uid x =
     (if is_inbox folder then store_value (fst x) (ms_Retrieve S (ss_mailbox (fst x)) uid (snd x))
      else with_folders S x (\<lambda>fs. store_value (fst x) (fo_RetrieveFromFolder fs (ss_mailbox (fst x)) folder uid (snd x))))"

definition sess_Retrieve :: "'s msg_store \<Rightarrow> uint32 \<Rightarrow> session \<times> 's \<Rightarrow> ('s, string) sess_result" where
  "sess_Retrieve S uid x = RetrieveFrom S (ss_selectedFolder (fst x)) uid x"

definition sess_Delete :: "uint32 \<Rightarrow> session \<times> 's \<Rightarrow> ('s, unit) sess_result" where
  "sess_Delete uid x = (case GetUID uid (fst x) of
       Inl e \<Rightarrow> (x, Inl e)
     | Inr m \<Rightarrow> (if uid \<in> set (ss_deleted (fst x)) then (x, Inl SeAlreadyDeleted)
                else (((fst x)\<lparr>ss_deleted := uid # ss_deleted (fst x)\<rparr>, snd x), Inr ())))"

definition sess_Undelete :: "uint32 \<Rightarrow> session \<times> 's \<Rightarrow> ('s, unit) sess_result" where
  "sess_Undelete uid x = (case GetUID uid (fst x) of
       Inl e \<Rightarrow> (x, Inl e)
     | Inr m \<Rightarrow> (if uid \<notin> set (ss_deleted (fst x)) then (x, Inl SeNotDeleted)
                else (((fst x)\<lparr>ss_deleted := removeAll uid (ss_deleted (fst x))\<rparr>, snd x), Inr ())))"

fun delete_marked :: "'s msg_store \<Rightarrow> string \<Rightarrow> uint32 list \<Rightarrow> 's \<Rightarrow> 's \<times> store_error option" where
  "delete_marked S mailbox [] st = (st, None)"
| "delete_marked S mailbox (uid # uids) st = (case ms_Delete S mailbox uid st of
       (st1, Some e) \<Rightarrow> (st1, Some e)
     | (st1, None) \<Rightarrow> delete_marked S mailbox uids st1)"

text \<open>The marks are a map, walked in an order of the runtime's choice; they are kept after the commit.\<close>

definition sess_Commit :: "'s msg_store \<Rightarrow> (uint32 list \<Rightarrow> uint32 list) \<Rightarrow> session \<times> 's \<Rightarrow> ('s, unit) sess_result" where
  "sess_Commit S order x = (case delete_marked S (ss_mailbox (fst x)) (order (ss_deleted (fst x))) (snd x) of
       (st, Some e) \<Rightarrow> ((fst x, st), Inl (SeStore e))
     | (st, None) \<Rightarrow> (if ss_deleted (fst x) \<noteq> [] then store_done (fst x) (ms_Expunge S (ss_mailbox (fst x)) st)
                     else ((fst x, st), Inr ())))"

definition list_folder :: "'s msg_store \<Rightarrow> string \<Rightarrow> session \<times> 's \<Rightarrow> ('s, messageInfo list) sess_result" where
  "list_folder S folder x =
     (if is_inbox folder then store_value (fst x) (ms_List S (ss_mailbox (fst x)) (snd x))
      else with_folders S x (\<lambda>fs. store_value (fst x) (fo_ListInFolder fs (ss_mailbox (fst x)) folder (snd x))))"

definition sess_Rescan :: "'s msg_store \<Rightarrow> session \<times> 's \<Rightarrow> ('s, messageInfo list) sess_result" where
  "sess_Rescan S x =
     (if ss_mailbox (fst x) = [] then (x, Inl SeMailboxNotOpen)
      else case list_folder S (ss_selectedFolder (fst x)) x of
        (x1, Inl e) \<Rightarrow> (x1, Inl e)
      | (x1, Inr allMsgs) \<Rightarrow>
          (((fst x1)\<lparr>ss_msgs := allMsgs\<rparr>, snd x1),
           Inr (filter (\<lambda>m. mi_UID m \<notin> mi_UID ` set (ss_msgs (fst x))) allMsgs)))"

text \<open>Selecting, unlike rescanning, takes an empty name for a folder.\<close>

definition sess_Select :: "'s msg_store \<Rightarrow> string \<Rightarrow> session \<times> 's \<Rightarrow> ('s, messageInfo list) sess_result" where
  "sess_Select S folder x =
     (case (if eq_fold folder ''INBOX'' then store_value (fst x) (ms_List S (ss_mailbox (fst x)) (snd x))
            else with_folders S x (\<lambda>fs. store_value (fst x) (fo_ListInFolder fs (ss_mailbox (fst x)) folder (snd x)))) of
        (x1, Inl e) \<Rightarrow> (x1, Inl e)
      | (x1, Inr msgs) \<Rightarrow> (((fst x1)\<lparr>ss_selectedFolder := folder, ss_msgs := msgs\<rparr>, snd x1), Inr msgs))"

definition sess_Folders :: "'s msg_store \<Rightarrow> session \<times> 's \<Rightarrow> ('s, string list) sess_result" where
  "sess_Folders S x = with_folders S x (\<lambda>fs. (x, case fo_ListFolders fs (ss_mailbox (fst x)) (snd x) of Inl e \<Rightarrow> Inl (SeStore e) | Inr l \<Rightarrow> Inr l))"

definition sess_UIDValidity :: "'s msg_store \<Rightarrow> string \<Rightarrow> session \<times> 's \<Rightarrow> ('s, uint32) sess_result" where
  "sess_UIDValidity S folder x = with_folders S x (\<lambda>fs. store_value (fst x) (fo_UIDValidity fs (ss_mailbox (fst x)) folder (snd x)))"

definition sess_UIDNext :: "'s msg_store \<Rightarrow> string \<Rightarrow> session \<times> 's \<Rightarrow> ('s, uint32) sess_result" where
  "sess_UIDNext S folder x = with_folders S x (\<lambda>fs. store_value (fst x) (fo_UIDNext fs (ss_mailbox (fst x)) folder (snd x)))"

definition sess_CreateFolder :: "'s msg_store \<Rightarrow> string \<Rightarrow> session \<times> 's \<Rightarrow> ('s, unit) sess_result" where
  "sess_CreateFolder S name x = with_folders S x (\<lambda>fs. store_done (fst x) (fo_CreateFolder fs (ss_mailbox (fst x)) name (snd x)))"

definition sess_DeleteFolder :: "'s msg_store \<Rightarrow> string \<Rightarrow> session \<times> 's \<Rightarrow> ('s, unit) sess_result" where
  "sess_DeleteFolder S name x = with_folders S x (\<lambda>fs. store_done (fst x) (fo_DeleteFolder fs (ss_mailbox (fst x)) name (snd x)))"

definition sess_RenameFolder :: "'s msg_store \<Rightarrow> string \<Rightarrow> string \<Rightarrow> session \<times> 's \<Rightarrow> ('s, unit) sess_result" where
  "sess_RenameFolder S old new x = with_folders S x (\<lambda>fs. store_done (fst x) (fo_RenameFolder fs (ss_mailbox (fst x)) old new (snd x)))"

text \<open>The first message with the UID gets the new flags in the cached list.\<close>

fun cache_flags :: "uint32 \<Rightarrow> string list \<Rightarrow> messageInfo list \<Rightarrow> messageInfo list" where
  "cache_flags uid flags [] = []"
| "cache_flags uid flags (m # ms) = (if mi_UID m = uid then m\<lparr>mi_Flags := flags\<rparr> # ms else m # cache_flags uid flags ms)"

definition or_inbox :: "string \<Rightarrow> string" where
  "or_inbox folder = (if folder = [] then ''INBOX'' else folder)"

definition sess_SetFlags :: "'s msg_store \<Rightarrow> uint32 \<Rightarrow> string list \<Rightarrow> session \<times> 's \<Rightarrow> ('s, unit) sess_result" where
  "sess_SetFlags S uid flags x = with_folders S x (\<lambda>fs.
     case fo_SetFlagsInFolder fs (ss_mailbox (fst x)) (or_inbox (ss_selectedFolder (fst x))) uid flags (snd x) of
       (st, Some e) \<Rightarrow> ((fst x, st), Inl (SeStore e))
     | (st, None) \<Rightarrow> (((fst x)\<lparr>ss_msgs := cache_flags uid flags (ss_msgs (fst x))\<rparr>, st), Inr ()))"

text \<open>The messages with the flag are marked one by one.\<close>

fun mark_flagged :: "'s msg_store \<Rightarrow> string \<Rightarrow> string \<Rightarrow> uint32 list \<Rightarrow> 's \<Rightarrow> 's \<times> sess_error option" where
  "mark_flagged S mailbox folder [] st = (st, None)"
| "mark_flagged S mailbox folder (uid # uids) st =
     (case (if is_inbox folder then Some (ms_Delete S mailbox uid st)
            else map_option (\<lambda>fs. fo_DeleteInFolder fs mailbox folder uid st) (ms_folders S)) of
        None \<Rightarrow> (st, Some SeNoFolders)
      | Some (st1, Some e) \<Rightarrow> (st1, Some (SeStore e))
      | Some (st1, None) \<Rightarrow> mark_flagged S mailbox folder uids st1)"

definition expunge_folder :: "'s msg_store \<Rightarrow> string \<Rightarrow> session \<times> 's \<Rightarrow> ('s, unit) sess_result" where
  "expunge_folder S folder x =
     (if is_inbox folder then store_done (fst x) (ms_Expunge S (ss_mailbox (fst x)) (snd x))
      else with_folders S x (\<lambda>fs. store_done (fst x) (fo_ExpungeFolder fs (ss_mailbox (fst x)) folder (snd x))))"

definition sess_Expunge :: "'s msg_store \<Rightarrow> session \<times> 's \<Rightarrow> ('s, uint32 list) sess_result" where
  "sess_Expunge S x =
     (let folder = ss_selectedFolder (fst x);
          expelled = map mi_UID (filter (\<lambda>m. hasFlag (mi_Flags m) flagDeleted) (ss_msgs (fst x)))
      in case mark_flagged S (ss_mailbox (fst x)) folder expelled (snd x) of
           (st1, Some e) \<Rightarrow> ((fst x, st1), Inl e)
         | (st1, None) \<Rightarrow>
             (if expelled = [] then ((fst x, st1), Inr [])
              else case expunge_folder S folder (fst x, st1) of
                (x2, Inl e) \<Rightarrow> (x2, Inl e)
              | (x2, Inr u) \<Rightarrow> (case sess_Select S folder x2 of
                    (x3, Inl e) \<Rightarrow> (x3, Inl e)
                  | (x3, Inr msgs) \<Rightarrow> (x3, Inr expelled))))"

definition AppendMessage :: "'s msg_store \<Rightarrow> string \<Rightarrow> string \<Rightarrow> string list \<Rightarrow> int \<Rightarrow> session \<times> 's \<Rightarrow> ('s, uint32) sess_result" where
  "AppendMessage S folder data flags date x =
     with_folders S x (\<lambda>fs. store_value (fst x) (fo_AppendToFolder fs (ss_mailbox (fst x)) folder data flags date (snd x)))"

definition sess_CopyMessage :: "'s msg_store \<Rightarrow> uint32 \<Rightarrow> string \<Rightarrow> session \<times> 's \<Rightarrow> ('s, uint32) sess_result" where
  "sess_CopyMessage S uid dest x = with_folders S x (\<lambda>fs.
     store_value (fst x) (fo_CopyMessage fs (ss_mailbox (fst x)) (or_inbox (ss_selectedFolder (fst x))) uid dest (snd x)))"

definition delete_in :: "'s msg_store \<Rightarrow> 's folder_store \<Rightarrow> string \<Rightarrow> uint32 \<Rightarrow> session \<times> 's \<Rightarrow> ('s, unit) sess_result" where
  "delete_in S fs folder uid x = store_done (fst x)
     (if eq_fold folder ''INBOX'' then ms_Delete S (ss_mailbox (fst x)) uid (snd x)
      else fo_DeleteInFolder fs (ss_mailbox (fst x)) folder uid (snd x))"

definition MoveMessage :: "'s msg_store \<Rightarrow> uint32 \<Rightarrow> string \<Rightarrow> string \<Rightarrow> session \<times> 's \<Rightarrow> ('s, uint32) sess_result" where
  "MoveMessage S uid srcFolder dest x = with_folders S x (\<lambda>fs. let src = or_inbox srcFolder in
     if eq_fold src dest then (x, Inl SeSameFolder)
     else case store_value (fst x) (fo_CopyMessage fs (ss_mailbox (fst x)) src uid dest (snd x)) of
       (x1, Inl e) \<Rightarrow> (x1, Inl e)
     | (x1, Inr newUID) \<Rightarrow> (case delete_in S fs src uid x1 of
           (x2, Inl e) \<Rightarrow> (x2, Inl e)
         | (x2, Inr u) \<Rightarrow> (case expunge_folder S src x2 of
               (x3, Inl e) \<Rightarrow> (x3, Inl e)
             | (x3, Inr u) \<Rightarrow> (x3, Inr newUID))))"

definition sess_GetDeletedUIDs :: "(uint32 list \<Rightarrow> uint32 list) \<Rightarrow> session \<Rightarrow> uint32 list" where
  "sess_GetDeletedUIDs order s = order (ss_deleted s)"

end
