(* ===== verification/MailServices.thy ===== *)
theory MailServices
  imports MailSession
begin

text \<open>The services of a mail-session process (\<open>internal/mail-session/grpcserver\<close>: mailbox.go, folders.go, watch.go), the content
  search they use (\<open>msgstore/search.go\<close>).  Every service runs under the lock of its process, so a call is one step.\<close>

section \<open>The mailbox service (mailbox.go)\<close>

datatype rpc_code = CodeInternal | CodeNotFound | CodeUnauthenticated | CodeInvalidArgument | CodeUnavailable

type_synonym ('s, 'a) rpc = "session \<times> 's \<Rightarrow> (session \<times> 's) \<times> (rpc_code + 'a)"

text \<open>What a message looks like on the wire.\<close>

record pb_info =
  pb_Uid :: uint32
  pb_Size :: int
  pb_Flags :: "string list"

definition pb_of :: "messageInfo \<Rightarrow> pb_info" where
  "pb_of m = \<lparr>pb_Uid = mi_UID m, pb_Size = mi_Size m, pb_Flags = mi_Flags m\<rparr>"

definition to_code :: "rpc_code \<Rightarrow> ('s, 'a) sess_result \<Rightarrow> (session \<times> 's) \<times> (rpc_code + 'a)" where
  "to_code c r = (case r of (x, Inl e) \<Rightarrow> (x, Inl c) | (x, Inr v) \<Rightarrow> (x, Inr v))"

text \<open>Most calls select their folder first.\<close>

definition selecting :: "'s msg_store \<Rightarrow> string \<Rightarrow> (messageInfo list \<Rightarrow> ('s, 'a) rpc) \<Rightarrow> ('s, 'a) rpc" where
  "selecting S folder k x = (case sess_Select S (or_inbox folder) x of
       (x1, Inl e) \<Rightarrow> (x1, Inl CodeInternal)
     | (x1, Inr msgs) \<Rightarrow> k msgs x1)"

definition rpc_List :: "'s msg_store \<Rightarrow> string \<Rightarrow> ('s, pb_info list) rpc" where
  "rpc_List S folder = selecting S folder (\<lambda>msgs x. (x, Inr (map pb_of msgs)))"

definition to_int32 :: "int \<Rightarrow> int" where
  "to_int32 n = sint (word_of_int n :: 32 word)"

definition rpc_Stat :: "'s msg_store \<Rightarrow> string \<Rightarrow> ('s, int \<times> int) rpc" where
  "rpc_Stat S folder = selecting S folder (\<lambda>msgs x. case sess_Stat (fst x) of (count, totalBytes) \<Rightarrow> (x, Inr (to_int32 count, totalBytes)))"

text \<open>A message travels in pieces of 64 KiB.\<close>

function chunks :: "nat \<Rightarrow> 'a list \<Rightarrow> 'a list list" where
  "chunks n xs = (if n = 0 \<or> xs = [] then [] else take n xs # chunks n (drop n xs))"
  by pat_completeness auto
termination
  by (relation "measure (\<lambda>(n, xs). length xs)") auto

declare chunks.simps [simp del]

lemma concat_chunks: "0 < n \<Longrightarrow> concat (chunks n xs) = xs"
  by (induction n xs rule: chunks.induct) (subst chunks.simps, auto)

definition chunk_size :: nat where
  "chunk_size = 64 * 1024"

definition rpc_Fetch :: "'s msg_store \<Rightarrow> string \<Rightarrow> uint32 \<Rightarrow> ('s, string list) rpc" where
  "rpc_Fetch S folder uid = selecting S folder (\<lambda>msgs x. case sess_Retrieve S uid x of
       (x1, Inl e) \<Rightarrow> (x1, Inl CodeNotFound)
     | (x1, Inr data) \<Rightarrow> (x1, Inr (chunks chunk_size data)))"

text \<open>The lines of a message, each with its newline.\<close>

fun lines_with_ends :: "string \<Rightarrow> string list" where
  "lines_with_ends [] = []"
| "lines_with_ends (c # s) =
     (if c = CHR 10 then [c] # lines_with_ends s
      else case lines_with_ends s of [] \<Rightarrow> [[c]] | l # ls \<Rightarrow> (c # l) # ls)"

definition is_crlf :: "char \<Rightarrow> bool" where
  "is_crlf c = (c = CHR 13 \<or> c = CHR 10)"

fun take_headers :: "int \<Rightarrow> bool \<Rightarrow> int \<Rightarrow> string list \<Rightarrow> string" where
  "take_headers nLines inBody bodyCount [] = []"
| "take_headers nLines False bodyCount (line # rest) = line @ take_headers nLines (list_all is_crlf line) bodyCount rest"
| "take_headers nLines True bodyCount (line # rest) =
     (if nLines = 0 then []
      else line @ (if nLines \<le> bodyCount + 1 then [] else take_headers nLines True (bodyCount + 1) rest))"

definition extractHeaders :: "string \<Rightarrow> int \<Rightarrow> string" where
  "extractHeaders data nLines = take_headers nLines False 0 (lines_with_ends data)"

definition rpc_FetchHeaders :: "'s msg_store \<Rightarrow> string \<Rightarrow> uint32 \<Rightarrow> int \<Rightarrow> ('s, string) rpc" where
  "rpc_FetchHeaders S folder uid bodyLines = selecting S folder (\<lambda>msgs x. case sess_Retrieve S uid x of
       (x1, Inl e) \<Rightarrow> (x1, Inl CodeNotFound)
     | (x1, Inr data) \<Rightarrow> (x1, Inr (extractHeaders data bodyLines)))"

section \<open>Content search (search.go)\<close>

record ContentMatch =
  cm_UID :: uint32
  cm_Headers :: string
  cm_BodyMatches :: "bool list"
  cm_TextMatches :: "bool list"

text \<open>The text up to and including the first occurrence of a separator, and the rest.\<close>

fun split_after :: "string \<Rightarrow> string \<Rightarrow> (string \<times> string) option" where
  "split_after sep [] = (if sep = [] then Some ([], []) else None)"
| "split_after sep (c # s) =
     (if HasPrefix (c # s) sep then Some (sep, drop (length sep) (c # s))
      else map_option (\<lambda>(a, b). (c # a, b)) (split_after sep s))"

definition splitMessage :: "string \<Rightarrow> string \<times> string" where
  "splitMessage data = (case split_after [CHR 13, CHR 10, CHR 13, CHR 10] data of
       Some p \<Rightarrow> p
     | None \<Rightarrow> (case split_after [CHR 10, CHR 10] data of Some p \<Rightarrow> p | None \<Rightarrow> (data, [])))"

definition MatchMessageContent :: "string \<Rightarrow> uint32 \<Rightarrow> string list \<Rightarrow> string list \<Rightarrow> bool \<Rightarrow> ContentMatch" where
  "MatchMessageContent data uid bodyTerms textTerms needHeaders =
     (let (header, body) = splitMessage data in
      \<lparr>cm_UID = uid, cm_Headers = (if needHeaders then header else []),
       cm_BodyMatches = map (\<lambda>t. Contains (ToLower body) (ToLower t)) bodyTerms,
       cm_TextMatches = map (\<lambda>t. Contains (ToLower data) (ToLower t)) textTerms\<rparr>)"

text \<open>A message that cannot be retrieved has no result.\<close>

fun search_each :: "'s msg_store \<Rightarrow> string list \<Rightarrow> string list \<Rightarrow> bool \<Rightarrow> uint32 list \<Rightarrow> session \<times> 's \<Rightarrow> (session \<times> 's) \<times> ContentMatch list" where
  "search_each S bodyTerms textTerms needHeaders [] x = (x, [])"
| "search_each S bodyTerms textTerms needHeaders (uid # uids) x = (case sess_Retrieve S uid x of
       (x1, Inl e) \<Rightarrow> search_each S bodyTerms textTerms needHeaders uids x1
     | (x1, Inr data) \<Rightarrow> (case search_each S bodyTerms textTerms needHeaders uids x1 of
           (x2, rs) \<Rightarrow> (x2, MatchMessageContent data uid bodyTerms textTerms needHeaders # rs)))"

definition rpc_SearchContent :: "'s msg_store \<Rightarrow> string \<Rightarrow> uint32 list \<Rightarrow> string list \<Rightarrow> string list \<Rightarrow> bool \<Rightarrow> ('s, ContentMatch list) rpc" where
  "rpc_SearchContent S folder uids bodyTerms textTerms needHeaders = selecting S folder (\<lambda>msgs x.
     case search_each S bodyTerms textTerms needHeaders (if uids = [] then map mi_UID (ss_msgs (fst x)) else uids) x of
       (x1, rs) \<Rightarrow> (x1, Inr rs))"

section \<open>Changes (mailbox.go, folders.go)\<close>

text \<open>An append streams its metadata and then the message; the date is parsed before the lock is taken.\<close>

definition rpc_Append :: "'s msg_store \<Rightarrow> int option \<Rightarrow> string \<Rightarrow> string list \<Rightarrow> string list \<Rightarrow> ('s, uint32) rpc" where
  "rpc_Append S date folder flags pieces x = (case date of
       None \<Rightarrow> (x, Inl CodeInvalidArgument)
     | Some d \<Rightarrow> to_code CodeInternal (AppendMessage S folder (concat pieces) flags d x))"

definition rpc_Copy :: "'s msg_store \<Rightarrow> string \<Rightarrow> uint32 \<Rightarrow> string \<Rightarrow> ('s, uint32) rpc" where
  "rpc_Copy S folder uid dest = selecting S folder (\<lambda>msgs x. to_code CodeInternal (sess_CopyMessage S uid dest x))"

definition rpc_Move :: "'s msg_store \<Rightarrow> uint32 \<Rightarrow> string \<Rightarrow> string \<Rightarrow> ('s, uint32) rpc" where
  "rpc_Move S uid src dest x = to_code CodeInternal (MoveMessage S uid src dest x)"

definition rpc_SetFlags :: "'s msg_store \<Rightarrow> string \<Rightarrow> uint32 \<Rightarrow> string list \<Rightarrow> ('s, unit) rpc" where
  "rpc_SetFlags S folder uid flags = selecting S folder (\<lambda>msgs x. to_code CodeInternal (sess_SetFlags S uid flags x))"

definition rpc_Expunge :: "'s msg_store \<Rightarrow> string \<Rightarrow> ('s, uint32 list) rpc" where
  "rpc_Expunge S folder = selecting S folder (\<lambda>msgs x. to_code CodeInternal (sess_Expunge S x))"

definition rpc_Rescan :: "'s msg_store \<Rightarrow> string \<Rightarrow> ('s, pb_info list) rpc" where
  "rpc_Rescan S folder = selecting S folder (\<lambda>msgs x. case sess_Rescan S x of
       (x1, Inl e) \<Rightarrow> (x1, Inl CodeInternal)
     | (x1, Inr new) \<Rightarrow> (x1, Inr (map pb_of new)))"

definition rpc_UIDValidity :: "'s msg_store \<Rightarrow> string \<Rightarrow> ('s, uint32 \<times> uint32) rpc" where
  "rpc_UIDValidity S folder x = (case sess_UIDValidity S folder x of
       (x1, Inl e) \<Rightarrow> (x1, Inl CodeInternal)
     | (x1, Inr v) \<Rightarrow> (case sess_UIDNext S folder x1 of
           (x2, Inl e) \<Rightarrow> (x2, Inl CodeInternal)
         | (x2, Inr n) \<Rightarrow> (x2, Inr (v, n))))"

definition rpc_Delete :: "uint32 \<Rightarrow> ('s, unit) rpc" where
  "rpc_Delete uid x = to_code CodeNotFound (sess_Delete uid x)"

definition rpc_Undelete :: "uint32 \<Rightarrow> ('s, unit) rpc" where
  "rpc_Undelete uid x = to_code CodeNotFound (sess_Undelete uid x)"

definition rpc_Commit :: "'s msg_store \<Rightarrow> (uint32 list \<Rightarrow> uint32 list) \<Rightarrow> ('s, unit) rpc" where
  "rpc_Commit S order x = to_code CodeInternal (sess_Commit S order x)"

definition rpc_ListFolders :: "'s msg_store \<Rightarrow> ('s, string list) rpc" where
  "rpc_ListFolders S x = to_code CodeInternal (sess_Folders S x)"

definition rpc_CreateFolder :: "'s msg_store \<Rightarrow> string \<Rightarrow> ('s, unit) rpc" where
  "rpc_CreateFolder S name x = to_code CodeInternal (sess_CreateFolder S name x)"

definition rpc_DeleteFolder :: "'s msg_store \<Rightarrow> string \<Rightarrow> ('s, unit) rpc" where
  "rpc_DeleteFolder S name x = to_code CodeInternal (sess_DeleteFolder S name x)"

definition rpc_RenameFolder :: "'s msg_store \<Rightarrow> string \<Rightarrow> string \<Rightarrow> ('s, unit) rpc" where
  "rpc_RenameFolder S old new x = to_code CodeInternal (sess_RenameFolder S old new x)"

section \<open>Watching a folder (watch.go)\<close>

text \<open>A watch selects the folder once; each tick selects it again and rescans.  The event of a tick has the new messages, when there are
  any; a failing tick is skipped.\<close>

definition watch_start :: "'s msg_store \<Rightarrow> string \<Rightarrow> ('s, unit) rpc" where
  "watch_start S folder = selecting S folder (\<lambda>msgs x. (x, Inr ()))"

definition watch_tick :: "'s msg_store \<Rightarrow> string \<Rightarrow> session \<times> 's \<Rightarrow> (session \<times> 's) \<times> pb_info list option" where
  "watch_tick S folder x = (case rpc_Rescan S folder x of
       (x1, Inl e) \<Rightarrow> (x1, None)
     | (x1, Inr new) \<Rightarrow> (x1, if new = [] then None else Some new))"

end
