(* ===== verification/Delivery.thy ===== *)
theory Delivery
  imports Smtp AtRest Forwards
begin

text \<open>The delivery pipeline of a mail-session process (\<open>internal/mail-session/deliver\<close>: deliver.go, sieve.go, encrypt.go,
  environment.go, config.go) and the service that runs it (\<open>internal/mail-session/grpcserver/delivery.go\<close>).  The Sieve interpreter
  is a record of functions, and so is what the process reads of its host.  Logging is left out.\<close>

section \<open>Requests and answers\<close>

datatype DeliverResult = ResultDelivered | ResultRejected | ResultRedirected

record DeliverResponse =
  dr_Result :: DeliverResult
  dr_Temporary :: bool
  dr_Reason :: string
  dr_RedirectAddresses :: "string list"
  dr_Folder :: string

record DeliverRequest =
  rq_Sender :: string
  rq_Recipient :: string
  rq_ClientIP :: string
  rq_ClientHostname :: string
  rq_Forwarded :: bool
  rq_ReceivedTime :: string
  rq_MsgID :: string
  rq_Spam :: "SpamVerdict option"

record deliver_cfg =
  dc_DomainsPath :: string
  dc_DomainsDataPath :: string
  dc_StoreBasePath :: string

definition DataPath :: "deliver_cfg \<Rightarrow> string" where
  "DataPath c = (if dc_DomainsDataPath c \<noteq> [] then dc_DomainsDataPath c else dc_DomainsPath c)"

text \<open>A domain as the pipeline sees it: its delivery agent answers with the folder of each address, and its store may have Sieve
  scripts.\<close>

record 's mail_domain =
  dd_Name :: string
  dd_MaxMessageSize :: int
  dd_DeliveryAgent :: "(string list \<Rightarrow> string \<Rightarrow> 's \<Rightarrow> 's \<times> (string \<times> string) list \<times> store_error option) option"
  dd_MessageStore :: "'s msg_store"
  dd_SieveScript :: "(string \<Rightarrow> file_read) option"

text \<open>The host: files, the name of the host, the version of the build, the address parser, the header parser, the printer of scores,
  the clock and the parser of times.\<close>

record host =
  h_file :: "string \<Rightarrow> file_read"
  h_hostname :: "string option"
  h_version :: "string option"
  h_parse_address :: "string \<Rightarrow> bool"
  h_headers :: "string \<Rightarrow> (string \<times> string) list option"
  h_score :: "real \<Rightarrow> string"
  h_now :: int
  h_parse_time :: "string \<Rightarrow> int option"

definition delivered_to :: "string \<Rightarrow> DeliverResponse" where
  "delivered_to folder = \<lparr>dr_Result = ResultDelivered, dr_Temporary = False, dr_Reason = [], dr_RedirectAddresses = [], dr_Folder = folder\<rparr>"

definition rejected :: "bool \<Rightarrow> string \<Rightarrow> DeliverResponse" where
  "rejected temporary reason =
     \<lparr>dr_Result = ResultRejected, dr_Temporary = temporary, dr_Reason = reason, dr_RedirectAddresses = [], dr_Folder = []\<rparr>"

definition redirected :: "string list \<Rightarrow> DeliverResponse" where
  "redirected addrs = \<lparr>dr_Result = ResultRedirected, dr_Temporary = False, dr_Reason = [], dr_RedirectAddresses = addrs, dr_Folder = []\<rparr>"

text \<open>A printable name in quotes.\<close>

definition quoted :: "string \<Rightarrow> string" where
  "quoted s = CHR 34 # s @ [CHR 34]"

definition splitAddress :: "string \<Rightarrow> string \<times> string" where
  "splitAddress addr = (case CutLastByte (CHR ''@'') addr of None \<Rightarrow> (addr, []) | Some p \<Rightarrow> p)"

section \<open>Local delivery\<close>

definition deliverLocal :: "'s mail_domain \<Rightarrow> DeliverRequest \<Rightarrow> string \<Rightarrow> 's \<Rightarrow> 's \<times> (store_error + DeliverResponse)" where
  "deliverLocal d req msg st = (case dd_DeliveryAgent d of
       None \<Rightarrow> (st, Inr (rejected True (''no delivery agent for domain '' @ quoted (dd_Name d))))
     | Some deliver \<Rightarrow> (case deliver [rq_Recipient req] msg st of
           (st1, folders, Some e) \<Rightarrow> (st1, Inl e)
         | (st1, folders, None) \<Rightarrow>
             (let folder = (case map_of folders (rc_Address (ParseRecipient (rq_Recipient req))) of None \<Rightarrow> [] | Some f \<Rightarrow> f)
              in (st1, Inr (delivered_to (if folder = [] then ''INBOX'' else folder))))))"

section \<open>Encryption at rest (encrypt.go)\<close>

definition keyring_path :: "deliver_cfg \<Rightarrow> string \<Rightarrow> string" where
  "keyring_path c recipient = Join [dc_StoreBasePath c, fst (splitAddress (rc_Address (ParseRecipient recipient))), ''keyring.pub'']"

definition encryption_refused :: DeliverResponse where
  "encryption_refused = rejected True ''encryption required but not available for recipient''"

definition maybeEncrypt :: "nacl \<Rightarrow> entropy \<Rightarrow> deliver_cfg \<Rightarrow> host \<Rightarrow> DeliverRequest \<Rightarrow> string \<Rightarrow> DeliverResponse + string" where
  "maybeEncrypt N rnd c h req msg =
     (if dc_StoreBasePath c = [] then Inr msg
      else case h_file h (keyring_path c (rq_Recipient req)) of
        FileMissing \<Rightarrow> Inr msg
      | FileErr \<Rightarrow> Inl encryption_refused
      | FileBytes pubKey \<Rightarrow> (case EncryptMessage N rnd msg pubKey of None \<Rightarrow> Inl encryption_refused | Some blob \<Rightarrow> Inr blob))"

section \<open>Sieve (sieve.go, environment.go)\<close>

datatype sieve_action =
    ActionKeep "string list" | ActionFileInto string "string list" | ActionRedirect string | ActionReject string
  | ActionEReject string | ActionDiscard

record sieve_result =
  sv_AppliedActions :: "sieve_action list"
  sv_ImplicitKeep :: bool
  sv_Flags :: "string list"

text \<open>The interpreter: whether a script parses, and a run of it with the redirect policy, the environment, the envelope, the headers
  and the message.\<close>

record sieve_lib =
  sieve_Load :: "string \<Rightarrow> bool"
  sieve_Execute :: "string \<Rightarrow> (string \<Rightarrow> bool) \<Rightarrow> (string \<Rightarrow> string option) \<Rightarrow> string \<times> string \<Rightarrow> (string \<times> string) list \<Rightarrow> string
    \<Rightarrow> sieve_result option"

definition RedirectAllowed :: "host \<Rightarrow> bool \<Rightarrow> string \<Rightarrow> string \<Rightarrow> bool" where
  "RedirectAllowed h forwarded recipient addr =
     (if forwarded then False else if ToLower addr = ToLower recipient then False else h_parse_address h addr)"

definition spamValueHeader :: string where
  "spamValueHeader = ''X-Spam-Value''"

definition buildVersion :: "host \<Rightarrow> string option" where
  "buildVersion h = (case h_version h of None \<Rightarrow> None | Some v \<Rightarrow> if v = [] \<or> v = ''(devel)'' then None else Some v)"

definition GetEnvironment :: "host \<Rightarrow> SpamVerdict option \<Rightarrow> string \<Rightarrow> string option" where
  "GetEnvironment h spam name = (let n = ToLower name in
     if n = ''name'' then Some ''maildancer''
     else if n = ''version'' then buildVersion h
     else if n = ''location'' then Some ''MDA''
     else if n = ''phase'' then Some ''during''
     else if n = ''host'' then (case h_hostname h of None \<Rightarrow> None | Some s \<Rightarrow> if s = [] then None else Some s)
     else if n = ''vnd.maildancer.spam-flag'' then map_option (\<lambda>(isSpam, score, hdrs). if isSpam then ''YES'' else ''NO'') spam
     else if n = ''vnd.maildancer.spam-value'' then
       (case spam of None \<Rightarrow> None
        | Some (isSpam, score, hdrs) \<Rightarrow> (case map_of hdrs spamValueHeader of None \<Rightarrow> None | Some v \<Rightarrow> if v = [] then None else Some v))
     else if n = ''vnd.maildancer.spam-score'' then map_option (\<lambda>(isSpam, score, hdrs). h_score h score) spam
     else None)"

definition maxSieveScriptSize :: nat where
  "maxSieveScriptSize = 256 * 1024"

definition readSieveScript :: "file_read \<Rightarrow> string option" where
  "readSieveScript f = (case f of FileBytes raw \<Rightarrow> if maxSieveScriptSize < length raw then None else Some raw | _ \<Rightarrow> None)"

definition loadSieveScript :: "deliver_cfg \<Rightarrow> host \<Rightarrow> 's mail_domain \<Rightarrow> string \<Rightarrow> string option" where
  "loadSieveScript c h d mailbox =
     (let system = readSieveScript (h_file h (Join [DataPath c, ''system.sieve''])) in
      case dd_SieveScript d of
        None \<Rightarrow> system
      | Some script \<Rightarrow> (if script mailbox = FileMissing then system else readSieveScript (script mailbox)))"

record sieveOutcome =
  so_rejectReason :: string
  so_fileinto :: "(string \<times> string list) list"
  so_keep :: bool
  so_keepFlags :: "string list"
  so_redirects :: "string list"

definition no_outcome :: sieveOutcome where
  "no_outcome = \<lparr>so_rejectReason = [], so_fileinto = [], so_keep = False, so_keepFlags = [], so_redirects = []\<rparr>"

fun digest_action :: "sieve_action \<Rightarrow> sieveOutcome \<Rightarrow> sieveOutcome" where
  "digest_action (ActionKeep flags) o1 = o1\<lparr>so_keep := True, so_keepFlags := flags\<rparr>"
| "digest_action (ActionFileInto mailbox flags) o1 =
     (if ToLower mailbox = ''inbox'' then o1\<lparr>so_keep := True, so_keepFlags := flags\<rparr>
      else o1\<lparr>so_fileinto := so_fileinto o1 @ [(mailbox, flags)]\<rparr>)"
| "digest_action (ActionRedirect addr) o1 = o1\<lparr>so_redirects := so_redirects o1 @ [addr]\<rparr>"
| "digest_action (ActionReject reason) o1 = o1\<lparr>so_rejectReason := reason\<rparr>"
| "digest_action (ActionEReject reason) o1 = o1\<lparr>so_rejectReason := reason\<rparr>"
| "digest_action ActionDiscard o1 = o1"

definition digestActions :: "sieve_result \<Rightarrow> sieveOutcome" where
  "digestActions r = (let o1 = fold digest_action (sv_AppliedActions r) no_outcome in
     if sv_ImplicitKeep r \<and> \<not> so_keep o1 then o1\<lparr>so_keep := True, so_keepFlags := sv_Flags r\<rparr> else o1)"

definition runSieve :: "sieve_lib \<Rightarrow> deliver_cfg \<Rightarrow> host \<Rightarrow> 's mail_domain \<Rightarrow> DeliverRequest \<Rightarrow> string \<Rightarrow> sieveOutcome option" where
  "runSieve V c h d req msg =
     (let mailbox = rc_Address (ParseRecipient (rq_Recipient req)) in
      case loadSieveScript c h d mailbox of
        None \<Rightarrow> None
      | Some raw \<Rightarrow>
          (if \<not> sieve_Load V raw then None
           else case h_headers h msg of
             None \<Rightarrow> None
           | Some hdr \<Rightarrow> map_option digestActions
               (sieve_Execute V raw (RedirectAllowed h (rq_Forwarded req) (rq_Recipient req)) (GetEnvironment h (rq_Spam req))
                  (rq_Sender req, rq_Recipient req) hdr msg)))"

definition deliverToFolder :: "host \<Rightarrow> 's mail_domain \<Rightarrow> DeliverRequest \<Rightarrow> string \<Rightarrow> string \<times> string list \<Rightarrow> string \<Rightarrow> 's
    \<Rightarrow> 's \<times> store_error option" where
  "deliverToFolder h d req mailbox target msg st =
     (let folder = fst target; flags = snd target;
          local = (case deliverLocal d req msg st of (st1, Inl e) \<Rightarrow> (st1, Some e) | (st1, Inr r) \<Rightarrow> (st1, None))
      in case ms_folders (dd_MessageStore d) of
           None \<Rightarrow> local
         | Some fs \<Rightarrow>
             (if flags \<noteq> [] then
                (let date = (case h_parse_time h (rq_ReceivedTime req) of
                               Some t \<Rightarrow> if rq_ReceivedTime req \<noteq> [] then t else h_now h | None \<Rightarrow> h_now h)
                 in case fo_AppendToFolder fs mailbox folder msg flags date st of
                      (st1, Inl e) \<Rightarrow> (st1, Some e) | (st1, Inr uid) \<Rightarrow> (st1, None))
              else if ToLower folder = ''inbox'' then local
              else fo_DeliverToFolder fs mailbox folder msg st))"

fun fileinto_each :: "host \<Rightarrow> 's mail_domain \<Rightarrow> DeliverRequest \<Rightarrow> string \<Rightarrow> string \<Rightarrow> (string \<times> string list) list \<Rightarrow> 's
    \<Rightarrow> 's \<times> store_error option" where
  "fileinto_each h d req mailbox msg [] st = (st, None)"
| "fileinto_each h d req mailbox msg (target # targets) st = (case deliverToFolder h d req mailbox target msg st of
       (st1, Some e) \<Rightarrow> (st1, Some e)
     | (st1, None) \<Rightarrow> fileinto_each h d req mailbox msg targets st1)"

fun dedupe_seen :: "string list \<Rightarrow> string list \<Rightarrow> string list" where
  "dedupe_seen seen [] = []"
| "dedupe_seen seen (a # as) =
     (if ToLower a \<in> set seen then dedupe_seen seen as else a # dedupe_seen (ToLower a # seen) as)"

definition dedupeFold :: "string list \<Rightarrow> string list" where
  "dedupeFold addrs = dedupe_seen [] addrs"

text \<open>What a script keeps: with flags in the inbox, otherwise by a local delivery.  The answer is the folder, or the answer of a
  local delivery that did not store the message.\<close>

definition keep_message :: "host \<Rightarrow> 's mail_domain \<Rightarrow> DeliverRequest \<Rightarrow> string \<Rightarrow> string list \<Rightarrow> string \<Rightarrow> 's
    \<Rightarrow> 's \<times> (store_error + (DeliverResponse + string))" where
  "keep_message h d req mailbox flags msg st =
     (if flags \<noteq> [] then (case deliverToFolder h d req mailbox (''INBOX'', flags) msg st of
          (st1, Some e) \<Rightarrow> (st1, Inl e) | (st1, None) \<Rightarrow> (st1, Inr (Inr ''INBOX'')))
      else (case deliverLocal d req msg st of
          (st1, Inl e) \<Rightarrow> (st1, Inl e)
        | (st1, Inr r) \<Rightarrow> (st1, Inr (if dr_Result r \<noteq> ResultDelivered then Inl r else Inr (dr_Folder r)))))"

definition sieve_answer :: "sieveOutcome \<Rightarrow> string \<Rightarrow> DeliverResponse" where
  "sieve_answer oc folder = (if so_redirects oc \<noteq> [] then redirected (dedupeFold (so_redirects oc)) else delivered_to folder)"

definition applySieve :: "host \<Rightarrow> 's mail_domain \<Rightarrow> DeliverRequest \<Rightarrow> sieveOutcome \<Rightarrow> string \<Rightarrow> 's \<Rightarrow> 's \<times> (store_error + DeliverResponse)" where
  "applySieve h d req oc msg st =
     (if so_rejectReason oc \<noteq> [] then (st, Inr (rejected False (so_rejectReason oc)))
      else let mailbox = rc_Address (ParseRecipient (rq_Recipient req)) in
        case fileinto_each h d req mailbox msg (so_fileinto oc) st of
          (st1, Some e) \<Rightarrow> (st1, Inl e)
        | (st1, None) \<Rightarrow>
            (let folder = (if so_fileinto oc = [] then [] else fst (last (so_fileinto oc))) in
             if so_keep oc then
               (case keep_message h d req mailbox (so_keepFlags oc) msg st1 of
                  (st2, Inl e) \<Rightarrow> (st2, Inl e)
                | (st2, Inr (Inl r)) \<Rightarrow> (st2, Inr r)
                | (st2, Inr (Inr kept)) \<Rightarrow> (st2, Inr (sieve_answer oc kept)))
             else (st1, Inr (sieve_answer oc folder))))"

section \<open>The pipeline (deliver.go)\<close>

definition invalid_address :: "string \<Rightarrow> string \<Rightarrow> bool" where
  "invalid_address localpart domainName = (localpart = [] \<or> domainName = [] \<or> ContainsAny localpart [CHR ''/'', CHR 92]
     \<or> ContainsAny domainName [CHR ''/'', CHR 92] \<or> Contains localpart ''..'' \<or> Contains domainName ''..'')"

definition deliver_pipeline :: "sieve_lib \<Rightarrow> nacl \<Rightarrow> entropy \<Rightarrow> deliver_cfg \<Rightarrow> host \<Rightarrow> (string \<Rightarrow> 's mail_domain option) \<Rightarrow> DeliverRequest
    \<Rightarrow> string \<Rightarrow> 's \<Rightarrow> 's \<times> (store_error + DeliverResponse)" where
  "deliver_pipeline V N rnd c h get req msg st =
     (if rq_Recipient req = [] then (st, Inr (rejected False ''no recipient specified''))
      else let (localpart, domainName) = splitAddress (rq_Recipient req) in
        if invalid_address localpart domainName then (st, Inr (rejected False ''invalid recipient address''))
        else case get domainName of
          None \<Rightarrow> (st, Inr (rejected True (''domain not found: '' @ quoted domainName)))
        | Some d \<Rightarrow>
            (if 0 < dd_MaxMessageSize d \<and> dd_MaxMessageSize d < int (length msg) then (st, Inr (rejected False ''message too large''))
             else let outcome = runSieve V c h d req msg in
               case maybeEncrypt N rnd c h req msg of
                 Inl r \<Rightarrow> (st, Inr r)
               | Inr writeMsg \<Rightarrow> (case outcome of
                     Some oc \<Rightarrow> applySieve h d req oc writeMsg st
                   | None \<Rightarrow> deliverLocal d req writeMsg st)))"

section \<open>The delivery service (delivery.go)\<close>

definition deliverRequestFromMetadata :: "DeliverMetadata \<Rightarrow> DeliverRequest" where
  "deliverRequestFromMetadata meta = \<lparr>rq_Sender = dm_Sender meta, rq_Recipient = dm_Recipient meta, rq_ClientIP = dm_ClientIp meta,
     rq_ClientHostname = dm_ClientHostname meta, rq_Forwarded = dm_Forwarded meta, rq_ReceivedTime = dm_ReceivedTime meta,
     rq_MsgID = dm_Msgid meta, rq_Spam = dm_SpamVerdict meta\<rparr>"

definition response_proto :: "DeliverResponse \<Rightarrow> deliver_response" where
  "response_proto r = (case dr_Result r of
       ResultDelivered \<Rightarrow> Delivered (dr_Folder r)
     | ResultRejected \<Rightarrow> Rejected (dr_Temporary r) (dr_Reason r)
     | ResultRedirected \<Rightarrow> Redirected (dr_RedirectAddresses r) (dr_Temporary r))"

text \<open>A stream of a delivery: its metadata, the pieces of the message, and whether it broke off.  No answer is a status.\<close>

record deliver_stream =
  str_meta :: "DeliverMetadata option"
  str_pieces :: "string list"
  str_broken :: bool

definition DeliveryServer_Deliver :: "(DeliverRequest \<Rightarrow> string \<Rightarrow> 's \<Rightarrow> 's \<times> (store_error + DeliverResponse)) option \<Rightarrow> deliver_stream \<Rightarrow> 's
    \<Rightarrow> 's \<times> deliver_response option" where
  "DeliveryServer_Deliver deliverer str st = (case deliverer of
       None \<Rightarrow> (st, None)
     | Some deliver \<Rightarrow> (case str_meta str of
           None \<Rightarrow> (st, None)
         | Some meta \<Rightarrow>
             (if str_broken str then (st, None)
              else case deliver (deliverRequestFromMetadata meta) (concat (str_pieces str)) st of
                (st1, Inl e) \<Rightarrow> (st1, None)
              | (st1, Inr r) \<Rightarrow> (st1, Some (response_proto r)))))"

end
