(* ===== verification/MailSystem.thy ===== *)
theory MailSystem
  imports MailServices Delivery SessionManager
begin

text \<open>The mail-session processes behind the session manager: their start (\<open>cmd/mail-session/main.go\<close>), the token check of the proxies
  (\<open>internal/session-manager/grpcserver\<close>: mailbox_proxy.go, folder_proxy.go, server.go), the store the daemons use
  (\<open>internal/session-manager/client/store.go\<close>), and the delivery proxy (\<open>internal/session-manager/grpcserver/delivery_proxy.go\<close>).
  Every process has its own Maildir store, with its marks and its cache, on the one disk.\<close>

section \<open>The environment of a call\<close>

record call_env =
  ce_lib :: maildir_lib
  ce_faults :: "fault set"
  ce_readdir :: "string \<Rightarrow> (string \<times> bool) list"
  ce_now :: int
  ce_nacl :: nacl
  ce_rnd :: entropy
  ce_order :: "uint32 list \<Rightarrow> uint32 list"

definition plain_store :: "call_env \<Rightarrow> mstore msg_store" where
  "plain_store E = maildir_store (ce_lib E) (ce_faults E) (ce_readdir E) (ce_now E)"

section \<open>Starting a process (main.go)\<close>

text \<open>The last argument \<open>--name=value\<close> sets a flag.\<close>

definition flag_value :: "string \<Rightarrow> string \<Rightarrow> string list \<Rightarrow> string" where
  "flag_value name dflt args = (case rev (List.map_filter (\<lambda>a. CutPrefix a (''--'' @ name @ ''='')) args) of [] \<Rightarrow> dflt | v # vs \<Rightarrow> v)"

text \<open>The key from the pipe of the parent.  The decoder of the envelope answers with its version and key.\<close>

definition maybeWrapWithDecryptingStore :: "nacl \<Rightarrow> (string \<Rightarrow> (int \<times> string) option) \<Rightarrow> string option \<Rightarrow> session_key option" where
  "maybeWrapWithDecryptingStore N decode keyFile = (case Option.bind keyFile decode of
       None \<Rightarrow> None
     | Some (v, key) \<Rightarrow> (if v \<noteq> 1 \<or> length key \<noteq> 32 then None else Some (SetSessionKey N key)))"

definition session_store :: "call_env \<Rightarrow> session_key option \<Rightarrow> mstore msg_store" where
  "session_store E k = (case k of None \<Rightarrow> plain_store E | Some key \<Rightarrow> NewDecryptingStore (ce_nacl E) (ce_rnd E) key (plain_store E))"

record mproc =
  mp_session :: session
  mp_store :: mstore
  mp_key :: "session_key option"
  mp_deliver :: "deliver_cfg option"

definition base_store_cfg :: "string \<Rightarrow> store_cfg" where
  "base_store_cfg base = \<lparr>sc_basePath = base, sc_maildirSubdir = [], sc_pathTemplate = []\<rparr>"

text \<open>The process that runs, or no process when it ended before it was ready.\<close>

definition mail_session_main :: "call_env \<Rightarrow> (string \<Rightarrow> (int \<times> string) option) \<Rightarrow> child \<Rightarrow> (string \<Rightarrow> mdir option)
    \<Rightarrow> (string \<Rightarrow> mdir option) \<times> mproc option" where
  "mail_session_main E decode ch disk =
     (let args = ch_args ch; basePath = flag_value ''basepath'' [] args; mailbox = flag_value ''mailbox'' [] args;
          domainsPath = flag_value ''domains-path'' [] args
      in if basePath = [] \<or> mailbox = [] \<or> flag_value ''type'' ''maildir'' args \<noteq> ''maildir'' then (disk, None)
         else let key = (if flag_value ''mode'' ''daemon'' args = ''daemon''
                         then maybeWrapWithDecryptingStore (ce_nacl E) decode (ch_fd3 ch) else None)
              in case sess_Open (session_store E key) mailbox (New_Session, NewStore (base_store_cfg basePath) disk) of
                   ((s, st), Inl e) \<Rightarrow> (m_disk st, None)
                 | ((s, st), Inr u) \<Rightarrow>
                     (if flag_value ''socket'' [] args = [] then (m_disk st, None)
                      else (m_disk st, Some \<lparr>mp_session = s, mp_store = st, mp_key = key,
                        mp_deliver = (if domainsPath = [] then None
                          else Some \<lparr>dc_DomainsPath = domainsPath, dc_DomainsDataPath = flag_value ''domains-data-path'' [] args,
                                     dc_StoreBasePath = basePath\<rparr>)\<rparr>)))"

section \<open>The system\<close>

record sys =
  y_mgr :: smgr
  y_procs :: "nat \<Rightarrow> mproc option"
  y_disk :: "string \<Rightarrow> mdir option"

type_synonym 'a sys_call = "sys \<Rightarrow> sys \<times> (rpc_code + 'a)"

definition on_process :: "nat \<Rightarrow> (session_key option \<Rightarrow> (mstore, 'a) rpc) \<Rightarrow> 'a sys_call" where
  "on_process e f y =
     (if e \<notin> g_running (y_mgr y) then (y, Inl CodeUnavailable)
      else case y_procs y e of
        None \<Rightarrow> (y, Inl CodeUnavailable)
      | Some p \<Rightarrow> (case f (mp_key p) (mp_session p, (mp_store p)\<lparr>m_disk := y_disk y\<rparr>) of
            ((s, st), r) \<Rightarrow> (y\<lparr>y_procs := (y_procs y)(e \<mapsto> p\<lparr>mp_session := s, mp_store := st\<rparr>), y_disk := m_disk st\<rparr>, r)))"

definition tokenFromContext :: "string list \<Rightarrow> string option" where
  "tokenFromContext tokens = (case tokens of [] \<Rightarrow> None | t # ts \<Rightarrow> if t = [] then None else Some t)"

text \<open>The proxies of the session manager find the process of a token and pass the call on.\<close>

definition upstream :: "string list \<Rightarrow> sys \<Rightarrow> rpc_code + nat" where
  "upstream tokens y = (case tokenFromContext tokens of
       None \<Rightarrow> Inl CodeUnauthenticated
     | Some token \<Rightarrow> (case SessionForToken token (y_mgr y) of None \<Rightarrow> Inl CodeUnauthenticated | Some e \<Rightarrow> Inr e))"

definition proxied :: "string \<Rightarrow> (session_key option \<Rightarrow> (mstore, 'a) rpc) \<Rightarrow> 'a sys_call" where
  "proxied token f y = (case upstream [token] y of Inl c \<Rightarrow> (y, Inl c) | Inr e \<Rightarrow> on_process e f y)"

section \<open>The store of the daemons (client/store.go)\<close>

definition of_pb :: "pb_info \<Rightarrow> messageInfo" where
  "of_pb m = \<lparr>mi_UID = pb_Uid m, mi_Key = [], mi_Size = pb_Size m, mi_Flags = pb_Flags m, mi_Date = 0\<rparr>"

definition map_result :: "('a \<Rightarrow> 'b) \<Rightarrow> sys \<times> (rpc_code + 'a) \<Rightarrow> sys \<times> (rpc_code + 'b)" where
  "map_result f r = (case r of (y, Inl c) \<Rightarrow> (y, Inl c) | (y, Inr x) \<Rightarrow> (y, Inr (f x)))"

definition client_ListInFolder :: "call_env \<Rightarrow> string \<Rightarrow> string \<Rightarrow> messageInfo list sys_call" where
  "client_ListInFolder E token folder y = map_result (map of_pb) (proxied token (\<lambda>k. rpc_List (session_store E k) folder) y)"

definition client_List :: "call_env \<Rightarrow> string \<Rightarrow> messageInfo list sys_call" where
  "client_List E token = client_ListInFolder E token ''INBOX''"

definition client_StatFolder :: "call_env \<Rightarrow> string \<Rightarrow> string \<Rightarrow> (int \<times> int) sys_call" where
  "client_StatFolder E token folder = proxied token (\<lambda>k. rpc_Stat (session_store E k) folder)"

definition client_Stat :: "call_env \<Rightarrow> string \<Rightarrow> (int \<times> int) sys_call" where
  "client_Stat E token = client_StatFolder E token ''INBOX''"

definition client_RetrieveFromFolder :: "call_env \<Rightarrow> string \<Rightarrow> string \<Rightarrow> uint32 \<Rightarrow> string sys_call" where
  "client_RetrieveFromFolder E token folder uid y = map_result concat (proxied token (\<lambda>k. rpc_Fetch (session_store E k) folder uid) y)"

definition client_Retrieve :: "call_env \<Rightarrow> string \<Rightarrow> uint32 \<Rightarrow> string sys_call" where
  "client_Retrieve E token uid = client_RetrieveFromFolder E token ''INBOX'' uid"

definition client_Delete :: "string \<Rightarrow> uint32 \<Rightarrow> unit sys_call" where
  "client_Delete token uid = proxied token (\<lambda>k. rpc_Delete uid)"

definition client_Expunge :: "call_env \<Rightarrow> string \<Rightarrow> unit sys_call" where
  "client_Expunge E token = proxied token (\<lambda>k. rpc_Commit (session_store E k) (ce_order E))"

definition client_ListFolders :: "call_env \<Rightarrow> string \<Rightarrow> string list sys_call" where
  "client_ListFolders E token = proxied token (\<lambda>k. rpc_ListFolders (session_store E k))"

definition client_CreateFolder :: "call_env \<Rightarrow> string \<Rightarrow> string \<Rightarrow> unit sys_call" where
  "client_CreateFolder E token folder = proxied token (\<lambda>k. rpc_CreateFolder (session_store E k) folder)"

definition client_DeleteFolder :: "call_env \<Rightarrow> string \<Rightarrow> string \<Rightarrow> unit sys_call" where
  "client_DeleteFolder E token folder = proxied token (\<lambda>k. rpc_DeleteFolder (session_store E k) folder)"

definition client_RenameFolder :: "call_env \<Rightarrow> string \<Rightarrow> string \<Rightarrow> string \<Rightarrow> unit sys_call" where
  "client_RenameFolder E token old new = proxied token (\<lambda>k. rpc_RenameFolder (session_store E k) old new)"

definition client_DeleteInFolder :: "call_env \<Rightarrow> string \<Rightarrow> string \<Rightarrow> uint32 \<Rightarrow> unit sys_call" where
  "client_DeleteInFolder E token folder uid = proxied token (\<lambda>k. rpc_SetFlags (session_store E k) folder uid [flagDeleted])"

definition client_ExpungeFolder :: "call_env \<Rightarrow> string \<Rightarrow> string \<Rightarrow> unit sys_call" where
  "client_ExpungeFolder E token folder y = map_result (\<lambda>uids. ()) (proxied token (\<lambda>k. rpc_Expunge (session_store E k) folder) y)"

text \<open>The date of an append is printed and parsed on the way; the date of a delivery is the time of the call.\<close>

definition client_AppendToFolder :: "call_env \<Rightarrow> string \<Rightarrow> string \<Rightarrow> string \<Rightarrow> string list \<Rightarrow> int \<Rightarrow> uint32 sys_call" where
  "client_AppendToFolder E token folder data flags date =
     proxied token (\<lambda>k. rpc_Append (session_store E k) (Some date) folder flags (chunks chunk_size data))"

definition client_DeliverToFolder :: "call_env \<Rightarrow> string \<Rightarrow> string \<Rightarrow> string \<Rightarrow> unit sys_call" where
  "client_DeliverToFolder E token folder data y = map_result (\<lambda>uid. ()) (client_AppendToFolder E token folder data [] (ce_now E) y)"

definition client_SetFlagsInFolder :: "call_env \<Rightarrow> string \<Rightarrow> string \<Rightarrow> uint32 \<Rightarrow> string list \<Rightarrow> unit sys_call" where
  "client_SetFlagsInFolder E token folder uid flags = proxied token (\<lambda>k. rpc_SetFlags (session_store E k) folder uid flags)"

definition client_CopyMessage :: "call_env \<Rightarrow> string \<Rightarrow> string \<Rightarrow> uint32 \<Rightarrow> string \<Rightarrow> uint32 sys_call" where
  "client_CopyMessage E token src uid dest = proxied token (\<lambda>k. rpc_Copy (session_store E k) src uid dest)"

definition client_MoveMessage :: "call_env \<Rightarrow> string \<Rightarrow> string \<Rightarrow> uint32 \<Rightarrow> string \<Rightarrow> uint32 sys_call" where
  "client_MoveMessage E token src uid dest = proxied token (\<lambda>k. rpc_Move (session_store E k) uid src dest)"

definition client_UIDValidity :: "call_env \<Rightarrow> string \<Rightarrow> string \<Rightarrow> uint32 sys_call" where
  "client_UIDValidity E token folder y = map_result fst (proxied token (\<lambda>k. rpc_UIDValidity (session_store E k) folder) y)"

definition client_UIDNext :: "call_env \<Rightarrow> string \<Rightarrow> string \<Rightarrow> uint32 sys_call" where
  "client_UIDNext E token folder y = map_result snd (proxied token (\<lambda>k. rpc_UIDValidity (session_store E k) folder) y)"

definition client_Rescan :: "call_env \<Rightarrow> string \<Rightarrow> string \<Rightarrow> messageInfo list sys_call" where
  "client_Rescan E token folder y = map_result (map of_pb) (proxied token (\<lambda>k. rpc_Rescan (session_store E k) folder) y)"

section \<open>The delivery proxy (delivery_proxy.go)\<close>

definition respondForward :: "deliver_stream \<Rightarrow> string list \<Rightarrow> deliver_response option" where
  "respondForward str targets =
     (if str_broken str then None
      else if 1 < length targets then Some (Rejected True (''forwarding misconfiguration: only one forward destination allowed, ''
                                              @ itoa (length targets) @ '' configured''))
      else if targets = [] then None
      else Some (Redirected targets False))"

text \<open>The domain of a process: its Maildir store, behind an agent that passes everything on.\<close>

record domain_cfg =
  do_store :: store_cfg
  do_MaxMessageSize :: int
  do_sieve :: "string \<Rightarrow> file_read"

definition maildir_domain :: "call_env \<Rightarrow> string \<Rightarrow> domain_cfg \<Rightarrow> mstore mail_domain" where
  "maildir_domain E name c = \<lparr>dd_Name = name, dd_MaxMessageSize = do_MaxMessageSize c,
     dd_DeliveryAgent = Some (store_Deliver (ce_lib E) (ce_faults E) (ce_now E)), dd_MessageStore = plain_store E,
     dd_SieveScript = Some (do_sieve c)\<rparr>"

text \<open>The store of the domain of an address; an unknown domain has an empty one.\<close>

definition domain_store :: "(string \<Rightarrow> domain_cfg option) \<Rightarrow> string \<Rightarrow> (string \<Rightarrow> mdir option) \<Rightarrow> mstore" where
  "domain_store get recipient disk = NewStore (case get (snd (splitAddress recipient)) of
     None \<Rightarrow> base_store_cfg [] | Some c \<Rightarrow> do_store c) disk"

definition serve_delivery :: "call_env \<Rightarrow> sieve_lib \<Rightarrow> host \<Rightarrow> (string \<Rightarrow> domain_cfg option) \<Rightarrow> mproc \<Rightarrow> deliver_stream \<Rightarrow> (string \<Rightarrow> mdir option)
    \<Rightarrow> (string \<Rightarrow> mdir option) \<times> deliver_response option" where
  "serve_delivery E V h get p str disk =
     (let recipient = (case str_meta str of None \<Rightarrow> [] | Some meta \<Rightarrow> dm_Recipient meta) in
      case DeliveryServer_Deliver
             (map_option (\<lambda>c. deliver_pipeline V (ce_nacl E) (ce_rnd E) c h (\<lambda>d. map_option (maildir_domain E d) (get d))) (mp_deliver p))
             str (domain_store get recipient disk) of
        (st, r) \<Rightarrow> (m_disk st, r))"

text \<open>A process that did not get ready makes the start of the delivery fail.\<close>

definition oneshot :: "call_env \<Rightarrow> sm_cfg \<Rightarrow> (string \<Rightarrow> string \<Rightarrow> cred_error + cred_info) \<Rightarrow> spawn_fault set \<Rightarrow> string \<Rightarrow> string \<Rightarrow> os_state
    \<Rightarrow> (string \<Rightarrow> mdir option) \<Rightarrow> (string \<Rightarrow> mdir option) \<times> os_state \<times> (spawn_error + child \<times> mproc)" where
  "oneshot E cfg lookup flt dir recipient os disk =
     (case snd (DeliverySession cfg lookup (flt - {SpNotReady, SpDial}) dir recipient os) of
        Inl e \<Rightarrow> (case DeliverySession cfg lookup flt dir recipient os of (os1, r) \<Rightarrow> (disk, os1, Inl e))
      | Inr ch \<Rightarrow> (case mail_session_main E (\<lambda>_. None) ch disk of
            (disk1, None) \<Rightarrow> (disk1, fst (DeliverySession cfg lookup (insert SpNotReady flt) dir recipient os), Inl StartErr)
          | (disk1, Some p) \<Rightarrow> (case DeliverySession cfg lookup flt dir recipient os of
                (os1, Inl e) \<Rightarrow> (disk1, os1, Inl e)
              | (os1, Inr ch') \<Rightarrow> (disk1, os1, Inr (ch', p)))))"

definition proxy_Deliver :: "call_env \<Rightarrow> sieve_lib \<Rightarrow> host \<Rightarrow> sm_cfg \<Rightarrow> (string \<Rightarrow> string \<Rightarrow> cred_error + cred_info) \<Rightarrow> (string \<Rightarrow> string list option)
    \<Rightarrow> (string \<Rightarrow> domain_cfg option) \<Rightarrow> spawn_fault set \<Rightarrow> string \<Rightarrow> deliver_stream \<Rightarrow> os_state \<times> (string \<Rightarrow> mdir option)
    \<Rightarrow> (os_state \<times> (string \<Rightarrow> mdir option)) \<times> deliver_response option" where
  "proxy_Deliver E V h cfg lookup resolve get flt dir str x = (case str_meta str of
       None \<Rightarrow> (x, None)
     | Some meta \<Rightarrow> (case (if dm_Forwarded meta then None else resolve (dm_Recipient meta)) of
           Some targets \<Rightarrow> (x, respondForward str targets)
         | None \<Rightarrow> (case oneshot E cfg lookup flt dir (dm_Recipient meta) (fst x) (snd x) of
               (disk1, os1, Inl e) \<Rightarrow> ((os1, disk1), None)
             | (disk1, os1, Inr (ch, p)) \<Rightarrow> (case serve_delivery E V h get p str disk1 of
                   (disk2, r) \<Rightarrow> ((delivery_cleanup dir ch os1, disk2), r)))))"

end
