(* ===== verification/DeliveryProps.thy ===== *)
theory DeliveryProps
  imports MailSystem MaildirProps SessionManagerProps
begin

text \<open>What a delivery writes: the message as the encryption step gives it, and nothing else; encryption that cannot be performed
  writes nothing.\<close>

section \<open>The contents of the disk\<close>

definition dir_contents :: "mdir \<Rightarrow> string set" where
  "dir_contents d = (f_data \<circ> snd) ` (set (d_cur d) \<union> set (d_new d))"

type_synonym disk = "string \<Rightarrow> mdir option"

definition contents :: "disk \<Rightarrow> string \<Rightarrow> string set" where
  "contents disk path = (case disk path of None \<Rightarrow> {} | Some d \<Rightarrow> dir_contents d)"

text \<open>A step that loses nothing and writes nothing but one text.\<close>

definition adds :: "string \<Rightarrow> disk \<Rightarrow> disk \<Rightarrow> bool" where
  "adds x disk disk' = (\<forall>path. contents disk path \<subseteq> contents disk' path \<and> contents disk' path \<subseteq> insert x (contents disk path))"

lemma adds_refl [simp]: "adds x disk disk"
  by (auto simp: adds_def)

lemma adds_trans: "adds x disk disk1 \<Longrightarrow> adds x disk1 disk2 \<Longrightarrow> adds x disk disk2"
  unfolding adds_def by blast

lemma contents_upd [simp]: "contents (disk(path \<mapsto> d)) = (contents disk)(path := dir_contents d)"
  by (auto simp: contents_def fun_eq_iff)

lemma dir_contents_uids [simp]: "dir_contents (d\<lparr>d_uids := f\<rparr>) = dir_contents d"
  by (simp add: dir_contents_def)

lemma adds_put: "disk path = Some d \<Longrightarrow> dir_contents d \<subseteq> dir_contents d' \<Longrightarrow> dir_contents d' \<subseteq> insert x (dir_contents d)
    \<Longrightarrow> adds x disk (disk(path \<mapsto> d'))"
  by (auto simp: adds_def contents_def)

lemma init_dir_adds:
  assumes "lib_ok L" "init_dir L flt acc path st = (st', r)"
  shows "adds x (m_disk st) (m_disk st')"
proof (cases "m_disk st path")
  case None
  then have "lib_init L (m_disk st path) = InitOk empty_dir" using assms(1) by (simp add: lib_ok_def)
  then have "st' = st \<or> st' = put_dir path empty_dir st" using assms(2) by (auto simp: init_dir_def split: if_split_asm)
  moreover have "contents (m_disk st) path = {}" "dir_contents empty_dir = {}"
    using None by (simp_all add: contents_def dir_contents_def empty_dir_def)
  ultimately show ?thesis by (auto simp: adds_def split: if_split_asm)
next
  case (Some d)
  then have "lib_init L (m_disk st path) \<in> {InitOk d, InitExists, InitErr}" using assms(1) unfolding lib_ok_def by simp
  then have "st' = st \<or> st' = put_dir path d st" using assms(2) by (auto simp: init_dir_def split: if_split_asm)
  then show ?thesis using Some by (auto simp: fun_upd_idem)
qed

lemma default_folders_adds:
  assumes "lib_ok L"
  shows "adds x (m_disk st) (m_disk (default_folders L flt mailbox names st))"
proof (induction names arbitrary: st)
  case (Cons name names)
  show ?case
  proof (cases "folderPath (m_cfg st) mailbox name")
    case (Inr path)
    obtain st' r where i: "init_dir L flt False path st = (st', r)" by fastforce
    show ?thesis using Inr i Cons[of st'] Cons[of st] init_dir_adds[OF assms i, of x]
      by (auto split: option.split intro: adds_trans)
  qed simp
qed simp

lemma ensureMaildir_adds:
  assumes "lib_ok L" "ensureMaildir L flt mailbox st = (st', r)"
  shows "adds x (m_disk st) (m_disk st')"
proof (cases "mailboxPath (m_cfg st) mailbox")
  case (Inr path)
  obtain st1 q where i: "init_dir L flt False path st = (st1, q)" by fastforce
  show ?thesis using assms(2) Inr i init_dir_adds[OF assms(1) i, of x] default_folders_adds[OF assms(1)]
    by (auto simp: ensureMaildir_def split: if_split_asm option.split_asm intro: adds_trans)
qed (use assms(2) in \<open>simp add: ensureMaildir_def\<close>)

lemma ensureFolderMaildir_adds:
  assumes "lib_ok L" "ensureFolderMaildir L flt mailbox folder st = (st', r)"
  shows "adds x (m_disk st) (m_disk st')"
proof -
  obtain st1 q where e: "ensureMaildir L flt mailbox st = (st1, q)" by fastforce
  have a: "adds x (m_disk st) (m_disk st1)" by (rule ensureMaildir_adds[OF assms(1) e])
  have "adds x (m_disk st1) (m_disk st')"
  proof (cases "folderPath (m_cfg st1) mailbox folder")
    case (Inr path)
    obtain st2 q2 where i: "init_dir L flt False path st1 = (st2, q2)" by fastforce
    show ?thesis using assms(2) e Inr i init_dir_adds[OF assms(1) i, of x]
      by (auto simp: ensureFolderMaildir_def split: if_split_asm option.split_asm sum.split_asm)
  qed (use assms(2) e in \<open>auto simp: ensureFolderMaildir_def split: sum.split_asm\<close>)
  then show ?thesis using a adds_trans by blast
qed

lemma lib_deliver_contents:
  assumes "lib_ok L" "lib_deliver L now d data = Some d'"
  shows "dir_contents d' = insert data (dir_contents d)"
proof -
  obtain k where "d' = d\<lparr>d_new := d_new d @ [(k, \<lparr>f_data = data, f_time = now\<rparr>)]\<rparr>" using deliver_adds[OF assms] by blast
  then show ?thesis by (simp add: dir_contents_def image_Un)
qed

lemma put_delivered_adds:
  assumes "lib_ok L" "Option.bind (m_disk st path) (\<lambda>d. lib_deliver L now d data) = Some d'" "adds data disk (m_disk st)"
  shows "adds data disk ((m_disk st)(path \<mapsto> d'))"
proof -
  obtain d where d: "m_disk st path = Some d" "lib_deliver L now d data = Some d'"
    using assms(2) by (auto simp: bind_eq_Some_conv)
  have "adds data (m_disk st) ((m_disk st)(path \<mapsto> d'))"
    using lib_deliver_contents[OF assms(1) d(2)] d(1) by (intro adds_put[of "m_disk st" path d d' data]) auto
  then show ?thesis using assms(3) adds_trans by blast
qed

lemma deliver_one_adds:
  assumes "lib_ok L" "deliver_one L flt now data recipient st = (st', r)"
  shows "adds data (m_disk st) (m_disk st')"
proof -
  let ?a = "rc_Address (ParseRecipient recipient)"
  obtain st1 q where e: "ensureMaildir L flt ?a st = (st1, q)" by fastforce
  have a: "adds data (m_disk st) (m_disk st1)" by (rule ensureMaildir_adds[OF assms(1) e])
  show ?thesis using assms(2) e a
    by (auto simp: deliver_one_def Let_def split: option.split_asm sum.split_asm prod.split_asm
        intro!: put_delivered_adds[OF assms(1)])
qed

lemma deliver_each_adds: "lib_ok L \<Longrightarrow> adds data (m_disk st) (m_disk (fst (deliver_each L flt now data rs st)))"
proof (induction rs arbitrary: st)
  case (Cons r rs)
  obtain st1 q where e: "deliver_one L flt now data r st = (st1, q)" by fastforce
  have "adds data (m_disk st) (m_disk st1)" by (rule deliver_one_adds[OF Cons(2) e])
  then show ?case using Cons(1)[OF Cons(2), of st1] e
    by (auto split: sum.split prod.split option.split intro: adds_trans)
qed simp

lemma store_Deliver_adds:
  assumes "lib_ok L"
  shows "adds data (m_disk st) (m_disk (fst (store_Deliver L flt now rs data st)))"
  using deliver_each_adds[OF assms, of data st flt now rs]
  by (auto simp: store_Deliver_def split: prod.split)

lemma DeliverToFolder_adds:
  assumes "lib_ok L" "DeliverToFolder L flt now mailbox folder data st = (st', r)"
  shows "adds data (m_disk st) (m_disk st')"
proof -
  obtain st1 q where e: "ensureFolderMaildir L flt mailbox folder st = (st1, q)" by fastforce
  have a: "adds data (m_disk st) (m_disk st1)" by (rule ensureFolderMaildir_adds[OF assms(1) e])
  show ?thesis using assms(2) e a
    by (auto simp: DeliverToFolder_def split: option.split_asm sum.split_asm if_split_asm intro!: put_delivered_adds[OF assms(1)])
qed

lemma sync_uids_contents: "contents (m_disk (fst (sync_uids flt now path d st))) = (if FReadDir \<in> flt \<or> FLock \<in> flt
    then contents (m_disk st) else (contents (m_disk st))(path := dir_contents d))"
  by (auto simp: sync_uids_def split: prod.split sum.split)

lemma AppendToFolder_adds:
  assumes "lib_ok L" "AppendToFolder L flt now mailbox folder data flags st = (st', r)"
  shows "adds data (m_disk st) (m_disk st')"
proof (cases "folderOrInboxPath (m_cfg st) mailbox folder")
  case (Inr path)
  obtain st1 q where i: "init_dir L flt True path st = (st1, q)" by fastforce
  have a: "adds data (m_disk st) (m_disk st1)" by (rule init_dir_adds[OF assms(1) i])
  show ?thesis
  proof (cases "q = None \<and> FReadDir \<notin> flt \<and> FRead \<notin> flt \<and> Option.bind (m_disk st1 path) (\<lambda>d. lib_deliver L now d data) \<noteq> None")
    case True
    then obtain d d1 where d: "m_disk st1 path = Some d" "lib_deliver L now d data = Some d1" by (auto simp: bind_eq_Some_conv)
    obtain k where k: "name_ok k" "k \<notin> set (dir_keys d)" "d1 = d\<lparr>d_new := d_new d @ [(k, \<lparr>f_data = data, f_time = now\<rparr>)]\<rparr>"
      using deliver_adds[OF assms(1) d(2)] by blast
    have key: "maildirNewKey (maildirNewKeys d) d1 = Some k" using newKey_delivered[of k d] k by (auto simp: dir_keys_def)
    have moved: "dir_contents d2 = dir_contents d1" if m: "moveNewToCurWithFlags flt k fl d1 = Some d2" for fl d2
    proof -
      obtain name where "d2 = d\<lparr>d_cur := d_cur d @ [(name, \<lparr>f_data = data, f_time = now\<rparr>)]\<rparr>"
        using moved_dir[OF k(1,2) m[unfolded k(3)]] by blast
      then show ?thesis by (auto simp: dir_contents_def k(3))
    qed
    let ?fl = "convertFlagsFromIMAP flags"
    have "contents (m_disk st') = (contents (m_disk st1))(path := dir_contents d1)"
    proof (cases "FReread \<in> flt \<or> moveNewToCurWithFlags flt k ?fl d1 = None")
      case True
      then show ?thesis using assms(2) Inr i d key \<open>q = None \<and> _\<close> by (auto simp: AppendToFolder_def split: if_split_asm)
    next
      case False
      then obtain d2 where d2: "moveNewToCurWithFlags flt k ?fl d1 = Some d2" by blast
      have "m_disk st' = m_disk (fst (sync_uids flt now path d2 (put_dir path d2 st1)))"
        using assms(2) Inr i d key \<open>q = None \<and> _\<close> False d2
        by (auto simp: AppendToFolder_def split: if_split_asm prod.split_asm sum.split_asm)
      then show ?thesis using moved[OF d2] by (simp add: sync_uids_contents)
    qed
    then have "adds data (m_disk st1) (m_disk st')"
      using put_delivered_adds[OF assms(1), of st1 path now data d1 "m_disk st1"] d by (simp add: adds_def)
    then show ?thesis using a adds_trans by blast
  next
    case False
    then have "st' = st1" using assms(2) Inr i
      by (auto simp: AppendToFolder_def split: option.split_asm if_split_asm)
    then show ?thesis using a by simp
  qed
qed (use assms(2) in \<open>simp add: AppendToFolder_def\<close>)

section \<open>What is stored\<close>

definition stored :: "string \<Rightarrow> disk \<Rightarrow> bool" where
  "stored x disk = (\<exists>path. x \<in> contents disk path)"

lemma stored_adds: "stored x disk \<Longrightarrow> adds y disk disk' \<Longrightarrow> stored x disk'"
  unfolding stored_def adds_def by blast

lemma put_delivered_stored:
  assumes "lib_ok L" "Option.bind (m_disk st path) (\<lambda>d. lib_deliver L now d data) = Some d'"
  shows "stored data (m_disk (put_dir path d' st))"
proof -
  obtain d where "lib_deliver L now d data = Some d'" using assms(2) by (auto simp: bind_eq_Some_conv)
  then have "data \<in> contents (m_disk (put_dir path d' st)) path" using lib_deliver_contents[OF assms(1)] by simp
  then show ?thesis unfolding stored_def by blast
qed

lemma deliver_one_stored:
  assumes "lib_ok L" "deliver_one L flt now data r st = (st', Inr q)"
  shows "stored data (m_disk st')"
  using assms(2) put_delivered_stored[OF assms(1)]
  by (auto simp: deliver_one_def Let_def split: option.split_asm sum.split_asm prod.split_asm)

lemma store_Deliver_stored:
  assumes "lib_ok L" "store_Deliver L flt now [r] data st = (st', folders, None)"
  shows "stored data (m_disk st')"
  using assms(2) deliver_one_stored[OF assms(1)]
  by (auto simp: store_Deliver_def split: if_split_asm prod.split_asm sum.split_asm)

lemma DeliverToFolder_stored:
  assumes "lib_ok L" "DeliverToFolder L flt now mailbox folder data st = (st', None)"
  shows "stored data (m_disk st')"
  using assms(2) put_delivered_stored[OF assms(1)]
  by (auto simp: DeliverToFolder_def split: option.split_asm sum.split_asm prod.split_asm if_split_asm)

lemma AppendToFolder_stored:
  assumes "lib_ok L" "AppendToFolder L flt now mailbox folder data flags st = (st', Inr uid)"
  shows "stored data (m_disk st')"
proof -
  obtain path st1 d d1 key d2 where a: "folderOrInboxPath (m_cfg st) mailbox folder = Inr path" "init_dir L flt True path st = (st1, None)"
      "m_disk st1 path = Some d" "lib_deliver L now d data = Some d1" "maildirNewKey (maildirNewKeys d) d1 = Some key"
      "moveNewToCurWithFlags flt key (convertFlagsFromIMAP flags) d1 = Some d2"
      "m_disk st' = m_disk (fst (sync_uids flt now path d2 (put_dir path d2 st1)))"
    using assms(2) by (auto simp: AppendToFolder_def split: option.split_asm sum.split_asm prod.split_asm if_split_asm)
  obtain k where k: "name_ok k" "k \<notin> set (dir_keys d)" "d1 = d\<lparr>d_new := d_new d @ [(k, \<lparr>f_data = data, f_time = now\<rparr>)]\<rparr>"
    using deliver_adds[OF assms(1) a(4)] by blast
  have "key = k" using newKey_delivered[of k d] k a(5) by (auto simp: dir_keys_def)
  then obtain name where "d2 = d\<lparr>d_cur := d_cur d @ [(name, \<lparr>f_data = data, f_time = now\<rparr>)]\<rparr>"
    using moved_dir[OF k(1,2)] a(6) k(3) by blast
  then have "data \<in> dir_contents d2" by (auto simp: dir_contents_def)
  then have "data \<in> contents (m_disk st') path" by (simp add: a(7) sync_uids_contents)
  then show ?thesis unfolding stored_def by blast
qed

section \<open>The pipeline\<close>

text \<open>What the pipeline relies on of a domain: whatever its agent and its folders write is the message, and a write that succeeds has
  stored it.  The laws hold when the libraries below the domain behave.\<close>

locale mail_writer =
  fixes ok :: bool and d :: "'s mail_domain" and disk_of :: "'s \<Rightarrow> disk"
    and agent :: "string list \<Rightarrow> string \<Rightarrow> 's \<Rightarrow> 's \<times> (string \<times> string) list \<times> store_error option" and fs :: "'s folder_store"
  assumes agent: "dd_DeliveryAgent d = Some agent"
    and folders: "ms_folders (dd_MessageStore d) = Some fs"
    and agent_adds: "ok \<Longrightarrow> agent rs msg st = (st', r) \<Longrightarrow> adds msg (disk_of st) (disk_of st')"
    and agent_stores: "ok \<Longrightarrow> agent [a] msg st = (st', l, None) \<Longrightarrow> stored msg (disk_of st')"
    and folder_adds: "ok \<Longrightarrow> fo_DeliverToFolder fs mailbox folder msg st = (st', e) \<Longrightarrow> adds msg (disk_of st) (disk_of st')"
    and folder_stores: "ok \<Longrightarrow> fo_DeliverToFolder fs mailbox folder msg st = (st', None) \<Longrightarrow> stored msg (disk_of st')"
    and append_adds: "ok \<Longrightarrow> fo_AppendToFolder fs mailbox folder msg flags date st = (st', q) \<Longrightarrow> adds msg (disk_of st) (disk_of st')"
    and append_stores: "ok \<Longrightarrow> fo_AppendToFolder fs mailbox folder msg flags date st = (st', Inr uid) \<Longrightarrow> stored msg (disk_of st')"
begin

lemma local_adds:
  assumes ok "deliverLocal d req msg st = (st', r)"
  shows "adds msg (disk_of st) (disk_of st')"
  using assms(2) agent_adds[OF assms(1)] by (auto simp: deliverLocal_def agent Let_def split: prod.split_asm option.split_asm)

lemma local_stored:
  assumes ok "deliverLocal d req msg st = (st', Inr r)"
  shows "stored msg (disk_of st')"
  using assms(2) agent_stores[OF assms(1)] by (auto simp: deliverLocal_def agent Let_def split: prod.split_asm option.split_asm)

lemma local_delivered:
  assumes "deliverLocal d req msg st = (st', Inr r)"
  shows "dr_Result r = ResultDelivered"
  using assms by (auto simp: deliverLocal_def agent delivered_to_def Let_def split: prod.split_asm option.split_asm)

lemma target_adds:
  assumes ok "deliverToFolder h d req mailbox target msg st = (st', r)"
  shows "adds msg (disk_of st) (disk_of st')"
  using assms(2) local_adds[OF assms(1)] append_adds[OF assms(1)] folder_adds[OF assms(1)]
  by (auto simp: deliverToFolder_def Let_def folders split: if_split_asm prod.split_asm sum.split_asm)

lemma target_stored:
  assumes ok "deliverToFolder h d req mailbox target msg st = (st', None)"
  shows "stored msg (disk_of st')"
  using assms(2) local_stored[OF assms(1)] append_stores[OF assms(1)] folder_stores[OF assms(1)]
  by (auto simp: deliverToFolder_def Let_def folders split: if_split_asm prod.split_asm sum.split_asm)

lemma fileinto_adds:
  assumes ok
  shows "adds msg (disk_of st) (disk_of (fst (fileinto_each h d req mailbox msg targets st)))"
proof (induction targets arbitrary: st)
  case (Cons t ts)
  obtain st1 q where t: "deliverToFolder h d req mailbox t msg st = (st1, q)" by fastforce
  show ?case using target_adds[OF assms t] Cons[of st1] t by (auto split: option.split intro: adds_trans)
qed simp

lemma fileinto_stored:
  assumes ok "fileinto_each h d req mailbox msg (target # targets) st = (st', None)"
  shows "stored msg (disk_of st')"
proof -
  obtain st1 where t: "deliverToFolder h d req mailbox target msg st = (st1, None)"
      "fileinto_each h d req mailbox msg targets st1 = (st', None)"
    using assms(2) by (auto split: prod.split_asm option.split_asm)
  show ?thesis using target_stored[OF assms(1) t(1)] fileinto_adds[OF assms(1), of msg st1 h req mailbox targets] t(2)
    by (auto intro: stored_adds)
qed

lemma keep_adds:
  assumes ok "keep_message h d req mailbox flags msg st = (st', r)"
  shows "adds msg (disk_of st) (disk_of st')"
  using assms(2) target_adds[OF assms(1)] local_adds[OF assms(1)]
  by (auto simp: keep_message_def split: if_split_asm prod.split_asm option.split_asm sum.split_asm)

lemma keep_stored:
  assumes ok "keep_message h d req mailbox flags msg st = (st', Inr r)"
  shows "stored msg (disk_of st')"
  using assms(2) target_stored[OF assms(1)] local_stored[OF assms(1)]
  by (auto simp: keep_message_def split: if_split_asm prod.split_asm option.split_asm sum.split_asm)

lemma keep_answer: "keep_message h d req mailbox flags msg st \<noteq> (st', Inr (Inl r))"
  using local_delivered by (auto simp: keep_message_def split: if_split_asm prod.split_asm option.split_asm sum.split_asm)

lemma apply_adds:
  assumes ok "applySieve h d req oc msg st = (st', r)"
  shows "adds msg (disk_of st) (disk_of st')"
proof -
  let ?mb = "rc_Address (ParseRecipient (rq_Recipient req))"
  obtain st1 q where f: "fileinto_each h d req ?mb msg (so_fileinto oc) st = (st1, q)" by fastforce
  obtain st2 q2 where k: "keep_message h d req ?mb (so_keepFlags oc) msg st1 = (st2, q2)" by fastforce
  have "adds msg (disk_of st) (disk_of st1)" using fileinto_adds[OF assms(1), of msg st h req ?mb "so_fileinto oc"] f by simp
  moreover have "adds msg (disk_of st1) (disk_of st2)" by (rule keep_adds[OF assms(1) k])
  ultimately show ?thesis using assms(2) f k adds_trans[of msg "disk_of st" "disk_of st1" "disk_of st2"]
    by (auto simp: applySieve_def Let_def split: if_split_asm option.split_asm sum.split_asm)
qed

lemma apply_stored:
  assumes ok "applySieve h d req oc msg st = (st', Inr r)" "dr_Result r = ResultDelivered" "dr_Folder r \<noteq> []"
  shows "stored msg (disk_of st')"
proof -
  let ?mb = "rc_Address (ParseRecipient (rq_Recipient req))"
  obtain st1 where f: "fileinto_each h d req ?mb msg (so_fileinto oc) st = (st1, None)"
    using assms(2,3) by (auto simp: applySieve_def Let_def rejected_def split: if_split_asm prod.split_asm option.split_asm)
  show ?thesis
  proof (cases "so_keep oc")
    case True
    then obtain q where "keep_message h d req ?mb (so_keepFlags oc) msg st1 = (st', Inr q)"
      using assms(2,3) f by (auto simp: applySieve_def Let_def rejected_def split: if_split_asm prod.split_asm sum.split_asm)
    then show ?thesis by (rule keep_stored[OF assms(1)])
  next
    case False
    then have "st' = st1" "so_fileinto oc \<noteq> []" using assms(2-4) f
      by (auto simp: applySieve_def Let_def rejected_def sieve_answer_def redirected_def delivered_to_def split: if_split_asm)
    then show ?thesis using f fileinto_stored[OF assms(1)] by (metis neq_Nil_conv)
  qed
qed

lemma apply_redirected:
  assumes "applySieve h d req oc msg st = (st', Inr r)" "dr_Result r = ResultRedirected"
  shows "so_redirects oc \<noteq> [] \<and> dr_RedirectAddresses r = dedupeFold (so_redirects oc)"
  using assms
  by (auto simp: keep_answer applySieve_def Let_def rejected_def sieve_answer_def redirected_def delivered_to_def
      split: if_split_asm prod.split_asm option.split_asm sum.split_asm)

end

text \<open>The domains of a process write to Maildirs.\<close>

interpretation md_writer: mail_writer "lib_ok (ce_lib E)" "maildir_domain E n c" m_disk "store_Deliver (ce_lib E) (ce_faults E) (ce_now E)"
  "maildir_folders (ce_lib E) (ce_faults E) (ce_readdir E) (ce_now E)" for E n c
proof
  fix rs msg st st' and r :: "(string \<times> string) list \<times> store_error option"
  assume "lib_ok (ce_lib E)" "store_Deliver (ce_lib E) (ce_faults E) (ce_now E) rs msg st = (st', r)"
  then show "adds msg (m_disk st) (m_disk st')" using store_Deliver_adds by (metis fst_conv)
qed (auto simp: maildir_domain_def plain_store_def maildir_store_def maildir_folders_def
    intro: store_Deliver_stored DeliverToFolder_adds DeliverToFolder_stored AppendToFolder_adds AppendToFolder_stored)

lemma pipeline_adds:
  assumes "lib_ok (ce_lib E)"
    and "deliver_pipeline V N rnd c h (\<lambda>d. map_option (maildir_domain E d) (get d)) req msg st = (st', r)"
  shows "case maybeEncrypt N rnd c h req msg of Inl e \<Rightarrow> st' = st | Inr w \<Rightarrow> adds w (m_disk st) (m_disk st')"
  using assms(2) md_writer.apply_adds[OF assms(1)] md_writer.local_adds[OF assms(1)]
  by (auto simp: deliver_pipeline_def Let_def split: if_split_asm prod.split_asm option.split_asm sum.split)

section \<open>The processes\<close>

lemma adds_any:
  assumes "\<And>x. adds x disk disk'"
  shows "contents disk' = contents disk"
proof
  fix path
  have "y \<in> contents disk path" if "y \<in> contents disk' path" for y
  proof -
    have "contents disk' path \<subseteq> insert (CHR ''x'' # y) (contents disk path)" using assms by (simp add: adds_def)
    then show ?thesis using that by auto
  qed
  then show "contents disk' path = contents disk path" using assms by (auto simp: adds_def)
qed

lemma seen_contents [simp]: "dir_contents (seen d) = dir_contents d"
  by (force simp: dir_contents_def seen_def image_Un)

lemma listDir_contents:
  assumes "lib_ok L" "listDir L flt now path delKey st = (st', r)"
  shows "contents (m_disk st') = contents (m_disk st)"
proof (cases "Option.bind (m_disk st path) (lib_unseen L)")
  case (Some p)
  then obtain d ks d1 where d: "m_disk st path = Some d" "p = (ks, d1)" "d1 = seen d"
    using assms(1) by (cases p) (auto simp: bind_eq_Some_conv lib_ok_def unseen_ok_def)
  have same: "(contents (m_disk st))(path := dir_contents d1) = contents (m_disk st)"
    using d by (auto simp: contents_def fun_eq_iff)
  obtain st1 q where sy: "sync_uids flt now path d1 (put_dir path d1 st) = (st1, q)" by fastforce
  have "contents (m_disk st1) = contents (m_disk st)"
    using sync_uids_contents[of flt now path d1 "put_dir path d1 st"] sy same by simp
  then show ?thesis using assms(2) Some d(2) sy
    by (auto simp: listDir_def Let_def split: sum.split_asm option.split_asm)
qed (use assms(2) in \<open>simp add: listDir_def\<close>)

lemma store_List_contents:
  assumes "lib_ok L" "store_List L flt now mailbox st = (st', r)"
  shows "contents (m_disk st') = contents (m_disk st)"
proof -
  obtain st1 q where e: "ensureMaildir L flt mailbox st = (st1, q)" by fastforce
  have "contents (m_disk st1) = contents (m_disk st)" by (rule adds_any) (rule ensureMaildir_adds[OF assms(1) e])
  then show ?thesis using assms(2) e listDir_contents[OF assms(1)] by (auto simp: store_List_def split: sum.split_asm)
qed

lemma session_store_List: "ms_List (session_store E k) = store_List (ce_lib E) (ce_faults E) (ce_now E)"
  by (simp add: session_store_def plain_store_def maildir_store_def NewDecryptingStore_def split: option.split)

lemma main_contents:
  assumes "lib_ok (ce_lib E)" "mail_session_main E decode ch disk = (disk', p)"
  shows "contents disk' = contents disk"
proof -
  have "contents (m_disk st) = contents disk"
    if "sess_Open (session_store E k) mb (New_Session, NewStore c disk) = ((s, st), q)" for k mb c s st q
    using that store_List_contents[OF assms(1), of "ce_faults E" "ce_now E" mb "NewStore c disk"]
    by (auto simp: sess_Open_def session_store_List NewStore_def split: prod.split_asm sum.split_asm)
  then show ?thesis using assms(2)
    by (auto simp: mail_session_main_def Let_def split: if_split_asm prod.split_asm sum.split_asm)
qed

lemma delivery_flags:
  "flag_value ''basepath'' [] (delivery_args cfg dir recipient creds) = cred_base creds"
  "flag_value ''mailbox'' [] (delivery_args cfg dir recipient creds) = recipient"
  by (simp_all add: flag_value_def delivery_args_def CutPrefix_def HasPrefix_iff_prefix List.map_filter_simps)

lemma main_delivers:
  assumes "mail_session_main E decode ch disk = (disk', Some p)" "mp_deliver p = Some c"
  shows "dc_StoreBasePath c = flag_value ''basepath'' [] (ch_args ch) \<and> dc_StoreBasePath c \<noteq> []"
  using assms by (auto simp: mail_session_main_def Let_def split: if_split_asm prod.split_asm sum.split_asm)

lemma DeliverySession_child:
  assumes "snd (DeliverySession cfg lookup flt dir recipient os) = Inr ch" "CutByte (CHR ''@'') recipient = Some (l, d)"
    "lookup l d = Inr creds"
  shows "ch = \<lparr>ch_uid = cred_uid creds, ch_gid = cred_gid creds, ch_args = delivery_args cfg dir recipient creds, ch_fd3 = None\<rparr>"
  using assms by (auto simp: DeliverySession_def start_in_dir_def startAndWaitReady_def Let_def split: if_split_asm)

text \<open>What a delivery of a stream writes to the disk.\<close>

lemma serve_adds:
  assumes "lib_ok (ce_lib E)" "serve_delivery E V h get p str disk = (disk', r)" "str_meta str = Some meta"
  shows "disk' = disk \<or> (\<exists>c w. mp_deliver p = Some c \<and> adds w disk disk'
    \<and> maybeEncrypt (ce_nacl E) (ce_rnd E) c h (deliverRequestFromMetadata meta) (concat (str_pieces str)) = Inr w)"
proof (cases "mp_deliver p")
  case None
  then show ?thesis using assms(2) by (simp add: serve_delivery_def DeliveryServer_Deliver_def domain_store_def NewStore_def)
next
  case (Some c)
  let ?st = "domain_store get (dm_Recipient meta) disk" and ?req = "deliverRequestFromMetadata meta" and ?m = "concat (str_pieces str)"
  obtain st' q where pipe: "deliver_pipeline V (ce_nacl E) (ce_rnd E) c h (\<lambda>d. map_option (maildir_domain E d) (get d)) ?req ?m ?st = (st', q)"
    by fastforce
  have disk: "m_disk ?st = disk" by (simp add: domain_store_def NewStore_def)
  have "disk' = disk \<or> disk' = m_disk st'" using assms(2,3) Some pipe disk
    by (auto simp: serve_delivery_def DeliveryServer_Deliver_def Let_def split: if_split_asm sum.split_asm)
  then show ?thesis using pipeline_adds[OF assms(1) pipe] Some disk
    by (cases "maybeEncrypt (ce_nacl E) (ce_rnd E) c h ?req ?m") auto
qed

lemma oneshot_result:
  assumes "lib_ok (ce_lib E)" "oneshot E cfg lookup flt dir recipient os disk = (disk1, os1, r)"
  shows "contents disk1 = contents disk"
    "r = Inr (ch, p) \<Longrightarrow> \<exists>ch'. snd (DeliverySession cfg lookup (flt - {SpNotReady, SpDial}) dir recipient os) = Inr ch'
       \<and> mail_session_main E (\<lambda>_. None) ch' disk = (disk1, Some p)"
  using assms(2) main_contents[OF assms(1)]
  by (auto simp: oneshot_def split: sum.split_asm prod.split_asm option.split_asm)

section \<open>Properties\<close>

text \<open>C6: mail for an encrypted mailbox is never stored in plaintext.  When the recipient has a keyring, readable or not, everything a
  delivery adds to the disk, in whatever folder and by whatever Sieve script, is the encryption of the message with the key on file; when
  the encryption is not possible the delivery adds nothing.\<close>

theorem keyring_mailbox_gets_no_plaintext:
  assumes "lib_ok (ce_lib E)" "str_meta str = Some meta" "CutByte (CHR ''@'') (dm_Recipient meta) = Some (l, d)" "lookup l d = Inr creds"
    and "keyring = h_file h (Join [cred_base creds, fst (splitAddress (rc_Address (ParseRecipient (dm_Recipient meta)))), ''keyring.pub''])"
    and "keyring \<noteq> FileMissing"
    and "proxy_Deliver E V h cfg lookup resolve get flt dir str (os, disk) = ((os', disk'), r)"
    and "x \<in> contents disk' path"
  shows "x \<in> contents disk path
    \<or> (\<exists>pub. keyring = FileBytes pub \<and> EncryptMessage (ce_nacl E) (ce_rnd E) (concat (str_pieces str)) pub = Some x)"
proof (cases "disk' = disk")
  case False
  obtain disk1 os1 q where one: "oneshot E cfg lookup flt dir (dm_Recipient meta) os disk = (disk1, os1, q)" by (metis surj_pair)
  note res = oneshot_result[OF assms(1) one]
  show ?thesis
  proof (cases q)
    case (Inl e)
    then have "disk' = disk1" using assms(2,7) one False by (auto simp: proxy_Deliver_def split: option.split_asm if_split_asm)
    then show ?thesis using res(1) assms(8) by simp
  next
    case (Inr cp)
    obtain ch p where cp: "cp = (ch, p)" by (cases cp)
    obtain ch' where ch: "snd (DeliverySession cfg lookup (flt - {SpNotReady, SpDial}) dir (dm_Recipient meta) os) = Inr ch'"
        "mail_session_main E (\<lambda>_. None) ch' disk = (disk1, Some p)"
      using res(2)[of ch p] Inr cp by blast
    obtain r' where serve: "serve_delivery E V h get p str disk1 = (disk', r')"
      using assms(2,7) one Inr cp False by (auto simp: proxy_Deliver_def split: option.split_asm if_split_asm prod.split_asm)
    show ?thesis
    proof (cases "disk' = disk1")
      case True
      then show ?thesis using res(1) assms(8) by simp
    next
      case False
      then obtain c w where c: "mp_deliver p = Some c" "adds w disk1 disk'"
          "maybeEncrypt (ce_nacl E) (ce_rnd E) c h (deliverRequestFromMetadata meta) (concat (str_pieces str)) = Inr w"
        using serve_adds[OF assms(1) serve assms(2)] by blast
      have base: "dc_StoreBasePath c = cred_base creds" "dc_StoreBasePath c \<noteq> []"
        using main_delivers[OF ch(2) c(1)] DeliverySession_child[OF ch(1) assms(3,4)] by (auto simp: delivery_flags)
      have "\<exists>pub. keyring = FileBytes pub \<and> EncryptMessage (ce_nacl E) (ce_rnd E) (concat (str_pieces str)) pub = Some w"
        using c(3) base assms(5,6)
        by (auto simp: maybeEncrypt_def keyring_path_def deliverRequestFromMetadata_def split: file_read.split_asm option.split_asm)
      moreover have "x = w \<or> x \<in> contents disk path" using c(2) res(1) assms(8) by (auto simp: adds_def)
      ultimately show ?thesis by blast
    qed
  qed
qed (use assms(8) in simp)

definition demo_key :: string where
  "demo_key = replicate 32 (CHR ''k'')"

definition demo_env :: "int \<Rightarrow> call_env" where
  "demo_env now = \<lparr>ce_lib = ref_lib, ce_faults = {}, ce_readdir = (\<lambda>_. []), ce_now = now, ce_nacl = ref_nacl,
     ce_rnd = Some (replicate 32 (CHR ''e''), replicate 24 (CHR ''n'')), ce_order = id\<rparr>"

definition demo_host :: host where
  "demo_host = \<lparr>h_file = (\<lambda>p. if p = ''/e/d/users/bob/keyring.pub'' then FileBytes demo_key else FileMissing), h_hostname = None, h_version = None,
     h_parse_address = (\<lambda>_. True), h_headers = (\<lambda>_. Some []), h_score = (\<lambda>_. []), h_now = 0, h_parse_time = (\<lambda>_. None)\<rparr>"

definition demo_sieve :: sieve_lib where
  "demo_sieve = \<lparr>sieve_Load = (\<lambda>_. False), sieve_Execute = (\<lambda>_ _ _ _ _ _. None)\<rparr>"

definition demo_domain :: domain_cfg where
  "demo_domain = \<lparr>do_store = base_store_cfg ''/e/d/users'', do_MaxMessageSize = 0, do_sieve = (\<lambda>_. FileMissing)\<rparr>"

definition demo_meta :: DeliverMetadata where
  "demo_meta = \<lparr>dm_Sender = ''a@x'', dm_Recipient = ''bob@d'', dm_ClientIp = [], dm_ClientHostname = [], dm_ReceivedTime = [],
     dm_Forwarded = False, dm_Msgid = [], dm_SpamVerdict = None\<rparr>"

definition demo_stream :: deliver_stream where
  "demo_stream = \<lparr>str_meta = Some demo_meta, str_pieces = [''he'', ''llo''], str_broken = False\<rparr>"

definition demo_disk :: "string \<Rightarrow> mdir option" where
  "demo_disk = [''/e/d/users/bob'' \<mapsto> demo_dir]"

definition demo_delivery :: "(os_state \<times> (string \<Rightarrow> mdir option)) \<times> deliver_response option" where
  "demo_delivery = proxy_Deliver (demo_env 7) demo_sieve demo_host demo_sm_cfg demo_lookup (\<lambda>_. None) [''d'' \<mapsto> demo_domain] {} ''/t/2''
     demo_stream (demo_os, demo_disk)"

definition demo_creds :: cred_info where
  "demo_creds = \<lparr>cred_uid = 10001, cred_gid = 10000, cred_base = ''/e/d/users'', cred_type = ''maildir''\<rparr>"

lemma demo_creds_found: "demo_lookup ''bob'' ''d'' = Inr demo_creds"
  by code_simp

lemma demo_delivery_result: "snd demo_delivery = Some (Delivered ''INBOX'')"
  by code_simp

theorem keyring_mailbox_gets_no_plaintext_witness:
  "\<exists>x. x \<in> contents (snd (fst demo_delivery)) ''/e/d/users/bob'' \<and> x \<notin> contents demo_disk ''/e/d/users/bob''
     \<and> EncryptMessage ref_nacl (ce_rnd (demo_env 7)) ''hello'' demo_key = Some x"
proof -
  obtain x where x: "x \<in> contents (snd (fst demo_delivery)) ''/e/d/users/bob''" "x \<notin> contents demo_disk ''/e/d/users/bob''"
  proof -
    have "\<exists>x \<in> contents (snd (fst demo_delivery)) ''/e/d/users/bob''. x \<notin> contents demo_disk ''/e/d/users/bob''" by code_simp
    then show ?thesis using that by blast
  qed
  have run: "proxy_Deliver (demo_env 7) demo_sieve demo_host demo_sm_cfg demo_lookup (\<lambda>_. None) [''d'' \<mapsto> demo_domain] {} ''/t/2''
      demo_stream (demo_os, demo_disk) = ((fst (fst demo_delivery), snd (fst demo_delivery)), snd demo_delivery)"
    by (simp add: demo_delivery_def)
  have m: "str_meta demo_stream = Some demo_meta" by (simp add: demo_stream_def)
  have cut: "CutByte (CHR ''@'') (dm_Recipient demo_meta) = Some (''bob'', ''d'')" by code_simp
  have "h_file demo_host (Join [cred_base demo_creds, fst (splitAddress (rc_Address (ParseRecipient (dm_Recipient demo_meta)))), ''keyring.pub''])
      = FileBytes demo_key" by code_simp
  then have k: "FileBytes demo_key = h_file demo_host
      (Join [cred_base demo_creds, fst (splitAddress (rc_Address (ParseRecipient (dm_Recipient demo_meta)))), ''keyring.pub''])" by simp
  have lib: "lib_ok (ce_lib (demo_env 7))" by (simp add: demo_env_def ref_lib_ok)
  have "EncryptMessage (ce_nacl (demo_env 7)) (ce_rnd (demo_env 7)) (concat (str_pieces demo_stream)) demo_key = Some x"
    using keyring_mailbox_gets_no_plaintext[OF lib m cut demo_creds_found k _ run x(1)] x(2) by simp
  then show ?thesis using x by (auto simp: demo_env_def demo_stream_def)
qed

end
