(* ===== verification/MailPath.thy ===== *)
theory MailPath
  imports DeliveryProps
begin

text \<open>The way of a message from the delivery proxy to a reader with a session: what the delivery process stores, the process of the
  session lists and returns.\<close>

section \<open>A maildir between calls\<close>

text \<open>A maildir that holds given mail, with room for more UIDs.\<close>

definition holds :: "(string \<Rightarrow> mdir option) \<Rightarrow> string \<Rightarrow> (string \<times> string) set \<Rightarrow> nat \<Rightarrow> bool" where
  "holds disk path mail room = (\<exists>d. disk path = Some d \<and> dir_ok d \<and> set (mail_of d) = mail
     \<and> next_uid_of (d_uids d) + room * (length (dir_keys d) + 4) < 2 ^ 32)"

lemma listed_again:
  assumes "dir_ok d" "listed L path delKey d u st st' ms" "unat (uidNext u) + length (dir_keys d) < 2 ^ 32"
  obtains d' where "m_disk st' path = Some d'" "dir_ok d'" "mail_of d' = mail_of d" "dir_keys d' = dir_keys d"
    "next_uid_of (d_uids d') = unat (uidNext u)" "readUIDList (d_uids d') = Inr (Some u)" "uid_printable u"
    "snd ` set (entries u) = set (dir_keys d')" "m_cfg st' = m_cfg st" "m_deleted st' = m_deleted st" "m_cache st' path = Some u"
proof -
  obtain f where f: "m_disk st' path = Some ((seen d)\<lparr>d_uids := f\<rparr>)" "m_deleted st' = m_deleted st" "m_cfg st' = m_cfg st"
      "uid_printable u" "snd ` set (entries u) = set (dir_keys d)" "readUIDList f = Inr (Some u)" "m_cache st' path = Some u"
    using assms(2) unfolding listed_def by auto
  let ?d = "(seen d)\<lparr>d_uids := f\<rparr>"
  have same: "mail_of ?d = mail_of d" "dir_keys ?d = dir_keys d" using mail_of_seen[OF assms(1)] keys_seen[OF assms(1)] by simp_all
  have n: "next_uid_of (d_uids ?d) = unat (uidNext u)" using f(6) by (simp add: next_uid_of_def)
  then have "dir_ok ?d" using assms(1,3) f(4,6) same by (simp add: dir_ok_def file_wf_def)
  then show thesis using f same n by (intro that[of ?d]) simp_all
qed

lemma listed_dir:
  assumes "dir_ok d" "listed L path delKey d u st st' ms" "next_uid_of (d_uids d) + Suc room * (length (dir_keys d) + 4) < 2 ^ 32" "0 < room"
  obtains d' where "m_disk st' path = Some d'" "dir_ok d'" "mail_of d' = mail_of d" "dir_keys d' = dir_keys d"
    "next_uid_of (d_uids d') + room * (length (dir_keys d') + 4) < 2 ^ 32" "readUIDList (d_uids d') = Inr (Some u)" "uid_printable u"
    "snd ` set (entries u) = set (dir_keys d')" "m_cfg st' = m_cfg st" "m_deleted st' = m_deleted st" "m_cache st' path = Some u"
proof -
  have "unat (uidNext u) \<le> next_uid_of (d_uids d) + length (dir_keys d)" using assms(2) unfolding listed_def by blast
  then have cap: "unat (uidNext u) + room * (length (dir_keys d) + 4) < 2 ^ 32" using assms(3) by simp
  have "length (dir_keys d) \<le> room * (length (dir_keys d) + 4)" using assms(4) by (cases room) simp_all
  then have "unat (uidNext u) + length (dir_keys d) < 2 ^ 32" using cap by linarith
  then show thesis
    by (rule listed_again[OF assms(1,2)]) (rule that; (assumption | simp only: cap))
qed

lemma listed_uids:
  assumes "lib_ok L" "dir_ok d" "mailboxPath (m_cfg st) mailbox = Inr path" "listed L path mailbox d u st st' ms"
  shows "mi_UID ` set ms = fst ` set (entries u) - set (m_deleted st mailbox)"
proof
  obtain recent msgs where ms: "ms = List.map_filter (message_info recent msgs (seen d)) (filter (\<lambda>e. fst e \<notin> set (m_deleted st mailbox)) (entries u))"
    using assms(4) unfolding listed_def by blast
  show "mi_UID ` set ms \<subseteq> fst ` set (entries u) - set (m_deleted st mailbox)"
  proof
    fix i assume "i \<in> mi_UID ` set ms"
    then obtain e m where m: "i = mi_UID m" "message_info recent msgs (seen d) e = Some m" "e \<in> set (entries u)" "fst e \<notin> set (m_deleted st mailbox)"
      unfolding ms set_map_filter by auto
    then have "i = fst e" by (auto simp: message_info_def split: option.split_asm)
    then show "i \<in> fst ` set (entries u) - set (m_deleted st mailbox)" using m(3,4) by simp
  qed
  show "fst ` set (entries u) - set (m_deleted st mailbox) \<subseteq> mi_UID ` set ms"
  proof
    fix i assume "i \<in> fst ` set (entries u) - set (m_deleted st mailbox)"
    then obtain k where k: "(i, k) \<in> set (entries u)" "i \<notin> set (m_deleted st mailbox)" by force
    then have "k \<in> set (dir_keys d)" using listed_keys[OF assms(4)] by force
    then obtain c where "(k, c) \<in> set (mail_of d)" unfolding dir_keys_mail by force
    then have "(i, k, c) \<in> readable L mailbox st' ms" using listed_readable[OF assms(1-4)] k by simp
    then show "i \<in> mi_UID ` set ms" by (auto simp: readable_def)
  qed
qed

lemma list_holds:
  assumes "lib_ok L" "mailboxPath (m_cfg st) mailbox = Inr path" "holds (m_disk st) path mail (Suc room)" "0 < room"
    and "store_List L flt now mailbox st = (st', Inr ms)"
  shows "holds (m_disk st') path mail room"
proof -
  obtain d where d: "m_disk st path = Some d" "dir_ok d" "set (mail_of d) = mail"
      "next_uid_of (d_uids d) + Suc room * (length (dir_keys d) + 4) < 2 ^ 32"
    using assms(3) unfolding holds_def by blast
  obtain u where "listed L path mailbox d u st st' ms" using store_List_listed[OF assms(1,2) d(1,2) assms(5)] by blast
  then show ?thesis using listed_dir[OF d(2) _ d(4) assms(4)] d(3) unfolding holds_def by metis
qed

lemma deliver_holds:
  assumes "lib_ok L" "rc_Extension (ParseRecipient r) = []" "mailbox = rc_Address (ParseRecipient r)"
    and "mailboxPath (m_cfg st) mailbox = Inr path" "holds (m_disk st) path mail (Suc room)" "0 < room" "room \<le> 4"
    and "store_Deliver L flt now [r] data st = (st', folders, None)"
  shows "\<exists>key. holds (m_disk st') path (insert (key, data) mail) room"
proof -
  obtain d where d: "m_disk st path = Some d" "dir_ok d" "set (mail_of d) = mail"
      "next_uid_of (d_uids d) + Suc room * (length (dir_keys d) + 4) < 2 ^ 32"
    using assms(5) unfolding holds_def by blast
  obtain d1 where d1: "lib_deliver L now d data = Some d1" "st' = put_dir path d1 st"
    using assms(2-4,8) d(1) by (auto simp: store_Deliver_def deliver_one_def ensureMaildir_def Let_def
        split: if_split_asm prod.split_asm sum.split_asm option.split_asm)
  obtain key where key: "name_ok key" "key \<notin> set (dir_keys d)"
      "d1 = d\<lparr>d_new := d_new d @ [(key, \<lparr>f_data = data, f_time = now\<rparr>)]\<rparr>"
    using deliver_adds[OF assms(1) d1(1)] by blast
  have mail: "mail_of d1 = mail_of d @ [(key, data)]" "dir_keys d1 = dir_keys d @ [key]" "d_uids d1 = d_uids d"
    by (simp_all add: key(3) mail_of_def dir_keys_def cur_keys_def)
  have cap: "next_uid_of (d_uids d) + room * (length (dir_keys d) + 5) < 2 ^ 32"
    using d(4) assms(7) by (simp add: algebra_simps)
  then have "next_uid_of (d_uids d1) + room * (length (dir_keys d1) + 4) < 2 ^ 32" by (simp add: mail add.commute)
  moreover have "dir_ok d1"
  proof -
    have "length (dir_keys d) + 1 \<le> room * (length (dir_keys d) + 5)" using assms(6) by (cases room) simp_all
    then have "next_uid_of (d_uids d) + (length (dir_keys d) + 1) < 2 ^ 32" using cap by linarith
    then show ?thesis using d(2) key(1,2) mail by (simp add: dir_ok_def)
  qed
  ultimately have "holds (m_disk st') path (insert (key, data) mail) room"
    using d(3) mail(1) by (auto simp: holds_def d1(2))
  then show ?thesis by blast
qed

section \<open>The delivery\<close>

lemma main_holds:
  assumes "lib_ok (ce_lib E)" "mail_session_main E decode ch disk = (disk', Some p)"
    and "mailboxPath (base_store_cfg (flag_value ''basepath'' [] (ch_args ch))) (flag_value ''mailbox'' [] (ch_args ch)) = Inr path"
    and "holds disk path mail (Suc room)" "0 < room"
  shows "holds disk' path mail room"
proof -
  let ?mb = "flag_value ''mailbox'' [] (ch_args ch)" and ?st = "NewStore (base_store_cfg (flag_value ''basepath'' [] (ch_args ch))) disk"
  obtain st ms where l: "store_List (ce_lib E) (ce_faults E) (ce_now E) ?mb ?st = (st, Inr ms)" "disk' = m_disk st"
    using assms(2) by (auto simp: mail_session_main_def Let_def sess_Open_def session_store_List
        split: if_split_asm prod.split_asm sum.split_asm)
  have "m_cfg ?st = base_store_cfg (flag_value ''basepath'' [] (ch_args ch))" "m_disk ?st = disk" by (simp_all add: NewStore_def)
  then show ?thesis using list_holds[OF assms(1) _ _ assms(5) l(1), of path mail] assms(3,4) l(2) by simp
qed

lemma no_script:
  assumes "do_sieve c (rc_Address (ParseRecipient (rq_Recipient req))) = FileMissing" "h_file h (Join [DataPath cfg, ''system.sieve'']) = FileMissing"
  shows "runSieve V cfg h (maildir_domain E n c) req msg = None"
  using assms by (simp add: runSieve_def loadSieveScript_def readSieveScript_def maildir_domain_def Let_def)

lemma response_proto_Delivered: "response_proto r = Delivered f \<longleftrightarrow> dr_Result r = ResultDelivered \<and> dr_Folder r = f"
  by (auto simp: response_proto_def split: DeliverResult.split)

lemma rejected_simps [simp]: "dr_Result (rejected t x) = ResultRejected" "dr_Result encryption_refused = ResultRejected"
  by (simp_all add: rejected_def encryption_refused_def)

lemma maybeEncrypt_Inl: "maybeEncrypt N rnd c h req msg = Inl r \<Longrightarrow> dr_Result r = ResultRejected"
  by (auto simp: maybeEncrypt_def split: if_split_asm file_read.split_asm option.split_asm)

lemma serve_holds:
  assumes "lib_ok (ce_lib E)" "serve_delivery E V h get p str disk = (disk', Some (Delivered f))" "str_meta str = Some meta"
    and "mp_deliver p = Some c" "get (snd (splitAddress (dm_Recipient meta))) = Some dc"
    and "do_sieve dc mailbox = FileMissing" "h_file h (Join [DataPath c, ''system.sieve'']) = FileMissing"
    and "rc_Extension (ParseRecipient (dm_Recipient meta)) = []" "mailbox = rc_Address (ParseRecipient (dm_Recipient meta))"
    and "mailboxPath (do_store dc) mailbox = Inr path" "holds disk path mail (Suc room)" "0 < room" "room \<le> 4"
  shows "\<exists>key w. maybeEncrypt (ce_nacl E) (ce_rnd E) c h (deliverRequestFromMetadata meta) (concat (str_pieces str)) = Inr w
    \<and> holds disk' path (insert (key, w) mail) room"
proof -
  let ?req = "deliverRequestFromMetadata meta" and ?m = "concat (str_pieces str)" and ?r = "dm_Recipient meta"
  let ?st = "domain_store get ?r disk" and ?enc = "maybeEncrypt (ce_nacl E) (ce_rnd E) c h (deliverRequestFromMetadata meta) (concat (str_pieces str))"
  let ?d = "maildir_domain E (snd (splitAddress ?r)) dc"
  have st: "m_cfg ?st = do_store dc" "m_disk ?st = disk" by (simp_all add: domain_store_def NewStore_def assms(5))
  have req: "rq_Recipient ?req = ?r" by (simp add: deliverRequestFromMetadata_def)
  obtain st' r where pipe: "deliver_pipeline V (ce_nacl E) (ce_rnd E) c h (\<lambda>d. map_option (maildir_domain E d) (get d)) ?req ?m ?st = (st', Inr r)"
      "disk' = m_disk st'" "dr_Result r = ResultDelivered"
    using assms(2-4) by (auto simp: serve_delivery_def DeliveryServer_Deliver_def response_proto_Delivered Let_def
        split: if_split_asm prod.split_asm sum.split_asm)
  have sieve: "runSieve V c h ?d ?req ?m = None" using no_script assms(6,7,9) req by simp
  obtain w where w: "?enc = Inr w" "deliverLocal ?d ?req w ?st = (st', Inr r)"
    using pipe(1,3) sieve assms(5) req
    by (cases ?enc) (auto simp: deliver_pipeline_def Let_def split: if_split_asm prod.split_asm dest: maybeEncrypt_Inl)
  obtain folders where "store_Deliver (ce_lib E) (ce_faults E) (ce_now E) [?r] w ?st = (st', folders, None)"
    using w(2) pipe(3) req by (auto simp: deliverLocal_def maildir_domain_def Let_def split: prod.split_asm option.split_asm)
  from deliver_holds[OF assms(1,8,9) _ _ assms(12,13) this, of path mail] show ?thesis
    using st assms(10,11) w(1) pipe(2) by auto
qed

section \<open>The reader\<close>

text \<open>The library answers.\<close>

definition lib_total :: "maildir_lib \<Rightarrow> bool" where
  "lib_total L = (\<forall>d. lib_unseen L d \<noteq> None \<and> lib_messages L d \<noteq> None)"

lemma list_total:
  assumes "lib_ok L" "lib_total L" "mailboxPath (m_cfg st) mailbox = Inr path" "m_disk st path = Some d" "dir_ok d"
    and "readUIDList (d_uids d) = Inr (Some u)" "uid_printable u" "snd ` set (entries u) = set (dir_keys d)"
  shows "\<exists>st' ms. store_List L {} now mailbox st = (st', Inr ms)"
proof -
  obtain ks d' where un': "lib_unseen L d = Some (ks, d')" using assms(2) by (fastforce simp: lib_total_def)
  have "unseen_ok L" using assms(1) by (simp add: lib_ok_def)
  then have un: "lib_unseen L d = Some (ks, seen d)" using un' by (simp add: unseen_ok_def)
  have "sync_uids {} now path (seen d) (put_dir path (seen d) st) = (put_dir path (seen d) (put_dir path (seen d) st), Inr u)"
    using sync_uids_loads[of "seen d" u] assms(6-8) cur_keys_seen[OF assms(5)] by simp
  moreover obtain msgs where "lib_messages L (seen d) = Some msgs" using assms(2) by (fastforce simp: lib_total_def)
  ultimately show ?thesis using assms(3,4) un by (simp add: store_List_def ensureMaildir_def listDir_def Let_def)
qed

lemma retrieve_cached:
  assumes "mailboxPath (m_cfg st) mailbox = Inr path" "m_cache st path = Some u"
  shows "store_Retrieve L flt now mailbox uid st = store_Retrieve L {} 0 mailbox uid st"
  using assms by (simp add: store_Retrieve_def retrieve_at_def lookupKey_def)

text \<open>Two listings, and what the second finds by a UID of the first.\<close>

lemma list_twice_read:
  assumes "lib_ok L" "lib_total L" "mailboxPath (m_cfg st) mailbox = Inr path" "m_deleted st mailbox = []"
    and "holds (m_disk st) path mail 2" "(k, c) \<in> mail" "store_List L flt now mailbox st = (st1, Inr ms)"
  shows "\<exists>m \<in> set ms. \<exists>st2 ms2. store_List L {} now2 mailbox st1 = (st2, Inr ms2)
    \<and> snd (store_Retrieve L flt2 now3 mailbox (mi_UID m) st2) = Inr c"
proof -
  obtain d where d: "m_disk st path = Some d" "dir_ok d" "set (mail_of d) = mail"
      "next_uid_of (d_uids d) + 2 * (length (dir_keys d) + 4) < 2 ^ 32"
    using assms(5) unfolding holds_def by blast
  then have room: "next_uid_of (d_uids d) + Suc 1 * (length (dir_keys d) + 4) < 2 ^ 32" by simp
  obtain u where u: "listed L path mailbox d u st st1 ms" using store_List_listed[OF assms(1,3) d(1,2) assms(7)] by blast
  obtain d1 where d1: "m_disk st1 path = Some d1" "dir_ok d1" "mail_of d1 = mail_of d" "dir_keys d1 = dir_keys d"
      "readUIDList (d_uids d1) = Inr (Some u)" "uid_printable u" "snd ` set (entries u) = set (dir_keys d1)" "m_cfg st1 = m_cfg st"
      "m_deleted st1 = m_deleted st"
    by (rule listed_dir[OF d(2) u room zero_less_one]) (rule that; assumption)
  have path1: "mailboxPath (m_cfg st1) mailbox = Inr path" using assms(3) d1(8) by simp
  obtain st2 ms2 where l2: "store_List L {} now2 mailbox st1 = (st2, Inr ms2)"
    using list_total[OF assms(1,2) path1 d1(1,2,5,6,7)] by blast
  obtain u2 where u2: "listed L path mailbox d1 u2 st1 st2 ms2" using store_List_listed[OF assms(1) path1 d1(1,2) l2] by blast
  have "u2 = u" by (rule listed_stable[OF u2 d1(5,6,7)])
  then have read2: "readable L mailbox st2 ms2 = {(i, k, c). (i, k) \<in> set (entries u) \<and> (k, c) \<in> set (mail_of d)}"
    using listed_readable[OF assms(1) d1(2) path1 u2] d1(3,9) assms(4) by simp
  have cached: "mailboxPath (m_cfg st2) mailbox = Inr path" "m_cache st2 path = Some u2"
    using u2 path1 unfolding listed_def by auto
  have "k \<in> snd ` set (entries u)" using assms(6) d(3) d1(4,7) unfolding dir_keys_mail by force
  then obtain i where i: "(i, k) \<in> set (entries u)" by force
  then have "(i, k, c) \<in> readable L mailbox st1 ms"
    using listed_readable[OF assms(1) d(2) assms(3) u] assms(4,6) d(3) by simp
  then obtain m where m: "m \<in> set ms" "mi_UID m = i" by (auto simp: readable_def)
  have "(i, k, c) \<in> readable L mailbox st2 ms2" using read2 i assms(6) d(3) by simp
  then have "snd (store_Retrieve L {} 0 mailbox i st2) = Inr c" by (auto simp: readable_def)
  then show ?thesis using m l2 retrieve_cached[OF cached] by metis
qed

text \<open>The text of a stored message as a session with a key shows it.\<close>

definition opened :: "nacl \<Rightarrow> session_key option \<Rightarrow> string \<Rightarrow> string" where
  "opened N k w = (case Option.bind k dk_sessionKey of None \<Rightarrow> w | Some sk \<Rightarrow> decryptOrRaw N sk w)"

lemma session_store_Retrieve:
  assumes "snd (store_Retrieve (ce_lib E) (ce_faults E) (ce_now E) mailbox uid st) = Inr w"
  shows "snd (ms_Retrieve (session_store E k) mailbox uid st) = Inr (opened (ce_nacl E) k w)"
  using assms
  by (cases "store_Retrieve (ce_lib E) (ce_faults E) (ce_now E) mailbox uid st")
    (auto simp: session_store_def plain_store_def maildir_store_def NewDecryptingStore_def decrypt_result_def opened_def split: option.split)

lemma inbox_names [simp]: "eq_fold ''INBOX'' ''INBOX''" "is_inbox ''INBOX''" "or_inbox ''INBOX'' = ''INBOX''"
  by (simp_all add: eq_fold_def is_inbox_def or_inbox_def)

text \<open>A token that leads to a running process.\<close>

definition serves :: "sys \<Rightarrow> string \<Rightarrow> nat \<Rightarrow> mproc \<Rightarrow> bool" where
  "serves y token e p = (token \<noteq> [] \<and> SessionForToken token (y_mgr y) = Some e \<and> e \<in> g_running (y_mgr y) \<and> y_procs y e = Some p)"

lemma proxied_serves:
  assumes "serves y token e p"
  shows "proxied token f y = (case f (mp_key p) (mp_session p, (mp_store p)\<lparr>m_disk := y_disk y\<rparr>) of
     ((s, st), r) \<Rightarrow> (y\<lparr>y_procs := (y_procs y)(e \<mapsto> p\<lparr>mp_session := s, mp_store := st\<rparr>), y_disk := m_disk st\<rparr>, r))"
  using assms by (simp add: serves_def proxied_def upstream_def tokenFromContext_def on_process_def)

lemma select_inbox:
  "sess_Select (session_store E k) ''INBOX'' (s, st) =
     (case store_List (ce_lib E) (ce_faults E) (ce_now E) (ss_mailbox s) st of
        (st1, Inl e) \<Rightarrow> ((s, st1), Inl (SeStore e))
      | (st1, Inr msgs) \<Rightarrow> ((s\<lparr>ss_selectedFolder := ''INBOX'', ss_msgs := msgs\<rparr>, st1), Inr msgs))"
  by (simp add: sess_Select_def store_value_def session_store_List split: prod.split sum.split)

lemma client_List_serves:
  assumes "serves y token e p" "client_List E token y = (y1, Inr ms)"
  shows "\<exists>st1 msgs p1. store_List (ce_lib E) (ce_faults E) (ce_now E) (ss_mailbox (mp_session p)) ((mp_store p)\<lparr>m_disk := y_disk y\<rparr>) = (st1, Inr msgs)
    \<and> ms = map (of_pb \<circ> pb_of) msgs \<and> serves y1 token e p1 \<and> mp_key p1 = mp_key p \<and> ss_mailbox (mp_session p1) = ss_mailbox (mp_session p)
    \<and> mp_store p1 = st1 \<and> y_disk y1 = m_disk st1"
proof -
  obtain st1 q where l: "store_List (ce_lib E) (ce_faults E) (ce_now E) (ss_mailbox (mp_session p)) ((mp_store p)\<lparr>m_disk := y_disk y\<rparr>) = (st1, q)"
    by fastforce
  show ?thesis using assms(2) l assms(1)
    by (cases q) (auto simp: proxied_serves[OF assms(1)] client_List_def client_ListInFolder_def map_result_def rpc_List_def selecting_def select_inbox serves_def)
qed

lemma client_Retrieve_serves:
  assumes "serves y token e p"
    and "store_List (ce_lib E) (ce_faults E) (ce_now E) (ss_mailbox (mp_session p)) ((mp_store p)\<lparr>m_disk := y_disk y\<rparr>) = (st2, Inr ms2)"
    and "snd (store_Retrieve (ce_lib E) (ce_faults E) (ce_now E) (ss_mailbox (mp_session p)) uid st2) = Inr w"
  shows "snd (client_Retrieve E token uid y) = Inr (opened (ce_nacl E) (mp_key p) w)"
proof -
  obtain st3 where "ms_Retrieve (session_store E (mp_key p)) (ss_mailbox (mp_session p)) uid st2 = (st3, Inr (opened (ce_nacl E) (mp_key p) w))"
    using session_store_Retrieve[OF assms(3), of "mp_key p"] by (metis prod.collapse)
  then show ?thesis using assms(2)
    by (simp add: proxied_serves[OF assms(1)] client_Retrieve_def client_RetrieveFromFolder_def map_result_def rpc_Fetch_def selecting_def select_inbox
        sess_Retrieve_def RetrieveFrom_def store_value_def concat_chunks chunk_size_def)
qed

lemma reader_gets:
  assumes "lib_ok (ce_lib E)" "lib_total (ce_lib E)" "serves y token e p" "mailboxPath (m_cfg (mp_store p)) mailbox = Inr path"
    and "ss_mailbox (mp_session p) = mailbox" "m_deleted (mp_store p) mailbox = []" "holds (y_disk y) path mail 2" "(k, w) \<in> mail"
    and "client_List E token y = (y1, Inr ms)" "ce_lib E' = ce_lib E" "ce_faults E' = {}" "ce_nacl E' = N"
  shows "\<exists>m \<in> set ms. snd (client_Retrieve E' token (mi_UID m) y1) = Inr (opened N (mp_key p) w)"
proof -
  let ?st = "(mp_store p)\<lparr>m_disk := y_disk y\<rparr>"
  obtain st1 msgs p1 where l: "store_List (ce_lib E) (ce_faults E) (ce_now E) mailbox ?st = (st1, Inr msgs)"
      "ms = map (of_pb \<circ> pb_of) msgs" "serves y1 token e p1" "mp_key p1 = mp_key p" "ss_mailbox (mp_session p1) = mailbox"
      "mp_store p1 = st1" "y_disk y1 = m_disk st1"
    using client_List_serves[OF assms(3,9)] assms(5) by auto
  have st: "mailboxPath (m_cfg ?st) mailbox = Inr path" "m_deleted ?st mailbox = []" "holds (m_disk ?st) path mail 2"
    using assms(4,6,7) by simp_all
  obtain m st2 ms2 where m: "m \<in> set msgs" "store_List (ce_lib E) {} (ce_now E') mailbox st1 = (st2, Inr ms2)"
      "snd (store_Retrieve (ce_lib E) {} (ce_now E') mailbox (mi_UID m) st2) = Inr w"
    using list_twice_read[OF assms(1,2) st assms(8) l(1)] by blast
  have "(mp_store p1)\<lparr>m_disk := y_disk y1\<rparr> = st1" using l(6,7) by simp
  then have "snd (client_Retrieve E' token (mi_UID m) y1) = Inr (opened N (mp_key p) w)"
    using client_Retrieve_serves[OF l(3), of E' st2 ms2 "mi_UID m" w] m l(4,5) assms(10-12) by simp
  then show ?thesis using m(1) l(2) by (auto simp: of_pb_def pb_of_def)
qed

section \<open>From the proxy to the reader\<close>

lemma plain_address:
  assumes "mailbox = l @ ''@'' @ d" "CHR ''@'' \<notin> set (l @ d)" "CHR ''+'' \<notin> set l"
  shows "CutByte (CHR ''@'') mailbox = Some (l, d)" "Delivery.splitAddress mailbox = (l, d)"
    "rc_Address (ParseRecipient mailbox) = mailbox" "rc_Extension (ParseRecipient mailbox) = []"
proof -
  have "CutLastByte (CHR ''@'') mailbox = Some (l, d)" using assms(1,2) by (simp add: CutLastByte_Some_iff)
  moreover have "CutByte (CHR ''+'') l = None" using assms(3) by simp
  ultimately show "Delivery.splitAddress mailbox = (l, d)" "rc_Address (ParseRecipient mailbox) = mailbox"
      "rc_Extension (ParseRecipient mailbox) = []"
    by (simp_all add: Delivery.splitAddress_def ParseRecipient_def Let_def assms(1) del: CutByte_None_iff)
  show "CutByte (CHR ''@'') mailbox = Some (l, d)" using assms(1,2) by (simp add: CutByte_Some_iff)
qed

lemma more_delivery_flags:
  "flag_value ''domains-path'' [] (delivery_args cfg dir recipient creds) = cf_DomainsPath cfg"
  "flag_value ''domains-data-path'' [] (delivery_args cfg dir recipient creds) = cf_DomainsDataPath cfg"
  by (simp_all add: flag_value_def delivery_args_def CutPrefix_def HasPrefix_iff_prefix List.map_filter_simps)

definition data_path :: "sm_cfg \<Rightarrow> string" where
  "data_path cfg = (if cf_DomainsDataPath cfg \<noteq> [] then cf_DomainsDataPath cfg else cf_DomainsPath cfg)"

lemma main_config:
  assumes "mail_session_main E decode ch disk = (disk', Some p)" "mp_deliver p = Some c"
  shows "c = \<lparr>dc_DomainsPath = flag_value ''domains-path'' [] (ch_args ch), dc_DomainsDataPath = flag_value ''domains-data-path'' [] (ch_args ch),
    dc_StoreBasePath = flag_value ''basepath'' [] (ch_args ch)\<rparr>"
  using assms by (auto simp: mail_session_main_def Let_def split: if_split_asm prod.split_asm sum.split_asm)

lemma respondForward_Delivered: "respondForward str targets \<noteq> Some (Delivered f)"
  by (simp add: respondForward_def)

text \<open>What the proxy answers as delivered was served by a process of the recipient.\<close>

lemma proxy_delivered:
  assumes "lib_ok (ce_lib E)" "str_meta str = Some meta" "CutByte (CHR ''@'') (dm_Recipient meta) = Some (l, d)" "lookup l d = Inr creds"
    and "proxy_Deliver E V h cfg lookup resolve get flt dir str (os, disk) = ((os', disk'), Some (Delivered f))"
  shows "\<exists>disk1 p c ch. mail_session_main E (\<lambda>_. None) ch disk = (disk1, Some p) \<and> ch_args ch = delivery_args cfg dir (dm_Recipient meta) creds
    \<and> serve_delivery E V h get p str disk1 = (disk', Some (Delivered f)) \<and> mp_deliver p = Some c
    \<and> dc_StoreBasePath c = cred_base creds \<and> cred_base creds \<noteq> [] \<and> DataPath c = data_path cfg"
proof -
  obtain disk1 os1 q where one: "oneshot E cfg lookup flt dir (dm_Recipient meta) os disk = (disk1, os1, q)" by (metis surj_pair)
  obtain ch0 p where q: "q = Inr (ch0, p)" and serve: "serve_delivery E V h get p str disk1 = (disk', Some (Delivered f))"
    using assms(2,5) one respondForward_Delivered[of str _ f]
    by (cases q) (auto simp: proxy_Deliver_def split: option.split_asm if_split_asm prod.split_asm)
  obtain ch where ch: "snd (DeliverySession cfg lookup (flt - {SpNotReady, SpDial}) dir (dm_Recipient meta) os) = Inr ch"
      "mail_session_main E (\<lambda>_. None) ch disk = (disk1, Some p)"
    using oneshot_result(2)[OF assms(1) one q] by blast
  have args: "ch_args ch = delivery_args cfg dir (dm_Recipient meta) creds"
    using DeliverySession_child[OF ch(1) assms(3,4)] by simp
  obtain c where c: "mp_deliver p = Some c"
    using serve assms(2) by (cases "mp_deliver p") (auto simp: serve_delivery_def DeliveryServer_Deliver_def)
  have "dc_StoreBasePath c = cred_base creds" "cred_base creds \<noteq> []" "DataPath c = data_path cfg"
    using main_config[OF ch(2) c] main_delivers[OF ch(2) c]
    by (simp_all add: args delivery_flags more_delivery_flags DataPath_def data_path_def)
  then show ?thesis using ch(2) args serve c by blast
qed

lemma proxy_holds:
  assumes "lib_ok (ce_lib E)" "str_meta str = Some meta" "dm_Recipient meta = mailbox"
    and "mailbox = l @ ''@'' @ d" "CHR ''@'' \<notin> set (l @ d)" "CHR ''+'' \<notin> set l" "lookup l d = Inr creds"
    and "get d = Some dc" "do_store dc = base_store_cfg (cred_base creds)"
    and "do_sieve dc mailbox = FileMissing" "h_file h (Join [data_path cfg, ''system.sieve'']) = FileMissing"
    and "mailboxPath (base_store_cfg (cred_base creds)) mailbox = Inr path" "holds disk path mail 4"
    and "proxy_Deliver E V h cfg lookup resolve get flt dir str (os, disk) = ((os', disk'), Some (Delivered f))"
  shows "\<exists>key w. holds disk' path (insert (key, w) mail) 2 \<and> (case h_file h (Join [cred_base creds, l, ''keyring.pub'']) of
      FileMissing \<Rightarrow> w = concat (str_pieces str) | FileErr \<Rightarrow> False
    | FileBytes pub \<Rightarrow> EncryptMessage (ce_nacl E) (ce_rnd E) (concat (str_pieces str)) pub = Some w)"
proof -
  note addr = plain_address[OF assms(4-6)]
  have cut: "CutByte (CHR ''@'') (dm_Recipient meta) = Some (l, d)" using addr(1) assms(3) by simp
  obtain disk1 p c ch where p: "mail_session_main E (\<lambda>_. None) ch disk = (disk1, Some p)"
      "ch_args ch = delivery_args cfg dir mailbox creds" "serve_delivery E V h get p str disk1 = (disk', Some (Delivered f))"
      "mp_deliver p = Some c" "dc_StoreBasePath c = cred_base creds" "cred_base creds \<noteq> []" "DataPath c = data_path cfg"
    using proxy_delivered[OF assms(1,2) cut assms(7,14)] assms(3) by auto
  have flags: "flag_value ''basepath'' [] (ch_args ch) = cred_base creds" "flag_value ''mailbox'' [] (ch_args ch) = mailbox"
    by (simp_all add: p(2) delivery_flags)
  have "holds disk path mail (Suc 3)" using assms(13) by simp
  then have "holds disk1 path mail (Suc 2)"
    using main_holds[OF assms(1) p(1), of path mail 3] flags assms(12) by simp
  note held = this
  have dc: "get (snd (Delivery.splitAddress (dm_Recipient meta))) = Some dc" using assms(3,8) addr(2) by simp
  have script: "h_file h (Join [DataPath c, ''system.sieve'']) = FileMissing" using p(7) assms(11) by simp
  have who: "rc_Extension (ParseRecipient (dm_Recipient meta)) = []" "mailbox = rc_Address (ParseRecipient (dm_Recipient meta))"
      "mailboxPath (do_store dc) mailbox = Inr path"
    using addr(3,4) assms(3,9,12) by simp_all
  obtain key w where w: "holds disk' path (insert (key, w) mail) 2"
      "maybeEncrypt (ce_nacl E) (ce_rnd E) c h (deliverRequestFromMetadata meta) (concat (str_pieces str)) = Inr w"
    using serve_holds[OF assms(1) p(3) assms(2) p(4) dc assms(10) script who held] by fastforce
  have "keyring_path c (rq_Recipient (deliverRequestFromMetadata meta)) = Join [cred_base creds, l, ''keyring.pub'']"
    using addr(2,3) assms(3) p(5) by (simp add: keyring_path_def deliverRequestFromMetadata_def)
  then have "case h_file h (Join [cred_base creds, l, ''keyring.pub'']) of
      FileMissing \<Rightarrow> w = concat (str_pieces str) | FileErr \<Rightarrow> False
    | FileBytes pub \<Rightarrow> EncryptMessage (ce_nacl E) (ce_rnd E) (concat (str_pieces str)) pub = Some w"
    using w(2) p(5,6) by (auto simp: maybeEncrypt_def split: file_read.split_asm option.split_asm)
  then show ?thesis using w(1) by blast
qed


definition demo_decode :: "string \<Rightarrow> (int \<times> string) option" where
  "demo_decode s = map_option (Pair 1) (b64_decode (take (length s - 23) (drop 20 s)))"

lemma demo_decode_envelope: "demo_decode (keyEnvelope k) = Some (1, k)"
  by (simp add: demo_decode_def keyEnvelope_def eval_nat_numeral)

text \<open>A process of bob that got the private key, and the system in which its token is \<open>k2\<close>, after the delivery.\<close>

definition demo_reader :: mproc where
  "demo_reader = the (snd (mail_session_main (demo_env 5) demo_decode (demo_session\<lparr>ch_fd3 := Some (keyEnvelope demo_key)\<rparr>) demo_disk))"

definition demo_sys :: sys where
  "demo_sys = \<lparr>y_mgr = demo_mgr, y_procs = [1 \<mapsto> demo_reader], y_disk = snd (fst demo_delivery)\<rparr>"

definition demo_inbox :: "sys \<times> (rpc_code + messageInfo list)" where
  "demo_inbox = client_List (demo_env 8) ''k2'' demo_sys"

lemma demo_serves: "serves demo_sys ''k2'' 1 demo_reader"
proof -
  have "SessionForToken ''k2'' demo_mgr = Some 1 \<and> 1 \<in> g_running demo_mgr" by code_simp
  then show ?thesis by (simp add: serves_def demo_sys_def)
qed

lemma demo_reader_runs:
  "mp_key demo_reader = maybeWrapWithDecryptingStore ref_nacl demo_decode (Some (keyEnvelope demo_key))"
  "m_cfg (mp_store demo_reader) = base_store_cfg ''/e/d/users''" "ss_mailbox (mp_session demo_reader) = ''bob@d''"
  "m_deleted (mp_store demo_reader) ''bob@d'' = []" "\<not> isl (snd demo_inbox)"
  by code_simp+

lemma demo_disk_holds: "holds demo_disk ''/e/d/users/bob'' (set (mail_of demo_dir)) 4"
proof -
  have "next_uid_of (d_uids demo_dir) + 4 * (length (dir_keys demo_dir) + 4) < 2 ^ 32" by code_simp
  then show ?thesis using demo_dir_ok(1) by (simp add: holds_def demo_disk_def)
qed

lemma ref_lib_total: "lib_total ref_lib"
  by (simp add: lib_total_def ref_lib_def)


end
