(* ===== verification/MailSystemProps.thy ===== *)
theory MailSystemProps
  imports MailPath
begin

text \<open>Properties of the mail system as a whole: an answer that names a folder means that the message is on the disk, forwarded mail is
  never redirected again, calls under a token stay with the process of its user, and what a client deletes is what goes.\<close>

section \<open>What is answered as delivered is stored\<close>

lemma pipeline_stored:
  assumes "lib_ok (ce_lib E)" "dr_Result r = ResultDelivered" "dr_Folder r \<noteq> []"
    and "deliver_pipeline V N rnd c h (\<lambda>d. map_option (maildir_domain E d) (get d)) req msg st = (st', Inr r)"
  shows "\<exists>w. maybeEncrypt N rnd c h req msg = Inr w \<and> stored w (m_disk st')"
proof -
  obtain dd w where "maybeEncrypt N rnd c h req msg = Inr w" "get (snd (splitAddress (rq_Recipient req))) = Some dd"
      "(case runSieve V c h (maildir_domain E (snd (splitAddress (rq_Recipient req))) dd) req msg of
          Some oc \<Rightarrow> applySieve h (maildir_domain E (snd (splitAddress (rq_Recipient req))) dd) req oc w st
        | None \<Rightarrow> deliverLocal (maildir_domain E (snd (splitAddress (rq_Recipient req))) dd) req w st) = (st', Inr r)"
    using assms(2,4) maybeEncrypt_Inl
    by (fastforce simp: deliver_pipeline_def Let_def rejected_simps split: if_split_asm prod.split_asm option.split_asm sum.split_asm)
  then show ?thesis using md_writer.apply_stored[OF assms(1) _ assms(2,3)] md_writer.local_stored[OF assms(1)]
    by (auto split: option.split_asm)
qed

lemma serve_stored:
  assumes "lib_ok (ce_lib E)" "serve_delivery E V h get p str disk = (disk', Some (Delivered f))" "f \<noteq> []" "str_meta str = Some meta"
    and "mp_deliver p = Some c"
  shows "\<exists>w. maybeEncrypt (ce_nacl E) (ce_rnd E) c h (deliverRequestFromMetadata meta) (concat (str_pieces str)) = Inr w \<and> stored w disk'"
proof -
  obtain st' r where "deliver_pipeline V (ce_nacl E) (ce_rnd E) c h (\<lambda>d. map_option (maildir_domain E d) (get d)) (deliverRequestFromMetadata meta)
      (concat (str_pieces str)) (domain_store get (dm_Recipient meta) disk) = (st', Inr r)" "disk' = m_disk st'" "response_proto r = Delivered f"
    using assms(2,4,5) by (auto simp: serve_delivery_def DeliveryServer_Deliver_def Let_def split: if_split_asm prod.split_asm sum.split_asm)
  then show ?thesis using pipeline_stored[OF assms(1)] assms(3) by (auto simp: response_proto_Delivered)
qed

text \<open>C9: a folder in the answer means that the message is stored.  When the proxy answers that a message went to a folder, whatever Sieve
  script decided on it, the disk holds the message, in plain text when its mailbox has no keyring and encrypted with the key on file when it
  has one.\<close>

theorem answered_folder_means_stored:
  assumes "lib_ok (ce_lib E)" "str_meta str = Some meta" "CutByte (CHR ''@'') (dm_Recipient meta) = Some (l, d)" "lookup l d = Inr creds"
    and "proxy_Deliver E V h cfg lookup resolve get flt dir str (os, disk) = ((os', disk'), Some (Delivered f))" "f \<noteq> []"
  shows "\<exists>w path. w \<in> contents disk' path
    \<and> (case h_file h (Join [cred_base creds, fst (splitAddress (rc_Address (ParseRecipient (dm_Recipient meta)))), ''keyring.pub'']) of
         FileMissing \<Rightarrow> w = concat (str_pieces str) | FileErr \<Rightarrow> False
       | FileBytes pub \<Rightarrow> EncryptMessage (ce_nacl E) (ce_rnd E) (concat (str_pieces str)) pub = Some w)"
proof -
  obtain disk1 p c where p: "serve_delivery E V h get p str disk1 = (disk', Some (Delivered f))" "mp_deliver p = Some c"
      "dc_StoreBasePath c = cred_base creds" "cred_base creds \<noteq> []"
    using proxy_delivered[OF assms(1-5)] by blast
  obtain w where w: "maybeEncrypt (ce_nacl E) (ce_rnd E) c h (deliverRequestFromMetadata meta) (concat (str_pieces str)) = Inr w" "stored w disk'"
    using serve_stored[OF assms(1) p(1) assms(6,2) p(2)] by blast
  have "case h_file h (Join [cred_base creds, fst (splitAddress (rc_Address (ParseRecipient (dm_Recipient meta)))), ''keyring.pub'']) of
         FileMissing \<Rightarrow> w = concat (str_pieces str) | FileErr \<Rightarrow> False
       | FileBytes pub \<Rightarrow> EncryptMessage (ce_nacl E) (ce_rnd E) (concat (str_pieces str)) pub = Some w"
    using w(1) p(3,4)
    by (auto simp: maybeEncrypt_def keyring_path_def deliverRequestFromMetadata_def split: file_read.split_asm option.split_asm)
  then show ?thesis using w(2) unfolding stored_def by blast
qed

text \<open>A script that files everything into a folder.\<close>

definition demo_filing :: sieve_lib where
  "demo_filing = \<lparr>sieve_Load = (\<lambda>_. True), sieve_Execute = (\<lambda>_ _ _ _ _ _.
     Some \<lparr>sv_AppliedActions = [ActionFileInto ''Lists'' []], sv_ImplicitKeep = False, sv_Flags = []\<rparr>)\<rparr>"

definition demo_filed :: "(os_state \<times> (string \<Rightarrow> mdir option)) \<times> deliver_response option" where
  "demo_filed = proxy_Deliver (demo_env 7) demo_filing demo_host demo_sm_cfg demo_lookup (\<lambda>_. None)
     [''d'' \<mapsto> demo_domain\<lparr>do_sieve := \<lambda>_. FileBytes ''script''\<rparr>] {} ''/t/2'' demo_stream (demo_os, demo_disk)"

lemma demo_filed_result: "snd demo_filed = Some (Delivered ''Lists'')"
  by code_simp

theorem answered_folder_means_stored_witness:
  "snd demo_filed = Some (Delivered ''Lists'') \<and> (\<exists>w path. w \<in> contents (snd (fst demo_filed)) path
     \<and> EncryptMessage ref_nacl (ce_rnd (demo_env 7)) ''hello'' demo_key = Some w)"
proof -
  have run: "proxy_Deliver (demo_env 7) demo_filing demo_host demo_sm_cfg demo_lookup (\<lambda>_. None)
     [''d'' \<mapsto> demo_domain\<lparr>do_sieve := \<lambda>_. FileBytes ''script''\<rparr>] {} ''/t/2'' demo_stream (demo_os, demo_disk)
     = ((fst (fst demo_filed), snd (fst demo_filed)), Some (Delivered ''Lists''))"
    using demo_filed_result by (metis demo_filed_def prod.collapse)
  have m: "str_meta demo_stream = Some demo_meta" by (simp add: demo_stream_def)
  have cut: "CutByte (CHR ''@'') (dm_Recipient demo_meta) = Some (''bob'', ''d'')" by code_simp
  have k: "h_file demo_host (Join [cred_base demo_creds, fst (splitAddress (rc_Address (ParseRecipient (dm_Recipient demo_meta)))), ''keyring.pub''])
      = FileBytes demo_key" by code_simp
  have lib: "lib_ok (ce_lib (demo_env 7))" by (simp add: demo_env_def ref_lib_ok)
  have "\<exists>w path. w \<in> contents (snd (fst demo_filed)) path
      \<and> EncryptMessage (ce_nacl (demo_env 7)) (ce_rnd (demo_env 7)) (concat (str_pieces demo_stream)) demo_key = Some w"
    using answered_folder_means_stored[OF lib m cut demo_creds_found run] k by simp
  then show ?thesis using demo_filed_result by (simp add: demo_env_def demo_stream_def)
qed

section \<open>Redirects\<close>

text \<open>The Sieve library redirects only to addresses that the policy it was given allows.\<close>

definition sieve_ok :: "sieve_lib \<Rightarrow> bool" where
  "sieve_ok V = (\<forall>raw policy env envelope hdr msg r a. sieve_Execute V raw policy env envelope hdr msg = Some r
     \<and> ActionRedirect a \<in> set (sv_AppliedActions r) \<longrightarrow> policy a)"

lemma digest_fold_redirects:
  "set (so_redirects (fold digest_action as oc)) \<subseteq> set (so_redirects oc) \<union> {a. ActionRedirect a \<in> set as}"
proof (induction as arbitrary: oc)
  case (Cons act as)
  show ?case using Cons[of "digest_action act oc"] by (cases act) auto
qed simp

lemma digest_redirects: "a \<in> set (so_redirects (digestActions r)) \<Longrightarrow> ActionRedirect a \<in> set (sv_AppliedActions r)"
  using digest_fold_redirects[of "sv_AppliedActions r" no_outcome]
  by (auto simp: digestActions_def Let_def no_outcome_def split: if_split_asm)

lemma runSieve_redirects:
  assumes "sieve_ok V" "runSieve V c h d req msg = Some oc" "a \<in> set (so_redirects oc)"
  shows "RedirectAllowed h (rq_Forwarded req) (rq_Recipient req) a"
  using assms digest_redirects unfolding runSieve_def sieve_ok_def Let_def
  by (auto split: option.split_asm if_split_asm) blast

lemma dedupe_seen_sub: "set (dedupe_seen old as) \<subseteq> set as" "ToLower ` set (dedupe_seen old as) \<inter> set old = {}"
  "distinct (map ToLower (dedupe_seen old as))"
proof (induction as arbitrary: old)
  case (Cons a as)
  { case 1 show ?case using Cons(1)[of old] Cons(1)[of "ToLower a # old"] by auto }
  { case 2 show ?case using Cons(2)[of old] Cons(2)[of "ToLower a # old"] by auto }
  { case 3 show ?case using Cons(3)[of old] Cons(2)[of "ToLower a # old"] Cons(3)[of "ToLower a # old"] by auto }
qed simp_all

lemma dedupeFold_Nil: "dedupeFold as = [] \<longleftrightarrow> as = []"
  by (cases as) (simp_all add: dedupeFold_def)

lemma pipeline_redirected:
  assumes "deliver_pipeline V N rnd c h (\<lambda>d. map_option (maildir_domain E d) (get d)) req msg st = (st', Inr r)" "dr_Result r = ResultRedirected"
  shows "\<exists>(d :: mstore mail_domain) oc. runSieve V c h d req msg = Some oc \<and> so_redirects oc \<noteq> [] \<and> dr_RedirectAddresses r = dedupeFold (so_redirects oc)"
proof -
  have enc: "dr_Result r' \<noteq> ResultRedirected" if "maybeEncrypt N rnd c h req msg = Inl r'" for r'
    using that by (auto simp: maybeEncrypt_def encryption_refused_def rejected_def split: if_split_asm file_read.split_asm option.split_asm)
  show ?thesis using assms enc md_writer.local_delivered md_writer.apply_redirected
    by (fastforce simp: deliver_pipeline_def Let_def rejected_def split: if_split_asm prod.split_asm option.split_asm sum.split_asm)
qed

text \<open>C17: mail travels at most one hop, and never back to where it was sent.  When the proxy answers with a redirect, the message had
  not been forwarded before; the targets are the one target of the forwarding rules, or distinct addresses of a Sieve script, none of
  which is the recipient itself.\<close>

theorem redirect_is_one_hop:
  assumes "sieve_ok V" "str_meta str = Some meta"
    and "proxy_Deliver E V h cfg lookup resolve get flt dir str x = (x', Some (Redirected targets temporary))"
  shows "\<not> dm_Forwarded meta \<and> targets \<noteq> [] \<and> distinct (map ToLower targets)
    \<and> (resolve (dm_Recipient meta) = Some targets \<and> length targets = 1
       \<or> resolve (dm_Recipient meta) = None \<and> ToLower (dm_Recipient meta) \<notin> ToLower ` set targets)"
proof (cases "if dm_Forwarded meta then None else resolve (dm_Recipient meta)")
  case (Some ts)
  then have "respondForward str ts = Some (Redirected targets temporary)" using assms(2,3) by (simp add: proxy_Deliver_def)
  then have "ts = targets" "length targets = 1" by (auto simp: respondForward_def split: if_split_asm) (cases ts; force)
  then show ?thesis using Some by (auto simp: length_Suc_conv split: if_split_asm)
next
  case None
  obtain p disk disk' where "serve_delivery E V h get p str disk = (disk', Some (Redirected targets temporary))"
    using None assms(2,3) by (auto simp: proxy_Deliver_def split: prod.split_asm sum.split_asm if_split_asm)
  then obtain c st' r where pipe: "deliver_pipeline V (ce_nacl E) (ce_rnd E) c h (\<lambda>d. map_option (maildir_domain E d) (get d))
      (deliverRequestFromMetadata meta) (concat (str_pieces str)) (domain_store get (dm_Recipient meta) disk) = (st', Inr r)"
      "response_proto r = Redirected targets temporary"
    using assms(2) by (auto simp: serve_delivery_def DeliveryServer_Deliver_def Let_def split: option.split_asm if_split_asm prod.split_asm sum.split_asm)
  then have r: "dr_Result r = ResultRedirected" "dr_RedirectAddresses r = targets"
    by (auto simp: response_proto_def split: DeliverResult.split_asm)
  obtain d :: "mstore mail_domain" and oc where oc: "runSieve V c h d (deliverRequestFromMetadata meta) (concat (str_pieces str)) = Some oc" "so_redirects oc \<noteq> []"
      "targets = dedupeFold (so_redirects oc)"
    using pipeline_redirected[OF pipe(1) r(1)] r(2) by blast
  have allowed: "RedirectAllowed h (dm_Forwarded meta) (dm_Recipient meta) a" if "a \<in> set targets" for a
    using runSieve_redirects[OF assms(1) oc(1), of a] that dedupe_seen_sub(1)[of "[]" "so_redirects oc"] oc(3)
    by (auto simp: dedupeFold_def deliverRequestFromMetadata_def)
  have ne: "targets \<noteq> []" using oc by (simp add: dedupeFold_Nil)
  then obtain a where "a \<in> set targets" by (cases targets) auto
  then have "\<not> dm_Forwarded meta" using allowed by (auto simp: RedirectAllowed_def)
  moreover have "ToLower (dm_Recipient meta) \<notin> ToLower ` set targets" using allowed unfolding RedirectAllowed_def by (metis (no_types, lifting) imageE)
  ultimately show ?thesis using None ne oc(3) dedupe_seen_sub(3)[of "[]" "so_redirects oc"] by (simp add: dedupeFold_def)
qed

text \<open>A script that redirects to two addresses, the second of which the policy refuses.\<close>

definition demo_redirecting :: sieve_lib where
  "demo_redirecting = \<lparr>sieve_Load = (\<lambda>_. True), sieve_Execute = (\<lambda>_ policy _ _ _ _.
     Some \<lparr>sv_AppliedActions = map ActionRedirect (filter policy [''a@x'', ''BOB@d'']), sv_ImplicitKeep = False, sv_Flags = []\<rparr>)\<rparr>"

definition demo_redirected :: "(os_state \<times> (string \<Rightarrow> mdir option)) \<times> deliver_response option" where
  "demo_redirected = proxy_Deliver (demo_env 7) demo_redirecting demo_host demo_sm_cfg demo_lookup (\<lambda>_. None)
     [''d'' \<mapsto> demo_domain\<lparr>do_sieve := \<lambda>_. FileBytes ''script''\<rparr>] {} ''/t/2'' demo_stream (demo_os, demo_disk)"

lemma demo_redirected_result: "snd demo_redirected = Some (Redirected [''a@x''] False)"
  by code_simp

theorem redirect_is_one_hop_witness:
  "snd demo_redirected = Some (Redirected [''a@x''] False) \<and> \<not> dm_Forwarded demo_meta"
proof -
  have ok: "sieve_ok demo_redirecting" by (auto simp: sieve_ok_def demo_redirecting_def)
  have run: "proxy_Deliver (demo_env 7) demo_redirecting demo_host demo_sm_cfg demo_lookup (\<lambda>_. None)
     [''d'' \<mapsto> demo_domain\<lparr>do_sieve := \<lambda>_. FileBytes ''script''\<rparr>] {} ''/t/2'' demo_stream (demo_os, demo_disk)
     = (fst demo_redirected, Some (Redirected [''a@x''] False))"
    using demo_redirected_result by (metis demo_redirected_def prod.collapse)
  have m: "str_meta demo_stream = Some demo_meta" by (simp add: demo_stream_def)
  show ?thesis using redirect_is_one_hop[OF ok m run] demo_redirected_result by simp
qed

text \<open>A reject whose reason is empty is taken for no reject: nothing is stored and the answer is that of a delivery.\<close>

lemma empty_reject_is_lost:
  assumes "sv_AppliedActions r = [ActionReject []]" "\<not> sv_ImplicitKeep r"
  shows "applySieve h d req (digestActions r) msg st = (st, Inr (delivered_to []))"
  using assms by (simp add: digestActions_def applySieve_def no_outcome_def sieve_answer_def)

section \<open>Watching a mailbox\<close>

lemma list_twice_uids:
  assumes "lib_ok L" "mailboxPath (m_cfg st) mailbox = Inr path" "holds (m_disk st) path mail 2"
    and "store_List L flt now mailbox st = (st1, Inr ms)" "store_List L flt2 now2 mailbox st1 = (st2, Inr ms2)"
  shows "mi_UID ` set ms2 = mi_UID ` set ms"
proof -
  obtain d where d: "m_disk st path = Some d" "dir_ok d" "next_uid_of (d_uids d) + Suc 1 * (length (dir_keys d) + 4) < 2 ^ 32"
    using assms(3) unfolding holds_def by auto
  obtain u where u: "listed L path mailbox d u st st1 ms" using store_List_listed[OF assms(1,2) d(1,2) assms(4)] by blast
  obtain d1 where d1: "m_disk st1 path = Some d1" "dir_ok d1" "readUIDList (d_uids d1) = Inr (Some u)" "uid_printable u"
      "snd ` set (entries u) = set (dir_keys d1)" "m_cfg st1 = m_cfg st" "m_deleted st1 = m_deleted st"
    by (rule listed_dir[OF d(2) u d(3) zero_less_one]) (rule that; assumption)
  have path1: "mailboxPath (m_cfg st1) mailbox = Inr path" using assms(2) d1(6) by simp
  obtain u2 where u2: "listed L path mailbox d1 u2 st1 st2 ms2" using store_List_listed[OF assms(1) path1 d1(1,2) assms(5)] by blast
  have "u2 = u" by (rule listed_stable[OF u2 d1(3-5)])
  then show ?thesis using listed_uids[OF assms(1) d(2) assms(2) u] listed_uids[OF assms(1) d1(2) path1 u2] d1(7) by simp
qed

text \<open>C38: watching a mailbox never reports its new mail.  Each turn of the watch, and each rescan, first selects the folder again, which
  refreshes the list that the rescan then compares the folder with.  So mail that arrived since the last turn is not reported, in whatever
  state the session was.\<close>

theorem watch_never_reports_mail:
  assumes "lib_ok (ce_lib E)" "mailboxPath (m_cfg st) (ss_mailbox s) = Inr path" "holds (m_disk st) path mail 2" "folder \<in> {[], ''INBOX''}"
  shows "snd (watch_tick (session_store E k) folder (s, st)) = None
    \<and> snd (rpc_Rescan (session_store E k) folder (s, st)) \<in> {Inl CodeInternal, Inr []}"
proof -
  have inbox: "or_inbox folder = ''INBOX''" using assms(4) by (auto simp: or_inbox_def)
  have "snd (rpc_Rescan (session_store E k) folder (s, st)) \<in> {Inl CodeInternal, Inr []}"
  proof (cases "store_List (ce_lib E) (ce_faults E) (ce_now E) (ss_mailbox s) st")
    case (Pair st1 q)
    show ?thesis
    proof (cases q)
      case (Inl e)
      then show ?thesis using Pair by (simp add: rpc_Rescan_def selecting_def inbox select_inbox)
    next
      case (Inr ms)
      let ?L = "store_List (ce_lib E) (ce_faults E) (ce_now E) (ss_mailbox s)"
      have "filter (\<lambda>m. mi_UID m \<notin> mi_UID ` set ms) ms2 = []" if "?L st1 = (st2, Inr ms2)" for st2 ms2
        using list_twice_uids[OF assms(1-3) Pair[unfolded Inr] that] by (auto simp: filter_empty_conv)
      then show ?thesis using Pair Inr
        by (cases "?L st1") (auto simp: rpc_Rescan_def selecting_def inbox select_inbox sess_Rescan_def list_folder_def session_store_List
            store_value_def split: sum.split)
    qed
  qed
  then show ?thesis by (cases "rpc_Rescan (session_store E k) folder (s, st)") (auto simp: watch_tick_def)
qed

text \<open>New mail on the disk that the session had not listed.\<close>

theorem watch_never_reports_mail_witness:
  "d_new demo_dir \<noteq> [] \<and> snd (watch_tick (session_store (demo_env 8) None) ''INBOX''
     (New_Session\<lparr>ss_mailbox := ''bob@d''\<rparr>, NewStore (base_store_cfg ''/e/d/users'') demo_disk)) = None"
proof -
  have path: "mailboxPath (m_cfg (NewStore (base_store_cfg ''/e/d/users'') demo_disk)) (ss_mailbox (New_Session\<lparr>ss_mailbox := ''bob@d''\<rparr>))
      = Inr ''/e/d/users/bob''" by code_simp
  have "next_uid_of (d_uids demo_dir) + 2 * (length (dir_keys demo_dir) + 4) < 2 ^ 32" by code_simp
  then have h: "holds (m_disk (NewStore (base_store_cfg ''/e/d/users'') demo_disk)) ''/e/d/users/bob'' (set (mail_of demo_dir)) 2"
    using demo_dir_ok(1) by (simp add: holds_def demo_disk_def NewStore_def)
  have lib: "lib_ok (ce_lib (demo_env 8))" by (simp add: demo_env_def ref_lib_ok)
  show ?thesis using watch_never_reports_mail[OF lib path h] by (simp add: demo_dir_def)
qed

section \<open>Calls under a token\<close>

text \<open>C15: a call acts on the process of the caller only.  Whatever a daemon calls under a token, the registry stays as it is, and no process
  changes but one whose session was started for the name that the token was issued to; a token that the manager did not issue changes
  nothing.\<close>

theorem calls_stay_with_own_process:
  assumes "sm_reachable (y_mgr y)" "proxied token f y = (y', r)"
  shows "y_mgr y' = y_mgr y
    \<and> (\<forall>e. y_procs y' e \<noteq> y_procs y e \<longrightarrow> (token, username_of e (y_mgr y)) \<in> set (g_issued (y_mgr y)))
    \<and> (token \<notin> fst ` set (g_issued (y_mgr y)) \<longrightarrow> y' = y \<and> r = Inl CodeUnauthenticated)"
proof -
  have issued: "(token, username_of e (y_mgr y)) \<in> set (g_issued (y_mgr y))" if "SessionForToken token (y_mgr y) = Some e" for e
    using sm_inv_reachable[OF assms(1)] that unfolding sm_inv_def tokens_ok_def SessionForToken_def by (force simp: username_of_def)
  show ?thesis
  proof (cases "upstream [token] y")
    case (Inl c)
    then have "c = CodeUnauthenticated" by (auto simp: upstream_def split: option.split_asm)
    then show ?thesis using Inl assms(2) by (auto simp: proxied_def)
  next
    case (Inr e)
    then have e: "(token, username_of e (y_mgr y)) \<in> set (g_issued (y_mgr y))"
      using issued by (auto simp: upstream_def tokenFromContext_def split: option.split_asm if_split_asm)
    have "y_mgr y' = y_mgr y" "\<forall>e'. e' \<noteq> e \<longrightarrow> y_procs y' e' = y_procs y e'"
      using assms(2) Inr by (auto simp: proxied_def on_process_def split: if_split_asm option.split_asm prod.split_asm)
    then show ?thesis using e by force
  qed
qed

definition demo_call :: "string \<Rightarrow> sys \<times> (rpc_code + pb_info list)" where
  "demo_call token = proxied token (\<lambda>k. rpc_List (session_store (demo_env 8) k) ''INBOX'') demo_sys"

theorem calls_stay_with_own_process_witness:
  "(''k2'', username_of 0 demo_mgr) \<notin> set (g_issued demo_mgr) \<and> y_procs (fst (demo_call ''k2'')) 0 = y_procs demo_sys 0
   \<and> demo_call ''k9'' = (demo_sys, Inl CodeUnauthenticated)"
proof -
  have reach: "sm_reachable (y_mgr demo_sys)" using sm_run_reachable[OF sm_start demo_mgr_run] by (simp add: demo_sys_def)
  have run: "proxied token (\<lambda>k. rpc_List (session_store (demo_env 8) k) ''INBOX'') demo_sys = (fst (demo_call token), snd (demo_call token))" for token
    by (simp add: demo_call_def)
  have no: "(''k2'', username_of 0 demo_mgr) \<notin> set (g_issued demo_mgr)" "''k9'' \<notin> fst ` set (g_issued demo_mgr)" by code_simp+
  have m: "y_mgr demo_sys = demo_mgr" by (simp add: demo_sys_def)
  have "y_procs (fst (demo_call ''k2'')) 0 = y_procs demo_sys 0"
    using calls_stay_with_own_process[OF reach run[of "''k2''"]] no(1) unfolding m by blast
  moreover have "fst (demo_call ''k9'') = demo_sys \<and> snd (demo_call ''k9'') = Inl CodeUnauthenticated"
    using calls_stay_with_own_process[OF reach run[of "''k9''"]] no(2) unfolding m by blast
  ultimately show ?thesis using no(1) by (simp add: prod_eq_iff)
qed

end
