(* ===== verification/ClientProps.thy ===== *)
theory ClientProps
  imports MailPath
begin

text \<open>What a daemon sees of a mailbox through its store client: everything it lists can be read, and the messages that a session marks
  are exactly the ones that go when it commits.\<close>

section \<open>Reading\<close>

definition client_reads :: "call_env \<Rightarrow> string \<Rightarrow> sys \<Rightarrow> messageInfo list \<Rightarrow> (uint32 \<times> string) set" where
  "client_reads E token y ms = {(mi_UID m, c) | m c. m \<in> set ms \<and> snd (client_Retrieve E token (mi_UID m) y) = Inr c}"

lemma session_store_Retrieve_Inl:
  assumes "snd (store_Retrieve (ce_lib E) (ce_faults E) (ce_now E) mailbox uid st) = Inl x"
  shows "snd (ms_Retrieve (session_store E k) mailbox uid st) = Inl x"
  using assms
  by (cases "store_Retrieve (ce_lib E) (ce_faults E) (ce_now E) mailbox uid st")
    (auto simp: session_store_def plain_store_def maildir_store_def NewDecryptingStore_def decrypt_result_def split: option.split)

lemma client_Retrieve_Inl:
  assumes "serves y token e p"
    and "store_List (ce_lib E) (ce_faults E) (ce_now E) (ss_mailbox (mp_session p)) ((mp_store p)\<lparr>m_disk := y_disk y\<rparr>) = (st2, Inr ms2)"
    and "snd (store_Retrieve (ce_lib E) (ce_faults E) (ce_now E) (ss_mailbox (mp_session p)) uid st2) = Inl x"
  shows "\<exists>c. snd (client_Retrieve E token uid y) = Inl c"
proof -
  obtain st3 where "ms_Retrieve (session_store E (mp_key p)) (ss_mailbox (mp_session p)) uid st2 = (st3, Inl x)"
    using session_store_Retrieve_Inl[OF assms(3), of "mp_key p"] by (metis prod.collapse)
  then show ?thesis using assms(2)
    by (simp add: proxied_serves[OF assms(1)] client_Retrieve_def client_RetrieveFromFolder_def map_result_def rpc_Fetch_def selecting_def select_inbox
        sess_Retrieve_def RetrieveFrom_def store_value_def)
qed

lemma client_Retrieve_iff:
  assumes "serves y token e p"
    and "store_List (ce_lib E) (ce_faults E) (ce_now E) (ss_mailbox (mp_session p)) ((mp_store p)\<lparr>m_disk := y_disk y\<rparr>) = (st2, Inr ms2)"
  shows "snd (client_Retrieve E token uid y) = Inr c \<longleftrightarrow>
    (\<exists>w. snd (store_Retrieve (ce_lib E) (ce_faults E) (ce_now E) (ss_mailbox (mp_session p)) uid st2) = Inr w \<and> c = opened (ce_nacl E) (mp_key p) w)"
  using client_Retrieve_serves[OF assms, of uid] client_Retrieve_Inl[OF assms, of uid]
  by (cases "snd (store_Retrieve (ce_lib E) (ce_faults E) (ce_now E) (ss_mailbox (mp_session p)) uid st2)") auto

text \<open>A listing changes the session and the store of the process.\<close>

lemma client_List_process:
  assumes "serves y token e p" "client_List E token y = (y1, Inr ms)"
  shows "\<exists>st1 msgs. store_List (ce_lib E) (ce_faults E) (ce_now E) (ss_mailbox (mp_session p)) ((mp_store p)\<lparr>m_disk := y_disk y\<rparr>) = (st1, Inr msgs)
    \<and> ms = map (of_pb \<circ> pb_of) msgs \<and> y_disk y1 = m_disk st1
    \<and> serves y1 token e (p\<lparr>mp_session := (mp_session p)\<lparr>ss_selectedFolder := ''INBOX'', ss_msgs := msgs\<rparr>, mp_store := st1\<rparr>)"
proof -
  obtain st1 q where l: "store_List (ce_lib E) (ce_faults E) (ce_now E) (ss_mailbox (mp_session p)) ((mp_store p)\<lparr>m_disk := y_disk y\<rparr>) = (st1, q)"
    by fastforce
  show ?thesis using assms(2) l assms(1)
    by (cases q) (auto simp: proxied_serves[OF assms(1)] client_List_def client_ListInFolder_def map_result_def rpc_List_def selecting_def select_inbox serves_def)
qed

lemma of_pb_UID [simp]: "mi_UID (of_pb (pb_of m)) = mi_UID m"
  by (simp add: of_pb_def pb_of_def)

text \<open>What can be read after a listing: each entry of the UID list, with the text of its file.\<close>

lemma client_reads_listed:
  assumes "lib_ok (ce_lib E)" "lib_total (ce_lib E)" "ce_faults E = {}" "serves y1 token e p1" "ss_mailbox (mp_session p1) = mailbox"
    and "mp_store p1 = st1" "y_disk y1 = m_disk st1" "mailboxPath (m_cfg st) mailbox = Inr path" "m_deleted st mailbox = []"
    and "dir_ok d" "listed (ce_lib E) path mailbox d u st st1 msgs" "unat (uidNext u) + length (dir_keys d) < 2 ^ 32"
    and "mi_UID ` set ms = mi_UID ` set msgs"
  shows "client_reads E token y1 ms = {(i, opened (ce_nacl E) (mp_key p1) c) | i k c. (i, k) \<in> set (entries u) \<and> (k, c) \<in> set (mail_of d)}"
proof -
  let ?L = "ce_lib E"
  obtain d1 where d1: "m_disk st1 path = Some d1" "dir_ok d1" "mail_of d1 = mail_of d" "dir_keys d1 = dir_keys d"
      "readUIDList (d_uids d1) = Inr (Some u)" "uid_printable u" "snd ` set (entries u) = set (dir_keys d1)" "m_cfg st1 = m_cfg st"
      "m_deleted st1 = m_deleted st"
    by (rule listed_again[OF assms(10-12)]) (rule that; assumption)
  have path1: "mailboxPath (m_cfg st1) mailbox = Inr path" using assms(8) d1(8) by simp
  obtain st2 ms2 where l2: "store_List ?L {} (ce_now E) mailbox st1 = (st2, Inr ms2)"
    using list_total[OF assms(1,2) path1 d1(1,2,5,6,7)] by blast
  obtain u2 where u2: "listed ?L path mailbox d1 u2 st1 st2 ms2" using store_List_listed[OF assms(1) path1 d1(1,2) l2] by blast
  have u: "u2 = u" by (rule listed_stable[OF u2 d1(5,6,7)])
  have uids: "mi_UID ` set ms = mi_UID ` set ms2"
    using listed_uids[OF assms(1) d1(2) path1 u2] listed_uids[OF assms(1,10,8,11)] u d1(9) assms(13) by simp
  have read2: "readable ?L mailbox st2 ms2 = {(i, k, c). (i, k) \<in> set (entries u) \<and> (k, c) \<in> set (mail_of d)}"
    using listed_readable[OF assms(1) d1(2) path1 u2] d1(3,9) assms(9) u by simp
  have cached: "mailboxPath (m_cfg st2) mailbox = Inr path" "m_cache st2 path = Some u2"
    using u2 path1 unfolding listed_def by auto
  have "(mp_store p1)\<lparr>m_disk := y_disk y1\<rparr> = st1" using assms(6,7) by simp
  then have ret: "snd (client_Retrieve E token uid y1) = Inr c \<longleftrightarrow>
      (\<exists>w. snd (store_Retrieve ?L {} 0 mailbox uid st2) = Inr w \<and> c = opened (ce_nacl E) (mp_key p1) w)" for uid c
    using client_Retrieve_iff[OF assms(4), of E st2 ms2 uid c] l2 assms(3,5) retrieve_cached[OF cached, of ?L "{}" "ce_now E" uid] by simp
  have "client_reads E token y1 ms = {(i, opened (ce_nacl E) (mp_key p1) c) | i c. i \<in> mi_UID ` set ms2 \<and> snd (store_Retrieve ?L {} 0 mailbox i st2) = Inr c}"
    unfolding client_reads_def ret uids[symmetric] by blast
  also have "\<dots> = {(i, opened (ce_nacl E) (mp_key p1) c) | i k c. (i, k, c) \<in> readable ?L mailbox st2 ms2}"
    unfolding readable_def by blast
  finally show ?thesis unfolding read2 by simp
qed

section \<open>Marking and committing\<close>

lemma same_disk: "m_disk st = disk \<Longrightarrow> st\<lparr>m_disk := disk\<rparr> = st"
  by auto

lemma client_Delete_marks:
  assumes "serves y token e p" "m_disk (mp_store p) = y_disk y" "uid \<in> mi_UID ` set (ss_msgs (mp_session p))" "uid \<notin> set (ss_deleted (mp_session p))"
  shows "snd (client_Delete token uid y) = Inr ()" "y_disk (fst (client_Delete token uid y)) = y_disk y"
    "serves (fst (client_Delete token uid y)) token e (p\<lparr>mp_session := (mp_session p)\<lparr>ss_deleted := uid # ss_deleted (mp_session p)\<rparr>\<rparr>)"
proof -
  obtain m where "List.find (\<lambda>m. mi_UID m = uid) (ss_msgs (mp_session p)) = Some m"
    using assms(3) by (cases "List.find (\<lambda>m. mi_UID m = uid) (ss_msgs (mp_session p))") (auto simp: find_None_iff)
  then have d: "rpc_Delete uid (mp_session p, (mp_store p)\<lparr>m_disk := y_disk y\<rparr>)
      = (((mp_session p)\<lparr>ss_deleted := uid # ss_deleted (mp_session p)\<rparr>, mp_store p), Inr ())"
    using assms(4) same_disk[OF assms(2)] by (simp add: rpc_Delete_def sess_Delete_def GetUID_def to_code_def)
  then show "snd (client_Delete token uid y) = Inr ()" "y_disk (fst (client_Delete token uid y)) = y_disk y"
    "serves (fst (client_Delete token uid y)) token e (p\<lparr>mp_session := (mp_session p)\<lparr>ss_deleted := uid # ss_deleted (mp_session p)\<rparr>\<rparr>)"
    using assms(1,2) by (simp_all add: client_Delete_def proxied_serves[OF assms(1)] serves_def)
qed

definition client_marks :: "string \<Rightarrow> uint32 list \<Rightarrow> sys \<Rightarrow> sys" where
  "client_marks token uids y = fold (\<lambda>uid y. fst (client_Delete token uid y)) uids y"

lemma client_marks_spec:
  assumes "serves y token e p" "m_disk (mp_store p) = y_disk y" "set uids \<subseteq> mi_UID ` set (ss_msgs (mp_session p))" "distinct uids"
    and "set uids \<inter> set (ss_deleted (mp_session p)) = {}"
  shows "y_disk (client_marks token uids y) = y_disk y
    \<and> serves (client_marks token uids y) token e (p\<lparr>mp_session := (mp_session p)\<lparr>ss_deleted := rev uids @ ss_deleted (mp_session p)\<rparr>\<rparr>)"
  using assms
proof (induction uids arbitrary: y p)
  case (Cons uid uids)
  let ?y = "fst (client_Delete token uid y)" and ?p = "p\<lparr>mp_session := (mp_session p)\<lparr>ss_deleted := uid # ss_deleted (mp_session p)\<rparr>\<rparr>"
  have d: "y_disk ?y = y_disk y" "serves ?y token e ?p"
    using client_Delete_marks(2,3)[OF Cons.prems(1,2)] Cons.prems(3,5) by simp_all
  show ?case using Cons.IH[OF d(2)] d(1) Cons.prems by (simp add: client_marks_def)
qed (simp add: client_marks_def)

lemma delete_marked_fold: "delete_marked (session_store E k) mailbox uids st = (fold (store_Delete mailbox) uids st, None)"
  by (induction uids arbitrary: st)
    (simp_all add: session_store_def plain_store_def maildir_store_def NewDecryptingStore_def split: option.split)

lemma session_store_Expunge: "ms_Expunge (session_store E k) = store_Expunge (ce_lib E) (ce_faults E) (ce_now E)"
  by (simp add: session_store_def plain_store_def maildir_store_def NewDecryptingStore_def split: option.split)

lemma client_Expunge_commits:
  assumes "serves y token e p" "m_disk (mp_store p) = y_disk y" "m_deleted (mp_store p) mailbox = []" "ss_mailbox (mp_session p) = mailbox"
    and "\<And>xs. set (ce_order E xs) = set xs" "client_Expunge E token y = (y', Inr ())"
  shows "\<exists>st2. store_Expunge (ce_lib E) (ce_faults E) (ce_now E) mailbox (fold (store_Delete mailbox) (ce_order E (ss_deleted (mp_session p))) (mp_store p))
      = (st2, None) \<and> serves y' token e (p\<lparr>mp_store := st2\<rparr>) \<and> y_disk y' = m_disk st2"
proof (cases "ss_deleted (mp_session p) = []")
  case True
  then have o: "ce_order E [] = []" using assms(5)[of "[]"] by simp
  have "store_Expunge (ce_lib E) (ce_faults E) (ce_now E) mailbox (mp_store p) = (mp_store p, None)"
    using assms(3) by (simp add: store_Expunge_def expunge_at_def Let_def fun_upd_idem)
  moreover have "serves y' token e p" "y_disk y' = y_disk y"
    using assms(1,2,6) True o
    by (auto simp: client_Expunge_def proxied_serves[OF assms(1)] rpc_Commit_def sess_Commit_def to_code_def serves_def same_disk)
  ultimately show ?thesis using True o assms(2) by simp
next
  case False
  let ?st = "fold (store_Delete mailbox) (ce_order E (ss_deleted (mp_session p))) (mp_store p)"
  obtain st2 q where x: "store_Expunge (ce_lib E) (ce_faults E) (ce_now E) mailbox ?st = (st2, q)" by fastforce
  then show ?thesis using assms(1,2,4,6) False
    by (cases q) (auto simp: client_Expunge_def proxied_serves[OF assms(1)] rpc_Commit_def sess_Commit_def to_code_def serves_def same_disk
        delete_marked_fold session_store_Expunge store_done_def)
qed

lemma expunged_pairs:
  assumes "entries u2 = filter (\<lambda>e. fst e \<notin> set uids) (entries u)" "mail_of d2 = filter (\<lambda>p. fst p \<in> snd ` set (entries u2)) (mail_of d)"
  shows "(i, k) \<in> set (entries u2) \<and> (k, c) \<in> set (mail_of d2)
    \<longleftrightarrow> (i, k) \<in> set (entries u) \<and> i \<notin> set uids \<and> (k, c) \<in> set (mail_of d)"
  unfolding assms(2) using imageI[of "(i, k)" "set (entries u2)" snd] by (auto simp: assms(1))


definition demo_before :: "sys \<times> (rpc_code + messageInfo list)" where
  "demo_before = client_List (demo_env 8) ''k2'' (demo_sys\<lparr>y_disk := demo_disk\<rparr>)"

definition demo_committed :: "sys \<times> (rpc_code + unit)" where
  "demo_committed = client_Expunge (demo_env 9) ''k2'' (client_marks ''k2'' [1] (fst demo_before))"

definition demo_after :: "sys \<times> (rpc_code + messageInfo list)" where
  "demo_after = client_List (demo_env 10) ''k2'' (fst demo_committed)"

lemma demo_commit_runs: "map_sum id (map mi_UID) (snd demo_before) = Inr [1, 2]" "snd demo_committed = Inr ()"
  "map_sum id (map mi_UID) (snd demo_after) = Inr [2]" "ss_deleted (mp_session demo_reader) = []"
  by code_simp+


end
