(* ===== verification/Spec2Isabelle.thy ===== *)
theory Spec2Isabelle
  imports Identity Pop3Props DomainLoad AuthRouter Outbound SmtpProps MaildirProps MaildirPaths SessionManagerProps MailSystemProps ClientProps
begin

text \<open>
  \<^bold>\<open>Maildancer: a verified model of a multi-daemon mail system.\<close>

  Maildancer is a mail server of several processes, written in Go.  \<open>smtpd\<close> receives mail and submissions, \<open>pop3d\<close> and \<open>imapd\<close> serve
  mailboxes, \<open>session-manager\<close> is the only process with privileges: it authenticates users, starts one \<open>mail-session\<close> process for each
  mailbox in use under the uid of its owner, passes the calls of the daemons on to it, and writes the outbound queue;
  \<open>queue-manager\<close> scans that queue and starts \<open>mail-remote\<close>, which talks to other servers.  Mail goes from \<open>smtpd\<close> through the delivery proxy
  of \<open>session-manager\<close> into a \<open>mail-session\<close> process, which runs Sieve, encrypts for the owner and writes a Maildir; it goes out through
  the queue.  This development models these processes by functions on explicit states and proves what they promise, alone
  and together.

  \<^bold>\<open>Conventions.\<close>  Go strings and byte slices are lists of characters.  Integers that wrap are words; those that cannot overflow in
  the code are \<^typ>\<open>int\<close> or \<^typ>\<open>nat\<close>.  A struct is a record, an enumeration a datatype, an error a constructor of an error type, a
  result with an error a sum.  Methods take and return the state of their receiver.  A system call that can fail is decided by a
  set of faults, or a table of failures, that the operation is given, so a theorem for all faults is a theorem for all failures.
  Code that is not part of the repository (the Maildir, SMTP, TLS, DNS, NaCl, Sieve, SASL, DKIM and TOML libraries, Redis, the clock,
  the random source) is an argument, mostly a record of functions; what the code relies on of it is a named predicate (\<open>lib_ok\<close>,
  \<open>lib_total\<close>, \<open>nacl_ok\<close>, \<open>entropy_ok\<close>, \<open>sieve_ok\<close>), and each has a reference instance that satisfies it.  Files under \<open>src/\<close> are named without
  that prefix below.

  \<^bold>\<open>Foundations.\<close>
  \<^item> \<open>Prelude\<close>: the string functions of Go that the code uses, decimal numbers, and shared lemmas.
  \<^item> \<open>GoPath\<close>: \<open>filepath.Join\<close> and \<open>Clean\<close>, and that a cleaned path below a base has no dot-dot component.
  \<^item> \<open>Base64\<close>: the standard encoding with its round trip.

  \<^bold>\<open>Identities and authentication.\<close>
  \<^item> \<open>Identity\<close>: \<open>internal/idrange\<close>, \<open>auth/identity\<close> (counter file, uid and gid maps, the manager) and
    \<open>session-manager/credentials/lookup.go\<close>.  Over all runs of allocations and removals no two principals share an id.
  \<^item> \<open>Forwards\<close>: \<open>auth/forwards\<close>, \<open>auth/domain/forwarding.go\<close>, \<open>forwardedit.go\<close> and \<open>internal/admin/shadow.go\<close>.  Edits take effect, targets are
    normalised, the report of captured mailboxes agrees with the chain of tiers.
  \<^item> \<open>DomainLoad\<close>: layers of configuration and the provider of domains (\<open>auth/domain/merge.go\<close>, \<open>config.go\<close>, \<open>postmaster.go\<close>, \<open>filesystem.go\<close>).
  \<^item> \<open>AuthRouter\<close>: \<open>auth/domain/limitstore.go\<close>, \<open>ratelimit.go\<close>, \<open>router.go\<close>.  The locale \<open>limit_store\<close> is the contract of a store of counters,
    interpreted for the in-process store; in it the number of guesses is bounded and a lockout cannot be lifted.

  \<^bold>\<open>Receiving and sending.\<close>
  \<^item> \<open>SpamCheck\<close>, \<open>SmtpHeaders\<close>, \<open>Smtp\<close>, \<open>SmtpProps\<close>: \<open>internal/smtpd/spamcheck\<close> and \<open>internal/smtpd/smtp\<close>.  A session is a sequence of handler calls with
    a trace of what leaves it; the locale \<open>trace_policy\<close> lifts a policy on events to all sessions, and is interpreted for
    relaying and for sender addresses.
  \<^item> \<open>Queue\<close>, \<open>Scheduler\<close>, \<open>SchedulerProps\<close>, \<open>QueueProps\<close>: \<open>internal/session-manager/queue/queue.go\<close> and \<open>internal/queue-manager/scheduler\<close>, on a tree of
    files.  The locale \<open>delivery_agent\<close> is what the scheduler relies on of the agent it starts.
  \<^item> \<open>MtaSts\<close>, \<open>MailRemote\<close>, \<open>RemoteProps\<close>: \<open>internal/mail-remote\<close> and \<open>cmd/mail-remote\<close>; no message is sent twice, enforced policies are not
    downgraded.
  \<^item> \<open>Outbound\<close>: the agent of \<open>MailRemote\<close> interprets \<open>delivery_agent\<close>, so queued mail is not lost by the two together.

  \<^bold>\<open>Storing and reading.\<close>
  \<^item> \<open>MsgStore\<close>, \<open>UidList\<close>: the vocabulary of \<open>msgstore\<close> and the UID list of a folder, byte for byte (\<open>msgstore/maildir/uidlist.go\<close>); the locale
    \<open>persistent_uids\<close> gives that UIDs are never reused.
  \<^item> \<open>Maildir\<close>, \<open>MaildirLib\<close>, \<open>MaildirProps\<close>, \<open>MaildirPaths\<close>: \<open>msgstore/maildir/store.go\<close> on a disk of maildirs, the contract of the Maildir library,
    the contents of the store after each operation, and the confinement to its base directory.
  \<^item> \<open>AtRest\<close>: \<open>msgstore/encrypting_delivery.go\<close> and \<open>decrypting_store.go\<close> over a record of NaCl functions.
  \<^item> \<open>Pop3\<close>, \<open>Pop3Props\<close>: \<open>internal/pop3d/pop3\<close>, with the invariant of its sessions, the effect of QUIT, and the wire format.

  \<^bold>\<open>The mail system.\<close>
  \<^item> \<open>SessionManager\<close>, \<open>SessionInv\<close>, \<open>SessionManagerProps\<close>: \<open>session-manager/manager/manager.go\<close>.  Its critical sections are the steps of the inductive
    relation \<open>sm_reachable\<close>, so the theorems hold for every interleaving of logins, logouts, timers, exits and reapers.
  \<^item> \<open>MailSession\<close>, \<open>MailServices\<close>: the open mailbox of \<open>internal/mail-session/session\<close> and the calls of \<open>internal/mail-session/grpcserver\<close>.
  \<^item> \<open>Delivery\<close>: the pipeline of \<open>internal/mail-session/deliver\<close>, with Sieve, encryption and folders.
  \<^item> \<open>MailSystem\<close>: the start of a process (\<open>cmd/mail-session\<close>), the proxies of \<open>session-manager/grpcserver\<close>, and the store of the daemons
    (\<open>session-manager/client/store.go\<close>).  The state \<open>sys\<close> has the registry, the processes and the disk.
  \<^item> \<open>DeliveryProps\<close>: the locale \<open>mail_writer\<close> is what the pipeline relies on of a domain, interpreted for Maildir domains; with it, a
    mailbox with a keyring never gets plaintext.
  \<^item> \<open>MailPath\<close>: from the delivery proxy to the retrieval by the owner, byte for byte.
  \<^item> \<open>MailSystemProps\<close>, \<open>ClientProps\<close>: a folder in the answer means that the message is stored, redirects are one hop, a call stays with the
    process of its caller, and what a client marks is what goes.

  \<^bold>\<open>Bounds and fuel.\<close>  Loops over data are structural or have a termination proof (\<open>chunks\<close>, the parsers); the endless loops of the
  daemons are modelled by one turn, and their histories by lists of turns.  UIDs are 32-bit words: theorems that count on fresh
  UIDs assume room for as many as the operations at hand can assign, which \<open>holds\<close> states with a factor for each listing.
  Times are integers; spam scores are real numbers.

  \<^bold>\<open>Not modelled.\<close>  Pure input and output and calls of libraries: listeners and the hand-over of connections to child processes, the web
  administration, the OIDC provider, the command line tools, certificate handling, configuration loaders, metrics and logging, generated
  protocol code, the rspamd client, the text of bounces.  The IMAP server is a backend of the go-imap library, whose state machine and wire
  format it shares; the store operations it calls are modelled.  The peer filter keeps its state in Redis and decides before any
  protocol starts.  Password hashing and the sealing of private keys are cryptographic libraries around files; an authentication
  agent is a parameter of the router.  Races inside one operation of the Maildir store, clocks that run backwards, and crashes of the machine
  in the middle of a write are outside the model, except where a fault stands for them.
\<close>

end
